(* ===== verification/Prelude.thy ===== *)
theory Prelude
  imports Main "HOL-Library.State_Monad"
begin

text \<open>
  Shared base of the development. The controller is written in an imperative style: it threads
  a mutable state through many calls, may panic on a nil dereference, and registers deferred
  calls. This theory gives the state monad of \<open>HOL-Library.State_Monad\<close> the few
  operations the models need, records every external call in a trace, and sets up the
  weakest-precondition rules (the collection \<open>wp\<close>) that the component proofs use.
\<close>

named_theorems wp \<open>weakest-precondition introduction rules, one per program construct\<close>

subsection \<open>Go panics and deferred calls\<close>

text \<open>
  The run-time panics the sources can reach. A panicking Go function still runs its deferred
  calls, with the state as it was when the panic started; hence a panic is a value of the monad
  and never discards the state.
\<close>

datatype panic = NilDereference | IndexOutOfRange

datatype 'a outcome = Ret 'a | Panic panic

abbreviation return :: "'a \<Rightarrow> ('s, 'a) state" where
  "return \<equiv> State_Monad.return"

definition gets :: "('s \<Rightarrow> 'a) \<Rightarrow> ('s, 'a) state" where
  "gets f = State (\<lambda>s. (f s, s))"

definition modify :: "('s \<Rightarrow> 's) \<Rightarrow> ('s, unit) state" where
  "modify f = State (\<lambda>s. ((), f s))"

text \<open>Go's \<open>defer\<close>: the deferred call runs on every way out of the body, panics included.\<close>

definition deferring :: "('s, unit) state \<Rightarrow> ('s, 'a) state \<Rightarrow> ('s, 'a) state" where
  "deferring d m = do { r \<leftarrow> m; d; return r }"

text \<open>Continue with the value of a call that may have panicked; a panic propagates.\<close>

definition unless_panic ::
  "'a outcome \<Rightarrow> ('a \<Rightarrow> ('s, 'b outcome) state) \<Rightarrow> ('s, 'b outcome) state" where
  "unless_panic r f = (case r of Ret x \<Rightarrow> f x | Panic p \<Rightarrow> return (Panic p))"

lemma run_state_gets [simp]: "run_state (gets f) s = (f s, s)"
  by (simp add: gets_def)

lemma run_state_modify [simp]: "run_state (modify f) s = ((), f s)"
  by (simp add: modify_def)

lemma unless_panic_simps [simp]:
  "unless_panic (Ret x) f = f x"
  "unless_panic (Panic p) f = return (Panic p)"
  by (simp_all add: unless_panic_def)

lemma run_state_if [simp]:
  "run_state (if b then m else n) s = (if b then run_state m s else run_state n s)"
  by simp

subsection \<open>Traced states\<close>

text \<open>
  A program state carries the list of external calls issued so far, oldest first. The trace is
  only ever extended; the sources have no counterpart of it, it is what an observer of the
  API servers sees.
\<close>

record 'e traced =
  trace :: "'e list"

definition result :: "('s, 'a) state \<Rightarrow> 's \<Rightarrow> 'a" where
  "result m s = fst (run_state m s)"

definition final :: "('s, 'a) state \<Rightarrow> 's \<Rightarrow> 's" where
  "final m s = snd (run_state m s)"

text \<open>The calls a run adds to the trace.\<close>

definition events :: "(('e, 'z) traced_scheme, 'a) state \<Rightarrow> ('e, 'z) traced_scheme \<Rightarrow> 'e list" where
  "events m s = drop (length (trace s)) (trace (final m s))"

text \<open>
  \<open>wp m Q s\<close>: running \<open>m\<close> from \<open>s\<close> extends the trace by some \<open>es\<close>, and the
  result, \<open>es\<close> and the final state satisfy \<open>Q\<close>. Programs of the state monad always
  return, so this is total correctness.
\<close>

definition wp ::
  "(('e, 'z) traced_scheme, 'a) state \<Rightarrow>
   ('a \<Rightarrow> 'e list \<Rightarrow> ('e, 'z) traced_scheme \<Rightarrow> bool) \<Rightarrow> ('e, 'z) traced_scheme \<Rightarrow> bool" where
  "wp m Q s \<longleftrightarrow>
     (\<exists>es. trace (final m s) = trace s @ es \<and> Q (result m s) es (final m s))"

lemma wp_events:
  "wp m Q s \<longleftrightarrow>
     trace (final m s) = trace s @ events m s \<and> Q (result m s) (events m s) (final m s)"
  by (auto simp: wp_def events_def)

lemma wpD: "wp m Q s \<Longrightarrow> Q (result m s) (events m s) (final m s)"
  by (simp add: wp_events)

lemma wp_conseq:
  "wp m P s \<Longrightarrow> (\<And>x es s'. P x es s' \<Longrightarrow> Q x es s') \<Longrightarrow> wp m Q s"
  by (auto simp: wp_def)

lemma wp_conj:
  "wp m P s \<Longrightarrow> wp m Q s \<Longrightarrow> wp m (\<lambda>x es s'. P x es s' \<and> Q x es s') s"
  by (auto simp: wp_events)

lemma run_cong:
  assumes "run_state m s = run_state m' s"
  shows "result m s = result m' s" and "final m s = final m' s"
  using assms by (simp_all add: result_def final_def)

lemma events_cong: "run_state m s = run_state m' s \<Longrightarrow> events m s = events m' s"
  by (simp add: events_def final_def)

lemma wp_cong: "run_state m s = run_state m' s \<Longrightarrow> wp m Q s = wp m' Q s"
  by (simp add: wp_def result_def final_def)

lemma wp_return [wp]: "Q x [] s \<Longrightarrow> wp (return x) Q s"
  by (simp add: wp_def result_def final_def)

lemma wp_bind [wp]:
  assumes "wp m (\<lambda>x es s'. wp (f x) (\<lambda>y es'. Q y (es @ es')) s') s"
  shows "wp (State_Monad.bind m f) Q s"
  using assms by (auto simp: wp_def result_def final_def split: prod.splits)

lemma wp_gets [wp]: "Q (f s) [] s \<Longrightarrow> wp (gets f) Q s"
  by (simp add: wp_def result_def final_def)

lemma wp_modify [wp]: "trace (f s) = trace s \<Longrightarrow> Q () [] (f s) \<Longrightarrow> wp (modify f) Q s"
  by (simp add: wp_def result_def final_def)

lemma wp_if [wp]:
  "(b \<Longrightarrow> wp m Q s) \<Longrightarrow> (\<not> b \<Longrightarrow> wp n Q s) \<Longrightarrow> wp (if b then m else n) Q s"
  by simp

lemma wp_case_option [wp]:
  "(x = None \<Longrightarrow> wp m Q s) \<Longrightarrow> (\<And>y. x = Some y \<Longrightarrow> wp (f y) Q s) \<Longrightarrow>
   wp (case x of None \<Rightarrow> m | Some y \<Rightarrow> f y) Q s"
  by (cases x) auto

lemma wp_case_sum [wp]:
  "(\<And>e. x = Inl e \<Longrightarrow> wp (f e) Q s) \<Longrightarrow> (\<And>y. x = Inr y \<Longrightarrow> wp (g y) Q s) \<Longrightarrow>
   wp (case x of Inl e \<Rightarrow> f e | Inr y \<Rightarrow> g y) Q s"
  by (cases x) auto

lemma wp_case_prod [wp]:
  "(\<And>a b. x = (a, b) \<Longrightarrow> wp (f a b) Q s) \<Longrightarrow> wp (case x of (a, b) \<Rightarrow> f a b) Q s"
  by (cases x) auto

lemma wp_unless_panic [wp]:
  "(\<And>x. r = Ret x \<Longrightarrow> wp (f x) Q s) \<Longrightarrow> (\<And>p. r = Panic p \<Longrightarrow> Q (Panic p) [] s) \<Longrightarrow>
   wp (unless_panic r f) Q s"
  by (cases r) (auto intro: wp_return)

lemma wp_deferring [wp]:
  assumes "wp m (\<lambda>x es s'. wp d (\<lambda>_ es'. Q x (es @ es')) s') s"
  shows "wp (deferring d m) Q s"
  unfolding deferring_def
  by (rule wp_bind, rule wp_conseq [OF assms], rule wp_bind, erule wp_conseq)
     (auto intro: wp_return)

lemma wp_let [wp]: "wp (f x) Q s \<Longrightarrow> wp (let y = x in f y) Q s"
  by simp

text \<open>Counting the calls of one kind.\<close>

abbreviation count_of :: "('e \<Rightarrow> bool) \<Rightarrow> 'e list \<Rightarrow> nat" where
  "count_of P es \<equiv> length (filter P es)"

lemma count_of_none: "\<forall>e \<in> set es. \<not> P e \<Longrightarrow> count_of P es = 0"
  by simp

end
