(* ===== verification/API_Types.thy ===== *)
theory API_Types
  imports Prelude "HOL-Library.Word"
begin

text \<open>
  The data of the controller: the objects of the v1beta1 API group (package
  \<open>api/v1beta1\<close>), the condition types and reasons, and, as far as the controllers read or
  write them, the Kubernetes and Cluster API objects they handle. A Go pointer to a value that
  may be absent is an \<open>option\<close>; a Go map is an association list; an \<open>int32\<close> is a 32 bit
  word read with \<open>sint\<close>; \<open>time.Time\<close> is an integer instant whose zero value is 0, and a
  \<open>time.Duration\<close> an integer number of nanoseconds.
\<close>

type_synonym time = int
type_synonym duration = int
type_synonym bytes = string
type_synonym int32 = "32 word"
type_synonym labels = "(string \<times> string) list"

definition Second :: duration where
  "Second = 1000000000"

subsection \<open>Errors\<close>

text \<open>
  \<open>Foreign\<close> is any error of a client or library (a machine readable reason and a text),
  \<open>Errorf\<close> one built by \<open>fmt.Errorf\<close> (format and string arguments), \<open>ErrNew\<close> by
  \<open>errors.New\<close>, \<open>Wrapped\<close> by \<open>errors.Wrap\<close>; \<open>errServiceUnhealthy\<close> is the error
  type of \<open>reconcile.go\<close> with its fields \<open>service\<close> and \<open>reason\<close>.
\<close>

datatype error =
    Foreign string string
  | Errorf string "string list"
  | ErrNew string
  | Wrapped error string
  | errServiceUnhealthy string string

text \<open>The text of an error; what foreign code computes is the parameter \<open>txt\<close>.\<close>

definition Error_text :: "(error \<Rightarrow> string) \<Rightarrow> error \<Rightarrow> string" where
  "Error_text txt e =
     (case e of
        errServiceUnhealthy service reason \<Rightarrow>
          ''Service '' @ service @ '' is unhealthy: '' @ reason
      | _ \<Rightarrow> txt e)"

subsection \<open>Object metadata\<close>

record ObjectReference =
  ref_APIVersion :: string
  ref_Kind :: string
  ref_Name :: string
  ref_Namespace :: string
  ref_UID :: string

record OwnerReference =
  or_APIVersion :: string
  or_Kind :: string
  or_Name :: string
  or_UID :: string
  or_Controller :: "bool option"
  or_BlockOwnerDeletion :: "bool option"

record ObjectMeta =
  om_Name :: string
  om_Namespace :: string
  om_UID :: string
  om_Labels :: labels
  om_Annotations :: labels
  om_OwnerReferences :: "OwnerReference list"
  om_Finalizers :: "string list"
  om_CreationTimestamp :: time
  om_DeletionTimestamp :: "time option"

definition empty_meta :: ObjectMeta where
  "empty_meta = \<lparr>om_Name = [], om_Namespace = [], om_UID = [], om_Labels = [],
     om_Annotations = [], om_OwnerReferences = [], om_Finalizers = [],
     om_CreationTimestamp = 0, om_DeletionTimestamp = None\<rparr>"

text \<open>\<open>DeletionTimestamp.IsZero()\<close>: a nil pointer or the zero instant.\<close>

definition IsZero :: "time option \<Rightarrow> bool" where
  "IsZero t = (case t of None \<Rightarrow> True | Some i \<Rightarrow> i = 0)"

text \<open>Reading a missing key of a Go map gives the zero value, here the empty string.\<close>

definition map_get :: "labels \<Rightarrow> string \<Rightarrow> string" where
  "map_get m k = (case map_of m k of None \<Rightarrow> [] | Some v \<Rightarrow> v)"

record ObjectKey =
  key_Namespace :: string
  key_Name :: string

subsection \<open>Conditions\<close>

datatype ConditionStatus = ConditionTrue | ConditionFalse | ConditionUnknown

datatype ConditionSeverity = SeverityError | SeverityWarning | SeverityInfo | SeverityNone

type_synonym ConditionType = string

record Condition =
  c_Type :: ConditionType
  c_Status :: ConditionStatus
  c_Severity :: ConditionSeverity
  c_Reason :: string
  c_Message :: string

type_synonym Conditions = "Condition list"

definition find_condition :: "ConditionType \<Rightarrow> Conditions \<Rightarrow> Condition option" where
  "find_condition t cs = find (\<lambda>c. c_Type c = t) cs"

text \<open>Condition types and reasons of \<open>api/v1beta1/conditions.go\<close>.\<close>

definition MachinesReadyCondition :: ConditionType where
  "MachinesReadyCondition = ''MachinesReady''"

definition MachinesBootstrapped :: ConditionType where
  "MachinesBootstrapped = ''MachinesBootstrapped''"

definition WaitingForMachinesReason :: string where
  "WaitingForMachinesReason = ''WaitingForMachines''"

definition AvailableCondition :: ConditionType where
  "AvailableCondition = ''Available''"

definition WaitingForMicroK8sBootReason :: string where
  "WaitingForMicroK8sBootReason = ''WaitingForMicroK8sBoot''"

definition InvalidControlPlaneConfigReason :: string where
  "InvalidControlPlaneConfigReason = ''InvalidControlPlaneConfig''"

definition ResizedCondition :: ConditionType where
  "ResizedCondition = ''Resized''"

definition ScalingUpReason :: string where
  "ScalingUpReason = ''ScalingUp''"

definition ScalingDownReason :: string where
  "ScalingDownReason = ''ScalingDown''"

definition ControlPlaneComponentsHealthyCondition :: ConditionType where
  "ControlPlaneComponentsHealthyCondition = ''ControlPlaneComponentsHealthy''"

definition ControlPlaneComponentsUnhealthyReason :: string where
  "ControlPlaneComponentsUnhealthyReason = ''ControlPlaneComponentsUnhealthy''"

definition ControlPlaneComponentsInspectionFailedReason :: string where
  "ControlPlaneComponentsInspectionFailedReason = ''ControlPlaneComponentsInspectionFailed''"

definition EtcdClusterHealthyCondition :: ConditionType where
  "EtcdClusterHealthyCondition = ''EtcdClusterHealthyCondition''"

definition EtcdClusterUnhealthyReason :: string where
  "EtcdClusterUnhealthyReason = ''EtcdClusterUnhealthy''"

definition MachinesCreatedCondition :: ConditionType where
  "MachinesCreatedCondition = ''MachinesCreated''"

definition InfrastructureTemplateCloningFailedReason :: string where
  "InfrastructureTemplateCloningFailedReason = ''InfrastructureTemplateCloningFailed''"

definition BootstrapTemplateCloningFailedReason :: string where
  "BootstrapTemplateCloningFailedReason = ''BootstrapTemplateCloningFailed''"

definition MachineGenerationFailedReason :: string where
  "MachineGenerationFailedReason = ''MachineGenerationFailed''"

lemmas condition_type_defs =
  MachinesReadyCondition_def MachinesBootstrapped_def AvailableCondition_def
  ResizedCondition_def ControlPlaneComponentsHealthyCondition_def MachinesCreatedCondition_def

lemmas condition_reason_defs =
  WaitingForMachinesReason_def WaitingForMicroK8sBootReason_def ScalingUpReason_def
  ScalingDownReason_def ControlPlaneComponentsUnhealthyReason_def
  ControlPlaneComponentsInspectionFailedReason_def
  InfrastructureTemplateCloningFailedReason_def BootstrapTemplateCloningFailedReason_def
  MachineGenerationFailedReason_def

subsection \<open>MicroK8sControlPlane\<close>

type_synonym UpgradeStrategyType = string

definition SmartUpgradeStrategyType :: UpgradeStrategyType where
  "SmartUpgradeStrategyType = ''SmartUpgrade''"

definition InPlaceUpgradeStrategyType :: UpgradeStrategyType where
  "InPlaceUpgradeStrategyType = ''InPlaceUpgrade''"

definition RollingUpgradeStrategyType :: UpgradeStrategyType where
  "RollingUpgradeStrategyType = ''RollingUpgrade''"

lemmas upgrade_strategy_defs =
  SmartUpgradeStrategyType_def InPlaceUpgradeStrategyType_def RollingUpgradeStrategyType_def

definition MicroK8sControlPlaneFinalizer :: string where
  "MicroK8sControlPlaneFinalizer = ''microk8s.controlplane.cluster.x-k8s.io''"

text \<open>The group and version of the API, \<open>groupversion_info.go\<close>.\<close>

definition GroupVersion :: "string \<times> string" where
  "GroupVersion = (''controlplane.cluster.x-k8s.io'', ''v1beta1'')"

text \<open>
  The specification of the bootstrap configuration belongs to the bootstrap provider; this
  program copies it unchanged, so it is carried in serialised form.
\<close>

datatype MicroK8sConfigSpec = MicroK8sConfigSpec string

record MicroK8sControlPlaneSpec =
  sp_Replicas :: "int32 option"
  sp_Version :: string
  sp_InfrastructureTemplate :: ObjectReference
  sp_UpgradeStrategy :: UpgradeStrategyType
  sp_ControlPlaneConfig :: MicroK8sConfigSpec

record MicroK8sControlPlaneStatus =
  st_Selector :: string
  st_Replicas :: int32
  st_ReadyReplicas :: int32
  st_UnavailableReplicas :: int32
  st_Initialized :: bool
  st_Ready :: bool
  st_Bootstrapped :: bool
  st_ObservedGeneration :: "64 word"
  st_Conditions :: Conditions

record MicroK8sControlPlane =
  mcp_Meta :: ObjectMeta
  mcp_Spec :: MicroK8sControlPlaneSpec
  mcp_Status :: MicroK8sControlPlaneStatus

definition GetConditions :: "MicroK8sControlPlane \<Rightarrow> Conditions" where
  "GetConditions m = st_Conditions (mcp_Status m)"

definition SetConditions :: "Conditions \<Rightarrow> MicroK8sControlPlane \<Rightarrow> MicroK8sControlPlane" where
  "SetConditions cs m = m\<lparr>mcp_Status := (mcp_Status m)\<lparr>st_Conditions := cs\<rparr>\<rparr>"

lemma SetConditions_sel [simp]:
  "mcp_Meta (SetConditions cs m) = mcp_Meta m"
  "mcp_Spec (SetConditions cs m) = mcp_Spec m"
  "GetConditions (SetConditions cs m) = cs"
  "st_Bootstrapped (mcp_Status (SetConditions cs m)) = st_Bootstrapped (mcp_Status m)"
  by (simp_all add: SetConditions_def GetConditions_def)

subsection \<open>Cluster API and Kubernetes objects\<close>

record APIEndpoint =
  ep_Host :: string
  ep_Port :: int32

record Cluster =
  cl_Meta :: ObjectMeta
  cl_Paused :: bool
  cl_ControlPlaneEndpoint :: APIEndpoint
  cl_ControlPlaneRef :: "ObjectReference option"
  cl_InfrastructureReady :: bool
  cl_FailureDomains :: "(string \<times> labels) list option"
  cl_Conditions :: Conditions

record Machine =
  m_Meta :: ObjectMeta
  m_ClusterName :: string
  m_Version :: "string option"
  m_InfrastructureRef :: ObjectReference
  m_BootstrapConfigRef :: "ObjectReference option"
  m_FailureDomain :: "string option"
  m_ProviderID :: "string option"
  m_NodeRef :: "ObjectReference option"
  m_Addresses :: "(string \<times> string) list"
  m_Conditions :: Conditions

record Node =
  n_Meta :: ObjectMeta
  n_ProviderID :: string
  n_KubeletVersion :: string
  n_Addresses :: "(string \<times> string) list"
  n_Conditions :: "(string \<times> string) list"

record Secret =
  sec_Meta :: ObjectMeta
  sec_Data :: "(string \<times> bytes) list"

record MicroK8sConfig =
  cfg_Meta :: ObjectMeta
  cfg_Spec :: MicroK8sConfigSpec

record VolumeMount =
  vm_Name :: string
  vm_MountPath :: string

record Volume =
  vol_Name :: string
  vol_HostPath :: string

record Container =
  ct_Name :: string
  ct_Image :: string
  ct_Command :: "string list"
  ct_Privileged :: bool
  ct_RunAsUser :: int
  ct_Args :: "string list"
  ct_VolumeMounts :: "VolumeMount list"

record Pod =
  pod_Meta :: ObjectMeta
  pod_NodeName :: string
  pod_Containers :: "Container list"
  pod_Volumes :: "Volume list"

text \<open>An unstructured object of another provider: its owner references, and the rest.\<close>

record External =
  ext_OwnerReferences :: "OwnerReference list"
  ext_Rest :: string

record CloneTemplateInput =
  cti_TemplateRef :: ObjectReference
  cti_Namespace :: string
  cti_OwnerRef :: OwnerReference
  cti_ClusterName :: string
  cti_Labels :: labels

subsection \<open>Results of a reconciliation\<close>

record Result =
  Requeue :: bool
  RequeueAfter :: duration

definition no_requeue :: Result where
  "no_requeue = \<lparr>Requeue = False, RequeueAfter = 0\<rparr>"

definition requeue_now :: Result where
  "requeue_now = \<lparr>Requeue = True, RequeueAfter = 0\<rparr>"

definition requeue_after :: "duration \<Rightarrow> Result" where
  "requeue_after d = \<lparr>Requeue = False, RequeueAfter = d\<rparr>"

lemma result_sel [simp]:
  "Requeue no_requeue = False" "RequeueAfter no_requeue = 0"
  "Requeue requeue_now = True" "RequeueAfter requeue_now = 0"
  "Requeue (requeue_after d) = False" "RequeueAfter (requeue_after d) = d"
  by (simp_all add: no_requeue_def requeue_now_def requeue_after_def)

text \<open>What a Go function of type \<open>(ctrl.Result, error)\<close> returns.\<close>

type_synonym reply = "Result \<times> error option"

end
