(* ===== verification/Environment.thy ===== *)
theory Environment
  imports API_Types
begin

text \<open>
  Everything the controller calls that is not part of the repository: the clients of the
  management and of the workload cluster, the Cluster API utilities, and the cryptographic
  library. It is one record of functions, a parameter of every model function. A call that
  reaches outside the process reads and changes a world of an arbitrary type \<open>'w\<close>, in which
  the API servers, other controllers, the clock and the sources of randomness live; nothing is
  assumed of it here, so every response and every failure is possible at every call.
\<close>

subsection \<open>Handles and opaque library values\<close>

datatype rest_config = RestConfig bytes

type_synonym dialer = nat
type_synonym clientset = nat

text \<open>\<open>kubernetesClient\<close> of \<open>configs.go\<close>: a client set and the dialer it was built with.\<close>

record kubernetesClient =
  kc_Clientset :: clientset
  kc_dialer :: dialer

record PemBlock =
  pem_Type :: string
  pem_Bytes :: bytes

datatype certificate = Certificate bytes
datatype private_key = PrivateKey nat

record CertTemplate =
  crt_SerialNumber :: int
  crt_Organization :: "string list"
  crt_Country :: "string list"
  crt_Province :: "string list"
  crt_Locality :: "string list"
  crt_StreetAddress :: "string list"
  crt_CommonName :: string
  crt_NotBefore :: time
  crt_NotAfter :: time
  crt_SubjectKeyId :: "int list"
  crt_ExtKeyUsage :: "string list"
  crt_KeyUsage :: string

datatype patch_option =
    WithStatusObservedGeneration
  | WithOwnedConditions "ConditionType list"

subsection \<open>The management cluster\<close>

record 'w mgmt_api =
  APIReader_Get_mcp :: "ObjectKey \<Rightarrow> 'w \<Rightarrow> (error + MicroK8sControlPlane) \<times> 'w"
  util_GetOwnerCluster :: "ObjectMeta \<Rightarrow> 'w \<Rightarrow> (error + Cluster option) \<times> 'w"
  Client_List_machines :: "string \<Rightarrow> labels \<Rightarrow> 'w \<Rightarrow> (error + Machine list) \<times> 'w"
  Client_Get_machine :: "ObjectKey \<Rightarrow> 'w \<Rightarrow> (error option \<times> Machine) \<times> 'w"
  Client_Create_machine :: "Machine \<Rightarrow> 'w \<Rightarrow> error option \<times> 'w"
  Client_Update_machine :: "Machine \<Rightarrow> 'w \<Rightarrow> error option \<times> 'w"
  Client_Delete_machine :: "Machine \<Rightarrow> 'w \<Rightarrow> error option \<times> 'w"
  Client_Create_config :: "MicroK8sConfig \<Rightarrow> 'w \<Rightarrow> (error + MicroK8sConfig) \<times> 'w"
  Client_List_secrets :: "'w \<Rightarrow> (error + Secret list) \<times> 'w"
  Client_Get_secret :: "ObjectKey \<Rightarrow> 'w \<Rightarrow> (error + Secret) \<times> 'w"
  Client_Create_secret :: "Secret \<Rightarrow> 'w \<Rightarrow> error option \<times> 'w"
  Client_Delete_secret :: "Secret \<Rightarrow> 'w \<Rightarrow> error option \<times> 'w"
  Client_Get_cluster :: "ObjectKey \<Rightarrow> 'w \<Rightarrow> (error + Cluster) \<times> 'w"
  Client_Update_mcp :: "MicroK8sControlPlane \<Rightarrow> 'w \<Rightarrow> (error option \<times> MicroK8sControlPlane) \<times> 'w"
  patch_NewHelper_mcp :: "MicroK8sControlPlane \<Rightarrow> 'w \<Rightarrow> error option \<times> 'w"
  patch_Patch_mcp :: "MicroK8sControlPlane \<Rightarrow> MicroK8sControlPlane \<Rightarrow> patch_option list \<Rightarrow> 'w
    \<Rightarrow> error option \<times> 'w"
  patch_NewHelper_external :: "External \<Rightarrow> 'w \<Rightarrow> error option \<times> 'w"
  patch_Patch_external :: "External \<Rightarrow> External \<Rightarrow> 'w \<Rightarrow> error option \<times> 'w"
  external_Get :: "ObjectReference \<Rightarrow> string \<Rightarrow> 'w \<Rightarrow> (error + External) \<times> 'w"
  external_CloneTemplate :: "CloneTemplateInput \<Rightarrow> 'w \<Rightarrow> (error + ObjectReference) \<times> 'w"
  names_GenerateName :: "string \<Rightarrow> 'w \<Rightarrow> string \<times> 'w"

subsection \<open>The workload cluster, the clock and randomness\<close>

text \<open>
  \<open>range_map\<close> is the order in which Go ranges over the keys of a map, \<open>rand_Intn\<close> the
  generator of \<open>math/rand\<close>: both are chosen by the run time anew at each use.
\<close>

record 'w workload_api = "'w mgmt_api" +
  clientcmd_RESTConfigFromKubeConfig :: "bytes \<Rightarrow> error + rest_config"
  connrotation_NewDialer :: "'w \<Rightarrow> dialer \<times> 'w"
  kubernetes_NewForConfig :: "rest_config \<Rightarrow> dialer \<Rightarrow> 'w \<Rightarrow> (error + clientset) \<times> 'w"
  dialer_CloseAll :: "dialer \<Rightarrow> 'w \<Rightarrow> unit \<times> 'w"
  Nodes_Get :: "clientset \<Rightarrow> string \<Rightarrow> 'w \<Rightarrow> (error + Node) \<times> 'w"
  Nodes_List :: "clientset \<Rightarrow> string \<Rightarrow> 'w \<Rightarrow> (error + Node list) \<times> 'w"
  Nodes_Update :: "clientset \<Rightarrow> Node \<Rightarrow> 'w \<Rightarrow> error option \<times> 'w"
  Nodes_Delete :: "clientset \<Rightarrow> string \<Rightarrow> 'w \<Rightarrow> error option \<times> 'w"
  Pods_Create :: "clientset \<Rightarrow> string \<Rightarrow> Pod \<Rightarrow> 'w \<Rightarrow> (error + Pod) \<times> 'w"
  Pods_Delete :: "clientset \<Rightarrow> string \<Rightarrow> string \<Rightarrow> int \<Rightarrow> 'w \<Rightarrow> error option \<times> 'w"
  time_Sleep :: "duration \<Rightarrow> 'w \<Rightarrow> unit \<times> 'w"
  time_Now :: "'w \<Rightarrow> time \<times> 'w"
  range_map :: "string list \<Rightarrow> 'w \<Rightarrow> string list \<times> 'w"
  rand_Intn :: "nat \<Rightarrow> 'w \<Rightarrow> nat \<times> 'w"

subsection \<open>Cryptography\<close>

record 'w crypto_api = "'w workload_api" +
  pem_Decode :: "bytes \<Rightarrow> PemBlock option"
  pem_Encode :: "PemBlock \<Rightarrow> error + bytes"
  x509_ParseCertificate :: "bytes \<Rightarrow> error + certificate"
  x509_ParsePKCS1PrivateKey :: "bytes \<Rightarrow> error + private_key"
  x509_MarshalPKCS1PrivateKey :: "private_key \<Rightarrow> bytes"
  rsa_GenerateKey :: "nat \<Rightarrow> 'w \<Rightarrow> (error + private_key) \<times> 'w"
  x509_CreateCertificate :: "CertTemplate \<Rightarrow> certificate \<Rightarrow> private_key \<Rightarrow> private_key \<Rightarrow> 'w
    \<Rightarrow> (error + bytes) \<times> 'w"
  time_AddDate :: "int \<Rightarrow> int \<Rightarrow> int \<Rightarrow> time \<Rightarrow> time"

subsection \<open>Utilities without effects\<close>

text \<open>
  The functions of \<open>conditions\<close> act on the list of conditions of the object they are given;
  the time of the last transition is not part of \<open>Condition\<close>, since no source reads it.
  \<open>conditions_MarkFalse\<close> takes a format and its integer arguments, as the source passes them.
\<close>

record 'w env = "'w crypto_api" +
  clusterv1_ClusterLabelName :: string
  clusterv1_MachineControlPlaneLabelName :: string
  clusterv1_GroupVersion_String :: string
  clusterv1_ReadyCondition :: ConditionType
  clusterv1_ControlPlaneInitializedCondition :: ConditionType
  clusterv1_DeletingReason :: string
  clusterv1_MachineInternalIP :: string
  bootstrapv1beta1_GroupVersion_String :: string
  schema_GroupVersion_String :: "string \<times> string \<Rightarrow> string"
  metav1_NewControllerRef :: "ObjectMeta \<Rightarrow> string \<times> string \<Rightarrow> string \<Rightarrow> OwnerReference"
  apierrors_IsNotFound :: "error \<Rightarrow> bool"
  foreign_Error_text :: "error \<Rightarrow> string"
  kerrors_NewAggregate :: "error option list \<Rightarrow> error option"
  endpoint_IsValid :: "APIEndpoint \<Rightarrow> bool"
  annotations_IsPaused :: "Cluster \<Rightarrow> MicroK8sControlPlane \<Rightarrow> bool"
  controllerutil_ContainsFinalizer :: "ObjectMeta \<Rightarrow> string \<Rightarrow> bool"
  controllerutil_AddFinalizer :: "ObjectMeta \<Rightarrow> string \<Rightarrow> ObjectMeta"
  controllerutil_RemoveFinalizer :: "ObjectMeta \<Rightarrow> string \<Rightarrow> ObjectMeta"
  util_EnsureOwnerRef :: "OwnerReference list \<Rightarrow> OwnerReference \<Rightarrow> OwnerReference list"
  util_IsNodeReady :: "Node \<Rightarrow> bool"
  util_LowestNonZeroResult :: "Result \<Rightarrow> Result \<Rightarrow> Result"
  semver_MajorMinor :: "string \<Rightarrow> string"
  semver_Compare :: "string \<Rightarrow> string \<Rightarrow> int"
  label_selector_String :: "labels \<Rightarrow> error + string"
  exists_selector_String :: "string \<Rightarrow> error + string"
  conditions_Has :: "ConditionType \<Rightarrow> Conditions \<Rightarrow> bool"
  conditions_MarkTrue :: "ConditionType \<Rightarrow> Conditions \<Rightarrow> Conditions"
  conditions_MarkFalse :: "ConditionType \<Rightarrow> string \<Rightarrow> ConditionSeverity \<Rightarrow> string \<Rightarrow> int list
    \<Rightarrow> Conditions \<Rightarrow> Conditions"
  conditions_SetAggregate :: "ConditionType \<Rightarrow> Machine list \<Rightarrow> Conditions \<Rightarrow> Conditions"
  conditions_SetSummary :: "ConditionType list \<Rightarrow> Conditions \<Rightarrow> Conditions"
  sort_pdqsort :: "Machine list \<Rightarrow> Machine list"

text \<open>The text of an error in this environment.\<close>

definition Error :: "'w env \<Rightarrow> error \<Rightarrow> string" where
  "Error E e = Error_text (foreign_Error_text E) e"

end
