(* ===== verification/Calls.thy ===== *)
theory Calls
  imports Environment
begin

text \<open>
  The state a reconciliation runs on, the external calls it can issue, and the accessors for the
  one \<open>MicroK8sControlPlane\<close> and the one \<open>Cluster\<close> object that \<open>Reconcile\<close> passes by
  pointer to every function it calls.
\<close>

subsection \<open>External calls as events\<close>

datatype object =
    OMachine Machine
  | OSecret Secret
  | OConfig MicroK8sConfig
  | OMCP MicroK8sControlPlane
  | OCluster Cluster
  | OExternal External
  | ONode Node
  | OPod Pod

text \<open>
  One event per call that reaches an API server or suspends the process, with the error it
  returned (\<open>None\<close> for a nil error). The first group goes to the management cluster, the second to
  the workload cluster. Reads are recorded by the name of the call.
\<close>

datatype event =
    Read string
  | Created object "error option"
  | Updated object "error option"
  | Deleted object "error option"
  | Patched object object "error option"
  | Cloned CloneTemplateInput "error option"
  | Connected kubernetesClient
  | Closed kubernetesClient
  | WorkloadRead string
  | WorkloadCreated object "error option"
  | WorkloadUpdated object "error option"
  | NodeDeleted string "error option"
  | PodDeleted string "error option"
  | Slept duration

definition err_of :: "error + 'a \<Rightarrow> error option" where
  "err_of r = (case r of Inl e \<Rightarrow> Some e | Inr _ \<Rightarrow> None)"

lemma err_of_simps [simp]: "err_of (Inl e) = Some e" "err_of (Inr x) = None"
  by (simp_all add: err_of_def)

text \<open>Kinds of events the properties speak about.\<close>

fun creates_machine :: "event \<Rightarrow> bool" where
  "creates_machine (Created (OMachine m) r) = True"
| "creates_machine _ = False"

fun updates_machine :: "event \<Rightarrow> bool" where
  "updates_machine (Updated (OMachine m) r) = True"
| "updates_machine _ = False"

fun deletes_machine :: "event \<Rightarrow> bool" where
  "deletes_machine (Deleted (OMachine m) r) = True"
| "deletes_machine _ = False"

fun deletes_node :: "event \<Rightarrow> bool" where
  "deletes_node (NodeDeleted n r) = True"
| "deletes_node _ = False"

fun connects :: "event \<Rightarrow> bool" where
  "connects (Connected kc) = True"
| "connects _ = False"

fun closes :: "event \<Rightarrow> bool" where
  "closes (Closed kc) = True"
| "closes _ = False"

fun touches_workload :: "event \<Rightarrow> bool" where
  "touches_workload (Connected kc) = True"
| "touches_workload (WorkloadRead c) = True"
| "touches_workload (WorkloadCreated b r) = True"
| "touches_workload (WorkloadUpdated b r) = True"
| "touches_workload (NodeDeleted n r) = True"
| "touches_workload (PodDeleted n r) = True"
| "touches_workload _ = False"

text \<open>Calls that only read, close a connection or wait.\<close>

fun observes :: "event \<Rightarrow> bool" where
  "observes (Read c) = True"
| "observes (WorkloadRead c) = True"
| "observes (Connected kc) = True"
| "observes (Closed kc) = True"
| "observes (Slept d) = True"
| "observes _ = False"

text \<open>Calls that leave every machine, node, pod, control plane and cluster object alone.\<close>

fun secret_only :: "event \<Rightarrow> bool" where
  "secret_only (Created (OSecret x) r) = True"
| "secret_only e = observes e"

text \<open>The clients acquired and released by a list of calls.\<close>

definition opened :: "event list \<Rightarrow> kubernetesClient list" where
  "opened es = concat (map (\<lambda>e. case e of Connected kc \<Rightarrow> [kc] | _ \<Rightarrow> []) es)"

definition closed :: "event list \<Rightarrow> kubernetesClient list" where
  "closed es = concat (map (\<lambda>e. case e of Closed kc \<Rightarrow> [kc] | _ \<Rightarrow> []) es)"

lemma opened_simps [simp]:
  "opened [] = []" "opened (es @ es') = opened es @ opened es'"
  "opened (e # es) = (case e of Connected kc \<Rightarrow> [kc] | _ \<Rightarrow> []) @ opened es"
  by (simp_all add: opened_def)

lemma closed_simps [simp]:
  "closed [] = []" "closed (es @ es') = closed es @ closed es'"
  "closed (e # es) = (case e of Closed kc \<Rightarrow> [kc] | _ \<Rightarrow> []) @ closed es"
  by (simp_all add: closed_def)

subsection \<open>The state\<close>

record 'w st = "event traced" +
  world :: 'w
  mcp :: MicroK8sControlPlane
  cluster :: Cluster

definition call :: "('w \<Rightarrow> 'r \<times> 'w) \<Rightarrow> ('r \<Rightarrow> event list) \<Rightarrow> ('w st, 'r) state" where
  "call f ev =
     State (\<lambda>s. case f (world s) of (r, w) \<Rightarrow> (r, s\<lparr>trace := trace s @ ev r, world := w\<rparr>))"

lemma run_state_call [simp]:
  "run_state (call f ev) s =
     (case f (world s) of (r, w) \<Rightarrow> (r, s\<lparr>trace := trace s @ ev r, world := w\<rparr>))"
  by (simp add: call_def)

text \<open>The state after some calls: the trace has grown by \<open>es\<close> and the world is \<open>w\<close>.\<close>

definition advance :: "'w st \<Rightarrow> event list \<Rightarrow> 'w \<Rightarrow> 'w st" where
  "advance s es w = s\<lparr>trace := trace s @ es, world := w\<rparr>"

lemma advance_sel [simp]:
  "trace (advance s es w) = trace s @ es"
  "world (advance s es w) = w"
  "mcp (advance s es w) = mcp s"
  "cluster (advance s es w) = cluster s"
  "advance (advance s es w) es' w' = advance s (es @ es') w'"
  "advance s [] (world s) = s"
  by (simp_all add: advance_def)

lemma wp_call [wp]:
  assumes "\<And>r w. f (world s) = (r, w) \<Longrightarrow> Q r (ev r) (advance s (ev r) w)"
  shows "wp (call f ev) Q s"
  using assms by (auto simp: wp_def result_def final_def advance_def split: prod.splits)

lemma wp_modify_mcp [wp]: "Q () [] (mcp_update f s) \<Longrightarrow> wp (modify (mcp_update f)) Q s"
  by (rule wp_modify) simp_all

lemma wp_modify_cluster [wp]:
  "Q () [] (cluster_update f s) \<Longrightarrow> wp (modify (cluster_update f)) Q s"
  by (rule wp_modify) simp_all

subsection \<open>The calls\<close>

abbreviation get_owner_cluster where
  "get_owner_cluster E meta \<equiv> call (util_GetOwnerCluster E meta) (\<lambda>_. [Read ''GetOwnerCluster''])"

abbreviation get_mcp where
  "get_mcp E key \<equiv> call (APIReader_Get_mcp E key) (\<lambda>_. [Read ''Get MicroK8sControlPlane''])"

abbreviation list_machines where
  "list_machines E ns sel \<equiv> call (Client_List_machines E ns sel) (\<lambda>_. [Read ''List Machines''])"

abbreviation get_machine where
  "get_machine E key \<equiv> call (Client_Get_machine E key) (\<lambda>_. [Read ''Get Machine''])"

abbreviation create_machine where
  "create_machine E m \<equiv> call (Client_Create_machine E m) (\<lambda>r. [Created (OMachine m) r])"

abbreviation update_machine where
  "update_machine E m \<equiv> call (Client_Update_machine E m) (\<lambda>r. [Updated (OMachine m) r])"

abbreviation delete_machine where
  "delete_machine E m \<equiv> call (Client_Delete_machine E m) (\<lambda>r. [Deleted (OMachine m) r])"

abbreviation create_config where
  "create_config E c \<equiv> call (Client_Create_config E c) (\<lambda>r. [Created (OConfig c) (err_of r)])"

abbreviation list_secrets where
  "list_secrets E \<equiv> call (Client_List_secrets E) (\<lambda>_. [Read ''List Secrets''])"

abbreviation get_secret where
  "get_secret E key \<equiv> call (Client_Get_secret E key) (\<lambda>_. [Read ''Get Secret''])"

abbreviation create_secret where
  "create_secret E x \<equiv> call (Client_Create_secret E x) (\<lambda>r. [Created (OSecret x) r])"

abbreviation delete_secret where
  "delete_secret E x \<equiv> call (Client_Delete_secret E x) (\<lambda>r. [Deleted (OSecret x) r])"

abbreviation get_cluster where
  "get_cluster E key \<equiv> call (Client_Get_cluster E key) (\<lambda>_. [Read ''Get Cluster''])"

abbreviation update_mcp where
  "update_mcp E m \<equiv> call (Client_Update_mcp E m) (\<lambda>r. [Updated (OMCP m) (fst r)])"

abbreviation new_patch_helper where
  "new_patch_helper E m \<equiv> call (patch_NewHelper_mcp E m) (\<lambda>_. [])"

abbreviation patch_mcp where
  "patch_mcp E before after opts \<equiv>
     call (patch_Patch_mcp E before after opts) (\<lambda>r. [Patched (OMCP before) (OMCP after) r])"

abbreviation new_external_patch_helper where
  "new_external_patch_helper E x \<equiv> call (patch_NewHelper_external E x) (\<lambda>_. [])"

abbreviation patch_external where
  "patch_external E before after \<equiv>
     call (patch_Patch_external E before after)
       (\<lambda>r. [Patched (OExternal before) (OExternal after) r])"

abbreviation get_external where
  "get_external E ref ns \<equiv> call (external_Get E ref ns) (\<lambda>_. [Read ''Get external object''])"

abbreviation clone_template where
  "clone_template E i \<equiv> call (external_CloneTemplate E i) (\<lambda>r. [Cloned i (err_of r)])"

abbreviation generate_name where
  "generate_name E base \<equiv> call (names_GenerateName E base) (\<lambda>_. [])"

abbreviation new_dialer where
  "new_dialer E \<equiv> call (connrotation_NewDialer E) (\<lambda>_. [])"

abbreviation new_for_config where
  "new_for_config E cfg d \<equiv>
     call (kubernetes_NewForConfig E cfg d)
       (\<lambda>r. case r of Inl _ \<Rightarrow> [] | Inr cs \<Rightarrow> [Connected \<lparr>kc_Clientset = cs, kc_dialer = d\<rparr>])"

abbreviation close_all where
  "close_all E kc \<equiv> call (dialer_CloseAll E (kc_dialer kc)) (\<lambda>_. [Closed kc])"

abbreviation get_node where
  "get_node E kc n \<equiv> call (Nodes_Get E (kc_Clientset kc) n) (\<lambda>_. [WorkloadRead ''Get Node''])"

abbreviation list_nodes where
  "list_nodes E kc sel \<equiv>
     call (Nodes_List E (kc_Clientset kc) sel) (\<lambda>_. [WorkloadRead ''List Nodes''])"

abbreviation update_node where
  "update_node E kc n \<equiv>
     call (Nodes_Update E (kc_Clientset kc) n) (\<lambda>r. [WorkloadUpdated (ONode n) r])"

abbreviation delete_node where
  "delete_node E kc n \<equiv> call (Nodes_Delete E (kc_Clientset kc) n) (\<lambda>r. [NodeDeleted n r])"

abbreviation create_pod where
  "create_pod E kc ns p \<equiv>
     call (Pods_Create E (kc_Clientset kc) ns p) (\<lambda>r. [WorkloadCreated (OPod p) (err_of r)])"

abbreviation delete_pod where
  "delete_pod E kc ns n grace \<equiv>
     call (Pods_Delete E (kc_Clientset kc) ns n grace) (\<lambda>r. [PodDeleted n r])"

abbreviation sleep where
  "sleep E d \<equiv> call (time_Sleep E d) (\<lambda>_. [Slept d])"

abbreviation now where
  "now E \<equiv> call (time_Now E) (\<lambda>_. [])"

text \<open>
  Two operations of the run time. \<open>rand.Intn(n)\<close> returns some number below \<open>n\<close>, and
  ranging over a map visits its keys in some order: the environment proposes, and the result is
  forced into the range of what Go can do.
\<close>

definition Intn :: "'w env \<Rightarrow> nat \<Rightarrow> ('w st, nat) state" where
  "Intn E n = do { i \<leftarrow> call (rand_Intn E n) (\<lambda>_. []); return (i mod n) }"

definition range_keys :: "'w env \<Rightarrow> string list \<Rightarrow> ('w st, string list) state" where
  "range_keys E ks = do {
     p \<leftarrow> call (range_map E ks) (\<lambda>_. []);
     return (if length p = length ks \<and> set p = set ks then p else ks) }"

lemma wp_Intn [wp]:
  assumes "\<And>i w. (0 < n \<Longrightarrow> i < n) \<Longrightarrow> Q i [] (advance s [] w)"
  shows "wp (Intn E n) Q s"
  unfolding Intn_def using assms by (intro wp) simp

lemma wp_range_keys [wp]:
  assumes "\<And>p w. length p = length ks \<Longrightarrow> set p = set ks \<Longrightarrow> Q p [] (advance s [] w)"
  shows "wp (range_keys E ks) Q s"
  unfolding range_keys_def using assms by (intro wp) simp

subsection \<open>Conditions of the control plane object\<close>

definition with_conditions :: "(Conditions \<Rightarrow> Conditions) \<Rightarrow> 'w st \<Rightarrow> 'w st" where
  "with_conditions f s = mcp_update (\<lambda>m. SetConditions (f (GetConditions m)) m) s"

lemma with_conditions_sel [simp]:
  "mcp (with_conditions f s) = SetConditions (f (GetConditions (mcp s))) (mcp s)"
  "cluster (with_conditions f s) = cluster s"
  "world (with_conditions f s) = world s"
  "trace (with_conditions f s) = trace s"
  by (simp_all add: with_conditions_def)

definition MarkTrue :: "'w env \<Rightarrow> ConditionType \<Rightarrow> ('w st, unit) state" where
  "MarkTrue E t = modify (with_conditions (conditions_MarkTrue E t))"

definition MarkFalse ::
  "'w env \<Rightarrow> ConditionType \<Rightarrow> string \<Rightarrow> ConditionSeverity \<Rightarrow> string \<Rightarrow> int list \<Rightarrow> ('w st, unit) state"
where
  "MarkFalse E t reason sev fmt args =
     modify (with_conditions (conditions_MarkFalse E t reason sev fmt args))"

definition has_condition :: "'w env \<Rightarrow> ConditionType \<Rightarrow> ('w st, bool) state" where
  "has_condition E t = gets (\<lambda>s. conditions_Has E t (GetConditions (mcp s)))"

lemma run_state_conditions [simp]:
  "run_state (MarkTrue E t) s = ((), with_conditions (conditions_MarkTrue E t) s)"
  "run_state (MarkFalse E t reason sev fmt args) s =
     ((), with_conditions (conditions_MarkFalse E t reason sev fmt args) s)"
  "run_state (has_condition E t) s = (conditions_Has E t (GetConditions (mcp s)), s)"
  by (simp_all add: MarkTrue_def MarkFalse_def has_condition_def)

lemma wp_MarkTrue [wp]:
  "Q () [] (with_conditions (conditions_MarkTrue E t) s) \<Longrightarrow> wp (MarkTrue E t) Q s"
  unfolding MarkTrue_def by (rule wp_modify) simp_all

lemma wp_MarkFalse [wp]:
  "Q () [] (with_conditions (conditions_MarkFalse E t reason sev fmt args) s) \<Longrightarrow>
   wp (MarkFalse E t reason sev fmt args) Q s"
  unfolding MarkFalse_def by (rule wp_modify) simp_all

lemma wp_has_condition [wp]:
  "Q (conditions_Has E t (GetConditions (mcp s))) [] s \<Longrightarrow> wp (has_condition E t) Q s"
  unfolding has_condition_def by (rule wp_gets)

text \<open>
  The documented behaviour of the condition setters: after a call the condition of that type is
  as asked for, and the conditions of the other types are untouched.
\<close>

definition conditions_contract :: "'w env \<Rightarrow> bool" where
  "conditions_contract E \<longleftrightarrow>
     (\<forall>t cs. map_option c_Status (find_condition t (conditions_MarkTrue E t cs)) = Some ConditionTrue) \<and>
     (\<forall>t u cs. u \<noteq> t \<longrightarrow>
        find_condition u (conditions_MarkTrue E t cs) = find_condition u cs) \<and>
     (\<forall>t r sev f a cs.
        map_option (\<lambda>c. (c_Status c, c_Reason c, c_Severity c))
          (find_condition t (conditions_MarkFalse E t r sev f a cs)) = Some (ConditionFalse, r, sev)) \<and>
     (\<forall>t u r sev f a cs. u \<noteq> t \<longrightarrow>
        find_condition u (conditions_MarkFalse E t r sev f a cs) = find_condition u cs) \<and>
     (\<forall>t cs. conditions_Has E t cs \<longleftrightarrow> find_condition t cs \<noteq> None)"

lemma conditions_contractD:
  assumes "conditions_contract E"
  shows "map_option c_Status (find_condition t (conditions_MarkTrue E t cs)) = Some ConditionTrue"
    and "u \<noteq> t \<Longrightarrow> find_condition u (conditions_MarkTrue E t cs) = find_condition u cs"
    and "map_option (\<lambda>c. (c_Status c, c_Reason c, c_Severity c))
          (find_condition t (conditions_MarkFalse E t r sev f a cs)) = Some (ConditionFalse, r, sev)"
    and "u \<noteq> t \<Longrightarrow> find_condition u (conditions_MarkFalse E t r sev f a cs) = find_condition u cs"
    and "conditions_Has E t cs \<longleftrightarrow> find_condition t cs \<noteq> None"
proof -
  note c = assms [unfolded conditions_contract_def]
  show "map_option c_Status (find_condition t (conditions_MarkTrue E t cs)) = Some ConditionTrue"
    using c by (elim conjE) (erule allE, erule allE, assumption)
  show "find_condition u (conditions_MarkTrue E t cs) = find_condition u cs" if "u \<noteq> t"
    using c that by (elim conjE) simp
  show "map_option (\<lambda>c. (c_Status c, c_Reason c, c_Severity c))
      (find_condition t (conditions_MarkFalse E t r sev f a cs)) = Some (ConditionFalse, r, sev)"
    using c by (elim conjE) (simp del: option.map_sel)
  show "find_condition u (conditions_MarkFalse E t r sev f a cs) = find_condition u cs" if "u \<noteq> t"
    using c that by (elim conjE) simp
  show "conditions_Has E t cs \<longleftrightarrow> find_condition t cs \<noteq> None"
    using c by (elim conjE) (erule allE, erule allE, assumption)
qed

subsection \<open>What the functions leave alone\<close>

text \<open>Only the conditions of the control plane object change.\<close>

definition only_conditions :: "'w st \<Rightarrow> 'w st \<Rightarrow> bool" where
  "only_conditions s s' \<longleftrightarrow>
     cluster s' = cluster s \<and> (\<exists>cs. mcp s' = SetConditions cs (mcp s))"

lemma SetConditions_absorb [simp]:
  "SetConditions cs (SetConditions ds m) = SetConditions cs m"
  "SetConditions (GetConditions m) m = m"
  by (simp_all add: SetConditions_def GetConditions_def)

lemma only_conditions_refl [simp]: "only_conditions s s"
  unfolding only_conditions_def by (metis SetConditions_absorb(2))

lemma only_conditions_trans:
  "only_conditions s t \<Longrightarrow> only_conditions t u \<Longrightarrow> only_conditions s u"
  unfolding only_conditions_def by auto

lemma only_conditions_set [simp]:
  "only_conditions s (with_conditions f s') = only_conditions s s'"
  "only_conditions (with_conditions f s) s' = only_conditions s s'"
  unfolding only_conditions_def
  by (auto, metis SetConditions_absorb)

lemma only_conditions_frame [simp]:
  "only_conditions s (advance s' es w) = only_conditions s s'"
  "only_conditions (advance s es w) s' = only_conditions s s'"
  by (simp_all add: only_conditions_def)

lemma only_conditions_spec:
  "only_conditions s s' \<Longrightarrow> mcp_Spec (mcp s') = mcp_Spec (mcp s)"
  "only_conditions s s' \<Longrightarrow> mcp_Meta (mcp s') = mcp_Meta (mcp s)"
  "only_conditions s s' \<Longrightarrow> cluster s' = cluster s"
  by (auto simp: only_conditions_def)

text \<open>The control plane object keeps its identity and its specification, the cluster everything.\<close>

definition same_target :: "'w st \<Rightarrow> 'w st \<Rightarrow> bool" where
  "same_target s s' \<longleftrightarrow>
     cluster s' = cluster s \<and> mcp_Spec (mcp s') = mcp_Spec (mcp s) \<and> mcp_Meta (mcp s') = mcp_Meta (mcp s)"

lemma same_target_refl [simp]: "same_target s s"
  by (simp add: same_target_def)

lemma same_target_trans: "same_target s t \<Longrightarrow> same_target t u \<Longrightarrow> same_target s u"
  by (simp add: same_target_def)

lemma same_target_frame [simp]:
  "same_target s (advance s' es w) = same_target s s'"
  "same_target (advance s es w) s' = same_target s s'"
  "same_target s (with_conditions f s') = same_target s s'"
  "same_target (with_conditions f s) s' = same_target s s'"
  by (simp_all add: same_target_def)

lemma only_conditions_same_target: "only_conditions s s' \<Longrightarrow> same_target s s'"
  by (simp add: same_target_def only_conditions_spec)

lemma same_objects_same_target: "mcp s' = mcp s \<Longrightarrow> cluster s' = cluster s \<Longrightarrow> same_target s s'"
  by (simp add: same_target_def)

end
