(* ===== verification/Machine_Boot.thy ===== *)
theory Machine_Boot
  imports Calls
begin

text \<open>
  Listing the control plane machines (\<open>getControlPlaneMachinesForCluster\<close> of the controller file)
  and creating one more: \<open>bootControlPlane\<close>, \<open>getFailureDomain\<close> of \<open>reconcile.go\<close> and
  \<open>generateMicroK8sConfig\<close> of \<open>configs.go\<close>.
\<close>

definition ObjectKey_of :: "ObjectMeta \<Rightarrow> ObjectKey" where
  "ObjectKey_of m = \<lparr>key_Namespace = om_Namespace m, key_Name = om_Name m\<rparr>"

definition control_plane_labels :: "'w env \<Rightarrow> string \<Rightarrow> labels" where
  "control_plane_labels E cluster_name =
     [(clusterv1_ClusterLabelName E, cluster_name), (clusterv1_MachineControlPlaneLabelName E, [])]"

text \<open>The last argument, the name of the control plane, is ignored by the source as well.\<close>

definition getControlPlaneMachinesForCluster ::
  "'w env \<Rightarrow> ObjectKey \<Rightarrow> string \<Rightarrow> ('w st, error + Machine list) state" where
  "getControlPlaneMachinesForCluster E c cpName =
     list_machines E (key_Namespace c) (control_plane_labels E (key_Name c))"

definition getFailureDomain :: "'w env \<Rightarrow> ('w st, string list) state" where
  "getFailureDomain E = do {
     domains \<leftarrow> gets (\<lambda>s. cl_FailureDomains (cluster s));
     case domains of
       None \<Rightarrow> return []
     | Some m \<Rightarrow> range_keys E (map fst m) }"

text \<open>The reference to a bootstrap configuration, as its creation returned it.\<close>

definition config_ref :: "'w env \<Rightarrow> MicroK8sConfig \<Rightarrow> ObjectReference" where
  "config_ref E config =
     \<lparr>ref_APIVersion = bootstrapv1beta1_GroupVersion_String E,
      ref_Kind = ''MicroK8sConfig'',
      ref_Name = om_Name (cfg_Meta config),
      ref_Namespace = om_Namespace (cfg_Meta config),
      ref_UID = om_UID (cfg_Meta config)\<rparr>"

definition generateMicroK8sConfig ::
  "'w env \<Rightarrow> MicroK8sConfigSpec \<Rightarrow> ('w st, error + ObjectReference) state" where
  "generateMicroK8sConfig E spec = do {
     tcp \<leftarrow> gets mcp;
     name \<leftarrow> generate_name E (om_Name (mcp_Meta tcp) @ ''-'');
     r \<leftarrow> create_config E
       \<lparr>cfg_Meta = empty_meta\<lparr>
          om_Name := name,
          om_Namespace := om_Namespace (mcp_Meta tcp),
          om_OwnerReferences :=
            [\<lparr>or_APIVersion = schema_GroupVersion_String E GroupVersion,
              or_Kind = ''MicroK8sControlPlane'',
              or_Name = om_Name (mcp_Meta tcp),
              or_UID = om_UID (mcp_Meta tcp),
              or_Controller = None,
              or_BlockOwnerDeletion = Some True\<rparr>]\<rparr>,
        cfg_Spec = spec\<rparr>;
     case r of
       Inl err \<Rightarrow> return (Inl (Wrapped err ''Failed to create bootstrap configuration''))
     | Inr config \<Rightarrow> return (Inr (config_ref E config)) }"

definition infra_clone_input :: "'w env \<Rightarrow> MicroK8sControlPlane \<Rightarrow> Cluster \<Rightarrow> CloneTemplateInput" where
  "infra_clone_input E m c =
     \<lparr>cti_TemplateRef = sp_InfrastructureTemplate (mcp_Spec m),
      cti_Namespace = om_Namespace (mcp_Meta m),
      cti_OwnerRef =
        \<lparr>or_APIVersion = schema_GroupVersion_String E GroupVersion,
         or_Kind = ''MicroK8sControlPlane'',
         or_Name = om_Name (mcp_Meta m),
         or_UID = om_UID (mcp_Meta m),
         or_Controller = None,
         or_BlockOwnerDeletion = None\<rparr>,
      cti_ClusterName = om_Name (cl_Meta c),
      cti_Labels = control_plane_labels E (om_Name (cl_Meta c))\<rparr>"

definition new_machine ::
  "'w env \<Rightarrow> MicroK8sControlPlane \<Rightarrow> Cluster \<Rightarrow> string \<Rightarrow> ObjectReference \<Rightarrow> ObjectReference
   \<Rightarrow> string option \<Rightarrow> Machine" where
  "new_machine E m c name infraRef bootstrapRef failureDomain =
     \<lparr>m_Meta = empty_meta\<lparr>
        om_Name := name,
        om_Namespace := om_Namespace (mcp_Meta m),
        om_Labels := control_plane_labels E (om_Name (cl_Meta c)),
        om_OwnerReferences :=
          [metav1_NewControllerRef E (mcp_Meta m) GroupVersion ''MicroK8sControlPlane'']\<rparr>,
      m_ClusterName = om_Name (cl_Meta c),
      m_Version = Some (sp_Version (mcp_Spec m)),
      m_InfrastructureRef = infraRef,
      m_BootstrapConfigRef = Some bootstrapRef,
      m_FailureDomain = failureDomain,
      m_ProviderID = None,
      m_NodeRef = None,
      m_Addresses = [],
      m_Conditions = []\<rparr>"

text \<open>The argument \<open>first\<close> is not used by the source either: init and join boot alike.\<close>

definition bootControlPlane :: "'w env \<Rightarrow> bool \<Rightarrow> ('w st, reply) state" where
  "bootControlPlane E first = do {
     m \<leftarrow> gets mcp;
     c \<leftarrow> gets cluster;
     infra \<leftarrow> clone_template E (infra_clone_input E m c);
     case infra of
       Inl err \<Rightarrow> do {
         MarkFalse E MachinesCreatedCondition InfrastructureTemplateCloningFailedReason
           SeverityError (Error E err) [];
         return (no_requeue, Some err) }
     | Inr infraRef \<Rightarrow> do {
         bootstrap \<leftarrow> generateMicroK8sConfig E (sp_ControlPlaneConfig (mcp_Spec m));
         case bootstrap of
           Inl err \<Rightarrow> do {
             MarkFalse E MachinesCreatedCondition BootstrapTemplateCloningFailedReason
               SeverityError (Error E err) [];
             return (no_requeue, Some err) }
         | Inr bootstrapRef \<Rightarrow> do {
             name \<leftarrow> generate_name E (om_Name (mcp_Meta m) @ ''-'');
             failureDomains \<leftarrow> getFailureDomain E;
             domain \<leftarrow> (if failureDomains \<noteq> []
               then do { i \<leftarrow> Intn E (length failureDomains); return (Some (failureDomains ! i)) }
               else return None);
             r \<leftarrow> create_machine E (new_machine E m c name infraRef bootstrapRef domain);
             case r of
               Some err \<Rightarrow> do {
                 MarkFalse E MachinesCreatedCondition MachineGenerationFailedReason
                   SeverityError (Error E err) [];
                 return (no_requeue, Some (Wrapped err ''Failed to create machine'')) }
             | None \<Rightarrow> return (requeue_now, None) } } }"

subsection \<open>What a boot does\<close>

text \<open>
  The four ways a boot can end, as a relation between the calls it issued, its reply and the
  state before and after.
\<close>

definition created_condition :: "'w st \<Rightarrow> (ConditionStatus \<times> string \<times> ConditionSeverity) option" where
  "created_condition s =
     map_option (\<lambda>c. (c_Status c, c_Reason c, c_Severity c))
       (find_condition MachinesCreatedCondition (GetConditions (mcp s)))"

definition boot_failed ::
  "'w st \<Rightarrow> string \<Rightarrow> reply \<Rightarrow> error \<Rightarrow> 'w st \<Rightarrow> bool" where
  "boot_failed s reason rep err s' \<longleftrightarrow>
     rep = (no_requeue, Some err) \<and> only_conditions s s' \<and>
     created_condition s' = Some (ConditionFalse, reason, SeverityError)"

text \<open>The failure domains a machine of cluster \<open>c\<close> may be placed in.\<close>

definition may_place :: "Cluster \<Rightarrow> string option \<Rightarrow> bool" where
  "may_place c d \<longleftrightarrow>
     (case cl_FailureDomains c of
        None \<Rightarrow> d = None
      | Some ds \<Rightarrow> (if ds = [] then d = None else d \<in> Some ` fst ` set ds))"

text \<open>A machine that belongs to the control plane object \<open>m\<close> of cluster \<open>c\<close>.\<close>

definition boots_machine :: "'w env \<Rightarrow> MicroK8sControlPlane \<Rightarrow> Cluster \<Rightarrow> MicroK8sConfig \<Rightarrow> Machine \<Rightarrow> bool" where
  "boots_machine E m c cfg x \<longleftrightarrow>
     (\<exists>name infra config domain.
        x = new_machine E m c name infra (config_ref E config) domain \<and> may_place c domain) \<and>
     cfg_Spec cfg = sp_ControlPlaneConfig (mcp_Spec m) \<and>
     om_Namespace (cfg_Meta cfg) = om_Namespace (mcp_Meta m)"

inductive boot_run :: "'w env \<Rightarrow> 'w st \<Rightarrow> reply \<Rightarrow> event list \<Rightarrow> 'w st \<Rightarrow> bool"
  for E :: "'w env" and s :: "'w st" where
  clone_failed:
    "boot_failed s InfrastructureTemplateCloningFailedReason rep err s' \<Longrightarrow>
     boot_run E s rep [Cloned (infra_clone_input E (mcp s) (cluster s)) (Some err)] s'"
| config_failed:
    "boot_failed s BootstrapTemplateCloningFailedReason rep
       (Wrapped err ''Failed to create bootstrap configuration'') s' \<Longrightarrow>
     boot_run E s rep
       [Cloned (infra_clone_input E (mcp s) (cluster s)) None, Created (OConfig cfg) (Some err)] s'"
| machine_failed:
    "boots_machine E (mcp s) (cluster s) cfg x \<Longrightarrow>
     rep = (no_requeue, Some (Wrapped err ''Failed to create machine'')) \<Longrightarrow> only_conditions s s' \<Longrightarrow>
     created_condition s' = Some (ConditionFalse, MachineGenerationFailedReason, SeverityError) \<Longrightarrow>
     boot_run E s rep
       [Cloned (infra_clone_input E (mcp s) (cluster s)) None, Created (OConfig cfg) None,
        Created (OMachine x) (Some err)] s'"
| booted:
    "boots_machine E (mcp s) (cluster s) cfg x \<Longrightarrow> mcp s' = mcp s \<Longrightarrow> cluster s' = cluster s \<Longrightarrow>
     boot_run E s (requeue_now, None)
       [Cloned (infra_clone_input E (mcp s) (cluster s)) None, Created (OConfig cfg) None,
        Created (OMachine x) None] s'"

lemma created_condition_MarkFalse:
  "conditions_contract E \<Longrightarrow>
   created_condition (with_conditions (conditions_MarkFalse E MachinesCreatedCondition r sev f a) s) =
   Some (ConditionFalse, r, sev)"
  by (simp add: created_condition_def conditions_contractD(3))

lemma generateMicroK8sConfig_wp [wp]:
  assumes "\<And>cfg err w. cfg_Spec cfg = spec \<Longrightarrow>
      om_Namespace (cfg_Meta cfg) = om_Namespace (mcp_Meta (mcp s)) \<Longrightarrow>
      Q (Inl (Wrapped err ''Failed to create bootstrap configuration''))
        [Created (OConfig cfg) (Some err)]
        (advance s [Created (OConfig cfg) (Some err)] w)"
    and "\<And>cfg config w. cfg_Spec cfg = spec \<Longrightarrow>
      om_Namespace (cfg_Meta cfg) = om_Namespace (mcp_Meta (mcp s)) \<Longrightarrow>
      Q (Inr (config_ref E config))
        [Created (OConfig cfg) None]
        (advance s [Created (OConfig cfg) None] w)"
  shows "wp (generateMicroK8sConfig E spec) Q s"
  unfolding generateMicroK8sConfig_def
  by (intro wp) (use assms in \<open>simp_all\<close>)

lemma getFailureDomain_wp [wp]:
  assumes "\<And>ds w. set ds = (case cl_FailureDomains (cluster s) of None \<Rightarrow> {} | Some m \<Rightarrow> fst ` set m) \<Longrightarrow>
      Q ds [] (advance s [] w)"
  shows "wp (getFailureDomain E) Q s"
  unfolding getFailureDomain_def
  by (intro wp) (use assms [of "[]" "world s"] assms in \<open>simp_all\<close>)

lemma may_place_nth:
  "set ds = (case cl_FailureDomains c of None \<Rightarrow> {} | Some m \<Rightarrow> fst ` set m) \<Longrightarrow> i < length ds \<Longrightarrow>
   may_place c (Some (ds ! i))"
  by (auto simp: may_place_def dest: nth_mem split: option.splits)

lemma may_place_None:
  "{} = (case cl_FailureDomains c of None \<Rightarrow> {} | Some m \<Rightarrow> fst ` set m) \<Longrightarrow> may_place c None"
  by (auto simp: may_place_def split: option.splits)

lemma boots_machineI:
  assumes "cfg_Spec cfg = sp_ControlPlaneConfig (mcp_Spec m)"
    and "om_Namespace (cfg_Meta cfg) = om_Namespace (mcp_Meta m)"
    and "config_ref E config = ref"
    and "may_place c d"
  shows "boots_machine E m c cfg (new_machine E m c name infra ref d)"
  unfolding boots_machine_def using assms by blast

lemma bootControlPlane_run:
  assumes "conditions_contract E"
  shows "wp (bootControlPlane E first) (boot_run E s) s"
  unfolding bootControlPlane_def
  by (intro wp)
     (auto intro!: boot_run.intros boots_machineI may_place_nth may_place_None
       simp: created_condition_MarkFalse [OF assms] boot_failed_def)

lemmas bootControlPlane_wp [wp] = wp_conseq [OF bootControlPlane_run]

inductive_cases boot_runE: "boot_run E s rep es s'"

lemma boot_run_effects:
  assumes "boot_run E s rep es s'"
  shows "only_conditions s s'" and "count_of creates_machine es \<le> 1"
    and "count_of deletes_machine es = 0" and "count_of updates_machine es = 0"
    and "fst rep = requeue_now \<longleftrightarrow> snd rep = None"
    and "snd rep = None \<longleftrightarrow> (\<exists>x. Created (OMachine x) None \<in> set es)"
  using assms
  by (auto elim!: boot_runE simp: boot_failed_def only_conditions_def no_requeue_def requeue_now_def
      intro: exI [of _ "GetConditions (mcp s)"])

end
