(* ===== verification/Go_Strings.thy ===== *)
theory Go_Strings
  imports Prelude
begin

text \<open>
  The functions of the packages \<open>strings\<close> and \<open>encoding/base64\<close> of Go's standard library that
  the sources use, on strings of bytes: prefixes, replacement of all occurrences of a non-empty
  substring, and the standard base64 encoding. The decoder is not used by the sources: it is the
  consumer's side of the kubeconfig, and states what the encoder must not lose.
\<close>

subsection \<open>Prefixes\<close>

definition strings_HasPrefix :: "string \<Rightarrow> string \<Rightarrow> bool" where
  "strings_HasPrefix s p \<longleftrightarrow> take (length p) s = p"

definition strings_TrimPrefix :: "string \<Rightarrow> string \<Rightarrow> string" where
  "strings_TrimPrefix s p = (if strings_HasPrefix s p then drop (length p) s else s)"

lemma HasPrefix_append: "strings_HasPrefix s p \<longleftrightarrow> (\<exists>t. s = p @ t)"
  unfolding strings_HasPrefix_def by (metis append_eq_conv_conj append_take_drop_id)

subsection \<open>Replacement\<close>

text \<open>\<open>strings.Replace(s, old, new, -1)\<close>, for a non-empty \<open>old\<close>.\<close>

function strings_ReplaceAll :: "string \<Rightarrow> string \<Rightarrow> string \<Rightarrow> string" where
  "strings_ReplaceAll old new [] = []"
| "strings_ReplaceAll old new (x # xs) =
     (if old \<noteq> [] \<and> strings_HasPrefix (x # xs) old
      then new @ strings_ReplaceAll old new (drop (length old) (x # xs))
      else x # strings_ReplaceAll old new xs)"
  by pat_completeness auto
termination
  by (relation "measure (\<lambda>(old, new, s). length s)") auto

declare strings_ReplaceAll.simps(2) [simp del]

text \<open>Text that does not contain the first character of \<open>old\<close> is copied.\<close>

lemma ReplaceAll_copy:
  "c \<notin> set p \<Longrightarrow> strings_ReplaceAll (c # old) new (p @ s) = p @ strings_ReplaceAll (c # old) new s"
  by (induction p) (auto simp: strings_ReplaceAll.simps(2) strings_HasPrefix_def)

lemma ReplaceAll_copy_all: "c \<notin> set p \<Longrightarrow> strings_ReplaceAll (c # old) new p = p"
  using ReplaceAll_copy [of c p old new "[]"] by simp

lemma ReplaceAll_hit:
  "strings_ReplaceAll (c # old) new ((c # old) @ s) = new @ strings_ReplaceAll (c # old) new s"
  by (simp add: strings_ReplaceAll.simps(2) strings_HasPrefix_def)

text \<open>Another occurrence of the first character is copied when the next one differs.\<close>

lemma ReplaceAll_miss:
  "d \<noteq> e \<Longrightarrow> c \<noteq> e \<Longrightarrow>
   strings_ReplaceAll (c # d # old) new (c # e # s) = c # e # strings_ReplaceAll (c # d # old) new s"
  by (simp add: strings_ReplaceAll.simps(2) strings_HasPrefix_def)

subsection \<open>Base64\<close>

definition base64_alphabet :: string where
  "base64_alphabet =
     ''ABCDEFGHIJKLMNOPQRSTUVWXYZabcdefghijklmnopqrstuvwxyz0123456789+/''"

definition base64_char :: "nat \<Rightarrow> char" where
  "base64_char n = base64_alphabet ! (n mod 64)"

fun base64_EncodeToString :: "string \<Rightarrow> string" where
  "base64_EncodeToString [] = []"
| "base64_EncodeToString [a] =
     (let v = of_char a * 65536 in [base64_char (v div 262144), base64_char (v div 4096), CHR ''='', CHR ''=''])"
| "base64_EncodeToString [a, b] =
     (let v = of_char a * 65536 + of_char b * 256
      in [base64_char (v div 262144), base64_char (v div 4096), base64_char (v div 64), CHR ''=''])"
| "base64_EncodeToString (a # b # c # s) =
     (let v = of_char a * 65536 + of_char b * 256 + of_char c
      in [base64_char (v div 262144), base64_char (v div 4096), base64_char (v div 64), base64_char v]
         @ base64_EncodeToString s)"

lemma length_base64_alphabet: "length base64_alphabet = 64"
  by (simp add: base64_alphabet_def)

lemma base64_char_in: "base64_char n \<in> set base64_alphabet"
  by (simp add: base64_char_def length_base64_alphabet)

lemma set_base64: "set (base64_EncodeToString s) \<subseteq> insert (CHR ''='') (set base64_alphabet)"
  by (induction s rule: base64_EncodeToString.induct)
     (auto simp: Let_def base64_char_in)

text \<open>No output character starts or ends a placeholder of the kubeconfig template.\<close>

lemma base64_no_bracket: "CHR ''<'' \<notin> set (base64_EncodeToString s)"
  using set_base64 [of s] by (auto simp: base64_alphabet_def)

lemma base64_no_newline: "CHR 0x0A \<notin> set (base64_EncodeToString s)"
  using set_base64 [of s] by (auto simp: base64_alphabet_def)

lemma length_base64: "length (base64_EncodeToString s) = 4 * ((length s + 2) div 3)"
proof (induction s rule: base64_EncodeToString.induct)
  case (4 a b c s)
  have "(length (a # b # c # s) + 2) div 3 = Suc ((length s + 2) div 3)" by simp
  with 4 show ?case by (simp add: Let_def)
qed (simp_all add: Let_def)

subsection \<open>Decoding\<close>

fun index_of :: "'a \<Rightarrow> 'a list \<Rightarrow> nat" where
  "index_of x [] = 0"
| "index_of x (y # ys) = (if x = y then 0 else Suc (index_of x ys))"

lemma index_of_nth: "distinct xs \<Longrightarrow> i < length xs \<Longrightarrow> index_of (xs ! i) xs = i"
proof (induction xs arbitrary: i)
  case (Cons y ys)
  then show ?case by (cases i) auto
qed simp

definition base64_value :: "char \<Rightarrow> nat" where
  "base64_value c = index_of c base64_alphabet"

fun base64_decode :: "string \<Rightarrow> string" where
  "base64_decode (p # q # r # t # s) =
     (let v = base64_value p * 262144 + base64_value q * 4096
      in if r = CHR ''='' then [char_of (v div 65536)]
         else if t = CHR ''='' then
           (let v = v + base64_value r * 64 in [char_of (v div 65536), char_of (v div 256)])
         else
           (let v = v + base64_value r * 64 + base64_value t
            in [char_of (v div 65536), char_of (v div 256), char_of v] @ base64_decode s))"
| "base64_decode _ = []"

lemma base64_value_char: "base64_value (base64_char n) = n mod 64"
proof -
  have "distinct base64_alphabet" by (simp add: base64_alphabet_def)
  then show ?thesis
    by (simp add: base64_value_def base64_char_def index_of_nth length_base64_alphabet)
qed

lemma base64_char_not_pad: "base64_char n \<noteq> CHR ''=''"
  using base64_char_in [of n] by (auto simp: base64_alphabet_def)

lemma sextets:
  fixes v :: nat
  assumes "v < 16777216"
  shows "v div 262144 mod 64 * 262144 + v div 4096 mod 64 * 4096 + v div 64 mod 64 * 64 + v mod 64 = v"
proof -
  have "v = v div 64 * 64 + v mod 64" by simp
  moreover have "v div 64 = v div 4096 * 64 + v div 64 mod 64"
    using div_mult_mod_eq [of "v div 64" 64] by (simp add: div_mult2_eq [symmetric])
  moreover have "v div 4096 = v div 262144 * 64 + v div 4096 mod 64"
    using div_mult_mod_eq [of "v div 4096" 64] by (simp add: div_mult2_eq [symmetric])
  moreover have "v div 262144 mod 64 = v div 262144"
    using assms by (simp add: less_mult_imp_div_less)
  ultimately show ?thesis by linarith
qed

lemma char_of_shifted [simp]: "char_of (k * 256 + of_char c :: nat) = c"
proof -
  have "char_of ((k * 256 + of_char c :: nat) mod 256) = c" by simp
  then show ?thesis by (simp only: char_of_mod_256)
qed

lemma octets:
  fixes a b c :: char
  defines "v \<equiv> of_char a * 65536 + of_char b * 256 + of_char c :: nat"
  shows "v < 16777216" and "char_of (v div 65536) = a" and "char_of (v div 256) = b" and "char_of v = c"
proof -
  have bounds: "of_char a < (256 :: nat)" "of_char b < (256 :: nat)" "of_char c < (256 :: nat)" by simp_all
  then show "v < 16777216" unfolding v_def by linarith
  have "v div 65536 = of_char a" unfolding v_def
    by (rule div_nat_eqI) (use bounds in \<open>simp_all, linarith\<close>)
  then show "char_of (v div 65536) = a" by simp
  have "v div 256 = of_char a * 256 + of_char b" unfolding v_def
    by (rule div_nat_eqI) (use bounds in \<open>simp_all\<close>)
  then show "char_of (v div 256) = b" by simp
  have "v = (of_char a * 256 + of_char b) * 256 + of_char c" unfolding v_def by simp
  then show "char_of v = c" by (simp only: char_of_shifted)
qed

lemma octets_pad:
  fixes a b :: char
  shows "(of_char a * 65536 :: nat) div 64 mod 64 = 0" and "(of_char a * 65536 :: nat) mod 64 = 0"
    and "(of_char a * 65536 + of_char b * 256 :: nat) mod 64 = 0"
proof -
  have m: "(n * 64) mod 64 = 0" "(n * 64) div 64 = n" for n :: nat by simp_all
  have e: "(of_char a * 65536 :: nat) = (of_char a * 16 * 64) * 64"
    "(of_char a * 65536 + of_char b * 256 :: nat) = (of_char a * 1024 + of_char b * 4) * 64"
    by simp_all
  show "(of_char a * 65536 :: nat) div 64 mod 64 = 0" and "(of_char a * 65536 :: nat) mod 64 = 0"
    by (simp_all only: e(1) m)
  show "(of_char a * 65536 + of_char b * 256 :: nat) mod 64 = 0" by (simp only: e(2) m)
qed

text \<open>Decoding gives back what was encoded, for every string of bytes.\<close>

lemma base64_decode_encode: "base64_decode (base64_EncodeToString s) = s"
proof (induction s rule: base64_EncodeToString.induct)
  case 1
  then show ?case by simp
next
  case (2 a)
  let ?v = "of_char a * 65536 :: nat"
  have "?v < 16777216" using octets(1) [of a "CHR 0x00" "CHR 0x00"] by simp
  from sextets [OF this] have "?v div 262144 mod 64 * 262144 + ?v div 4096 mod 64 * 4096 = ?v"
    by (simp only: octets_pad add_0_right)
  then show ?case by (simp only: base64_EncodeToString.simps Let_def base64_decode.simps base64_value_char) simp
next
  case (3 a b)
  let ?v = "of_char a * 65536 + of_char b * 256 :: nat"
  note o = octets [of a b "CHR 0x00", simplified]
  from sextets [OF o(1)]
  have "?v div 262144 mod 64 * 262144 + ?v div 4096 mod 64 * 4096 + ?v div 64 mod 64 * 64 = ?v"
    by (simp only: octets_pad add_0_right)
  then show ?case using o
    by (simp only: base64_EncodeToString.simps Let_def base64_decode.simps base64_value_char
        base64_char_not_pad if_False) simp
next
  case (4 a b c s)
  note o = octets [of a b c]
  show ?case using "4.IH" o sextets [OF o(1)]
    by (simp only: base64_EncodeToString.simps Let_def append.simps base64_decode.simps
        base64_value_char base64_char_not_pad if_False)
qed

end
