(* ===== verification/Kubeconfig.thy ===== *)
theory Kubeconfig
  imports Machine_Boot Go_Strings "HOL-Library.Multiset"
begin

text \<open>
  The connection to the workload cluster, \<open>controllers/configs.go\<close>: \<open>kubeconfigForCluster\<close>
  finds or creates the kubeconfig secret and builds a client from it; \<open>genarateKubeconfig\<close>
  issues a client certificate with the cluster's CA and fills in the template. The locale
  \<open>client_provider\<close> is what the callers rely on.
\<close>

subsection \<open>The template\<close>

definition newline :: string where
  "newline = [CHR 0x0A]"

definition templateConfig :: string where
  "templateConfig = newline @ concat (map (\<lambda>l. l @ newline)
     [''apiVersion: v1'',
      ''clusters:'',
      ''- cluster:'',
      ''    certificate-authority-data: <CACERT>'',
      ''    server: https://<HOST>:6443'',
      ''  name: microk8s-cluster'',
      ''contexts:'',
      ''- context:'',
      ''    cluster: microk8s-cluster'',
      ''    user: admin'',
      ''  name: microk8s'',
      ''current-context: microk8s'',
      ''kind: Config'',
      ''preferences: {}'',
      ''users:'',
      ''- name: admin'',
      ''  user:'',
      ''    client-certificate-data: <CERT>'',
      ''    client-key-data: <KEY>''])"

text \<open>The replacements of \<open>genarateKubeconfig\<close>, in its order, over already encoded data.\<close>

definition fill_template :: "string \<Rightarrow> string \<Rightarrow> string \<Rightarrow> string \<Rightarrow> string" where
  "fill_template host cacert cert key =
     (let config = strings_ReplaceAll ''<HOST>'' host templateConfig;
          config = strings_ReplaceAll ''<CACERT>'' cacert config;
          config = strings_ReplaceAll ''<CERT>'' cert config
      in strings_ReplaceAll ''<KEY>'' key config)"

subsection \<open>Generating a kubeconfig\<close>

definition secret_data :: "Secret \<Rightarrow> string \<Rightarrow> bytes" where
  "secret_data x k = map_get (sec_Data x) k"

definition client_cert_template :: "'w env \<Rightarrow> time \<Rightarrow> time \<Rightarrow> CertTemplate" where
  "client_cert_template E t1 t2 =
     \<lparr>crt_SerialNumber = 2019,
      crt_Organization = [''admin'', ''system:masters''],
      crt_Country = [''GB''],
      crt_Province = [''''],
      crt_Locality = [''Canonical''],
      crt_StreetAddress = [''Canonical''],
      crt_CommonName = ''admin'',
      crt_NotBefore = t1,
      crt_NotAfter = time_AddDate E 10 0 0 t2,
      crt_SubjectKeyId = [1, 2, 3, 4, 6],
      crt_ExtKeyUsage = [''ExtKeyUsageClientAuth'', ''ExtKeyUsageServerAuth''],
      crt_KeyUsage = ''KeyUsageDigitalSignature''\<rparr>"

text \<open>
  The public key of a generated key pair is read off the private key, so
  \<open>x509.CreateCertificate\<close> gets the pair where the source passes \<open>&certPrivKey.PublicKey\<close>.
\<close>

definition genarateKubeconfig ::
  "'w env \<Rightarrow> ObjectKey \<Rightarrow> string \<Rightarrow> ('w st, error + string) state" where
  "genarateKubeconfig E cluster_key host = do {
     r \<leftarrow> get_secret E \<lparr>key_Namespace = key_Namespace cluster_key,
                       key_Name = key_Name cluster_key @ ''-ca''\<rparr>;
     case r of Inl err \<Rightarrow> return (Inl err) | Inr readCASecret \<Rightarrow>
     (case pem_Decode E (secret_data readCASecret ''crt'') of
        None \<Rightarrow> return (Inl (ErrNew ''failed to decode CA certificate''))
      | Some caCertBlock \<Rightarrow>
     if pem_Type caCertBlock \<noteq> ''CERTIFICATE''
     then return (Inl (ErrNew ''failed to decode CA certificate''))
     else case x509_ParseCertificate E (pem_Bytes caCertBlock) of
        Inl err \<Rightarrow> return (Inl err)
      | Inr caCert \<Rightarrow>
     (case pem_Decode E (secret_data readCASecret ''key'') of
        None \<Rightarrow> return (Inl (ErrNew ''failed to decode CA key''))
      | Some block \<Rightarrow>
     if pem_Type block \<noteq> ''RSA PRIVATE KEY''
     then return (Inl (ErrNew ''failed to decode CA key''))
     else case x509_ParsePKCS1PrivateKey E (pem_Bytes block) of
        Inl err \<Rightarrow> return (Inl err)
      | Inr caKey \<Rightarrow> do {
     notBefore \<leftarrow> now E;
     notAfter \<leftarrow> now E;
     k \<leftarrow> call (rsa_GenerateKey E 2048) (\<lambda>_. []);
     case k of Inl err \<Rightarrow> return (Inl err) | Inr certPrivKey \<Rightarrow> do {
     c \<leftarrow> call (x509_CreateCertificate E (client_cert_template E notBefore notAfter)
             caCert certPrivKey caKey) (\<lambda>_. []);
     case c of Inl err \<Rightarrow> return (Inl err) | Inr certBytes \<Rightarrow>
     (case pem_Encode E \<lparr>pem_Type = ''CERTIFICATE'', pem_Bytes = certBytes\<rparr> of
        Inl err \<Rightarrow> return (Inl err)
      | Inr certPEM \<Rightarrow>
     (case pem_Encode E \<lparr>pem_Type = ''RSA PRIVATE KEY'',
                         pem_Bytes = x509_MarshalPKCS1PrivateKey E certPrivKey\<rparr> of
        Inl err \<Rightarrow> return (Inl err)
      | Inr keyPEM \<Rightarrow>
     return (Inr (fill_template host
       (base64_EncodeToString (secret_data readCASecret ''crt''))
       (base64_EncodeToString certPEM)
       (base64_EncodeToString keyPEM))))) } })) }"

subsection \<open>Obtaining a client\<close>

definition kubeconfig_name :: "ObjectKey \<Rightarrow> string" where
  "kubeconfig_name k = key_Name k @ ''-kubeconfig''"

definition kubeconfig_secret :: "'w env \<Rightarrow> ObjectKey \<Rightarrow> string \<Rightarrow> Secret" where
  "kubeconfig_secret E k kubeconfig =
     \<lparr>sec_Meta = empty_meta\<lparr>
        om_Name := kubeconfig_name k,
        om_Namespace := key_Namespace k,
        om_Labels := [(clusterv1_ClusterLabelName E, key_Name k)]\<rparr>,
      sec_Data = [(''value'', kubeconfig)]\<rparr>"

text \<open>The second half: read the secret back and build a client from it.\<close>

definition client_from_secret ::
  "'w env \<Rightarrow> ObjectKey \<Rightarrow> ('w st, error + kubernetesClient) state" where
  "client_from_secret E k = do {
     r \<leftarrow> get_secret E \<lparr>key_Namespace = key_Namespace k, key_Name = kubeconfig_name k\<rparr>;
     case r of Inl err \<Rightarrow> return (Inl err) | Inr kubeconfigSecret \<Rightarrow>
     (case clientcmd_RESTConfigFromKubeConfig E (secret_data kubeconfigSecret ''value'') of
        Inl err \<Rightarrow> return (Inl err)
      | Inr config \<Rightarrow> do {
     dialer \<leftarrow> new_dialer E;
     c \<leftarrow> new_for_config E config dialer;
     case c of
       Inl err \<Rightarrow> return (Inl err)
     | Inr clients \<Rightarrow> return (Inr \<lparr>kc_Clientset = clients, kc_dialer = dialer\<rparr>) }) }"

definition kubeconfigForCluster ::
  "'w env \<Rightarrow> ObjectKey \<Rightarrow> ('w st, error + kubernetesClient) state" where
  "kubeconfigForCluster E k = do {
     secrets \<leftarrow> list_secrets E;
     case secrets of Inl err \<Rightarrow> return (Inl err) | Inr items \<Rightarrow> do {
     c \<leftarrow> get_cluster E k;
     case c of Inl err \<Rightarrow> return (Inl err) | Inr c \<Rightarrow>
     (let found = list_ex (\<lambda>s. om_Name (sec_Meta s) = kubeconfig_name k) items
      in if \<not> found \<and> endpoint_IsValid E (cl_ControlPlaneEndpoint c) then do {
           g \<leftarrow> genarateKubeconfig E k (ep_Host (cl_ControlPlaneEndpoint c));
           case g of Inl err \<Rightarrow> return (Inl err) | Inr kubeconfig \<Rightarrow> do {
             r \<leftarrow> create_secret E (kubeconfig_secret E k kubeconfig);
             case r of Some err \<Rightarrow> return (Inl err) | None \<Rightarrow> client_from_secret E k } }
         else client_from_secret E k) } }"

text \<open>\<open>(*kubernetesClient).Close\<close>.\<close>

definition Close :: "'w env \<Rightarrow> kubernetesClient \<Rightarrow> ('w st, unit) state" where
  "Close E kc = close_all E kc"

subsection \<open>The filled-in template\<close>

text \<open>The kubeconfig the template stands for, written out with its four values in place.\<close>

definition kubeconfig_text :: "string \<Rightarrow> string \<Rightarrow> string \<Rightarrow> string \<Rightarrow> string" where
  "kubeconfig_text host cacert cert key = newline @ concat (map (\<lambda>l. l @ newline)
     [''apiVersion: v1'',
      ''clusters:'',
      ''- cluster:'',
      ''    certificate-authority-data: '' @ cacert,
      ''    server: https://'' @ host @ '':6443'',
      ''  name: microk8s-cluster'',
      ''contexts:'',
      ''- context:'',
      ''    cluster: microk8s-cluster'',
      ''    user: admin'',
      ''  name: microk8s'',
      ''current-context: microk8s'',
      ''kind: Config'',
      ''preferences: {}'',
      ''users:'',
      ''- name: admin'',
      ''  user:'',
      ''    client-certificate-data: '' @ cert,
      ''    client-key-data: '' @ key])"

text \<open>Both texts, cut at the four places; the pieces contain no opening bracket.\<close>

definition template_pieces :: "string list" where
  "template_pieces =
     [newline @ concat (map (\<lambda>l. l @ newline) [''apiVersion: v1'', ''clusters:'', ''- cluster:'']) @
        ''    certificate-authority-data: '',
      newline @ ''    server: https://'',
      '':6443'' @ newline @ concat (map (\<lambda>l. l @ newline)
        [''  name: microk8s-cluster'', ''contexts:'', ''- context:'', ''    cluster: microk8s-cluster'',
         ''    user: admin'', ''  name: microk8s'', ''current-context: microk8s'', ''kind: Config'',
         ''preferences: {}'', ''users:'', ''- name: admin'', ''  user:'']) @
        ''    client-certificate-data: '',
      newline @ ''    client-key-data: '',
      newline]"

definition assemble :: "string list \<Rightarrow> string \<Rightarrow> string \<Rightarrow> string \<Rightarrow> string \<Rightarrow> string" where
  "assemble ps cacert host cert key =
     ps ! 0 @ cacert @ ps ! 1 @ host @ ps ! 2 @ cert @ ps ! 3 @ key @ ps ! 4"

lemma templateConfig_pieces:
  "templateConfig = assemble template_pieces ''<CACERT>'' ''<HOST>'' ''<CERT>'' ''<KEY>''"
  by (simp add: templateConfig_def assemble_def template_pieces_def newline_def)

lemma kubeconfig_text_pieces: "kubeconfig_text host ca cert key = assemble template_pieces ca host cert key"
  by (simp add: kubeconfig_text_def assemble_def template_pieces_def newline_def)

lemma template_pieces_no_bracket: "\<forall>p \<in> set template_pieces. CHR ''<'' \<notin> set p"
  by (simp add: template_pieces_def newline_def)

text \<open>How each replacement treats each placeholder.\<close>

lemma replace_host:
  "strings_ReplaceAll ''<HOST>'' v (''<HOST>'' @ s) = v @ strings_ReplaceAll ''<HOST>'' v s"
  "strings_ReplaceAll ''<HOST>'' v (''<CACERT>'' @ s) = ''<CACERT>'' @ strings_ReplaceAll ''<HOST>'' v s"
  "strings_ReplaceAll ''<HOST>'' v (''<CERT>'' @ s) = ''<CERT>'' @ strings_ReplaceAll ''<HOST>'' v s"
  "strings_ReplaceAll ''<HOST>'' v (''<KEY>'' @ s) = ''<KEY>'' @ strings_ReplaceAll ''<HOST>'' v s"
  by (simp_all add: strings_ReplaceAll.simps(2) strings_HasPrefix_def)

lemma replace_cacert:
  "strings_ReplaceAll ''<CACERT>'' v (''<CACERT>'' @ s) = v @ strings_ReplaceAll ''<CACERT>'' v s"
  "strings_ReplaceAll ''<CACERT>'' v (''<CERT>'' @ s) = ''<CERT>'' @ strings_ReplaceAll ''<CACERT>'' v s"
  "strings_ReplaceAll ''<CACERT>'' v (''<KEY>'' @ s) = ''<KEY>'' @ strings_ReplaceAll ''<CACERT>'' v s"
  by (simp_all add: strings_ReplaceAll.simps(2) strings_HasPrefix_def)

lemma replace_cert:
  "strings_ReplaceAll ''<CERT>'' v (''<CERT>'' @ s) = v @ strings_ReplaceAll ''<CERT>'' v s"
  "strings_ReplaceAll ''<CERT>'' v (''<KEY>'' @ s) = ''<KEY>'' @ strings_ReplaceAll ''<CERT>'' v s"
  by (simp_all add: strings_ReplaceAll.simps(2) strings_HasPrefix_def)

lemma replace_key:
  "strings_ReplaceAll ''<KEY>'' v (''<KEY>'' @ s) = v @ strings_ReplaceAll ''<KEY>'' v s"
  by (simp add: strings_ReplaceAll.simps(2) strings_HasPrefix_def)

lemma fill_template_text:
  assumes "CHR ''<'' \<notin> set host" and "CHR ''<'' \<notin> set ca" and "CHR ''<'' \<notin> set cert"
  shows "fill_template host ca cert key = kubeconfig_text host ca cert key"
proof -
  obtain p q r t u where ps: "template_pieces = [p, q, r, t, u]"
    by (simp add: template_pieces_def)
  have "\<forall>x \<in> set [p, q, r, t, u]. CHR ''<'' \<notin> set x"
    using template_pieces_no_bracket unfolding ps .
  then have free: "CHR ''<'' \<notin> set p" "CHR ''<'' \<notin> set q" "CHR ''<'' \<notin> set r" "CHR ''<'' \<notin> set t"
    "CHR ''<'' \<notin> set u" unfolding list.set ball_simps by blast+
  note copy = ReplaceAll_copy [OF free(1)] ReplaceAll_copy [OF free(2)] ReplaceAll_copy [OF free(3)]
    ReplaceAll_copy [OF free(4)] ReplaceAll_copy_all [OF free(5)]
    ReplaceAll_copy [OF assms(1)] ReplaceAll_copy [OF assms(2)] ReplaceAll_copy [OF assms(3)]
  have a: "assemble template_pieces w x y z = p @ w @ q @ x @ r @ y @ t @ z @ u" for w x y z
    by (simp add: assemble_def ps)
  show ?thesis
    unfolding fill_template_def Let_def templateConfig_pieces kubeconfig_text_pieces a
    by (simp only: copy replace_host replace_cacert replace_cert replace_key)
qed

subsection \<open>Reading a kubeconfig back\<close>

text \<open>
  The consumer's side: the lines of a text, and the value of the first line that starts with a key.
  The sources leave this to the client library.
\<close>

fun lines_of :: "string \<Rightarrow> string list" where
  "lines_of [] = [[]]"
| "lines_of (c # s) =
     (if c = CHR 0x0A then [] # lines_of s
      else case lines_of s of [] \<Rightarrow> [[c]] | l # ls \<Rightarrow> (c # l) # ls)"

definition config_value :: "string \<Rightarrow> string \<Rightarrow> string" where
  "config_value key text =
     (case find (\<lambda>l. strings_HasPrefix l key) (lines_of text) of
        None \<Rightarrow> []
      | Some l \<Rightarrow> drop (length key) l)"

lemma lines_of_line: "CHR 0x0A \<notin> set l \<Longrightarrow> lines_of (l @ newline @ s) = l # lines_of s"
  by (induction l) (auto simp: newline_def)

lemma lines_of_concat:
  "\<forall>l \<in> set ls. CHR 0x0A \<notin> set l \<Longrightarrow> lines_of (concat (map (\<lambda>l. l @ newline) ls)) = ls @ [[]]"
  by (induction ls) (simp_all add: lines_of_line)

lemma kubeconfig_values:
  assumes "CHR 0x0A \<notin> set host" and "CHR 0x0A \<notin> set ca" and "CHR 0x0A \<notin> set cert" and "CHR 0x0A \<notin> set key"
  shows "config_value ''    certificate-authority-data: '' (kubeconfig_text host ca cert key) = ca"
    and "config_value ''    server: '' (kubeconfig_text host ca cert key) = ''https://'' @ host @ '':6443''"
    and "config_value ''    client-certificate-data: '' (kubeconfig_text host ca cert key) = cert"
    and "config_value ''    client-key-data: '' (kubeconfig_text host ca cert key) = key"
proof -
  have "lines_of (newline @ s) = [] # lines_of s" for s by (simp add: newline_def)
  note lines = this lines_of_concat
  show "config_value ''    certificate-authority-data: '' (kubeconfig_text host ca cert key) = ca"
    and "config_value ''    server: '' (kubeconfig_text host ca cert key) = ''https://'' @ host @ '':6443''"
    and "config_value ''    client-certificate-data: '' (kubeconfig_text host ca cert key) = cert"
    and "config_value ''    client-key-data: '' (kubeconfig_text host ca cert key) = key"
    unfolding config_value_def kubeconfig_text_def using assms
    by (subst lines(1), subst lines(2), simp, simp add: strings_HasPrefix_def)+
qed

subsection \<open>The contract of a client provider\<close>

text \<open>The calls a failed or successful connection may have issued.\<close>

definition connecting :: "error + kubernetesClient \<Rightarrow> event list \<Rightarrow> bool" where
  "connecting r es \<longleftrightarrow>
     (\<exists>es0. (\<forall>e \<in> set es0. secret_only e \<and> \<not> connects e \<and> \<not> closes e \<and> \<not> touches_workload e) \<and>
        es = es0 @ (case r of Inl _ \<Rightarrow> [] | Inr kc \<Rightarrow> [Connected kc]))"

locale client_provider =
  fixes connect :: "'w env \<Rightarrow> ObjectKey \<Rightarrow> ('w st, error + kubernetesClient) state"
  assumes connect:
    "wp (connect E k) (\<lambda>r es s'. connecting r es \<and> mcp s' = mcp s \<and> cluster s' = cluster s) s"
begin

text \<open>
  The pattern of every caller: give up when there is no client, otherwise defer its release and go
  on.
\<close>

lemma with_client_wp:
  assumes "\<And>e es s'. connecting (Inl e) es \<Longrightarrow> mcp s' = mcp s \<Longrightarrow> cluster s' = cluster s \<Longrightarrow>
      wp (h e) (\<lambda>x es'. Q x (es @ es')) s'"
    and "\<And>kc es s'. connecting (Inr kc) es \<Longrightarrow> mcp s' = mcp s \<Longrightarrow> cluster s' = cluster s \<Longrightarrow>
      wp (body kc) (\<lambda>x es' s''. \<forall>w. Q x (es @ es' @ [Closed kc]) (advance s'' [Closed kc] w)) s'"
  shows "wp (do { r \<leftarrow> connect E k;
              case r of Inl e \<Rightarrow> h e | Inr kc \<Rightarrow> deferring (Close E kc) (body kc) }) Q s"
  by (rule wp_bind, rule wp_conseq [OF connect], rule wp_case_sum)
     (auto simp: Close_def intro!: wp wp_conseq [OF assms(2)] assms(1))

text \<open>Whatever the body does in pairs, the whole does in pairs: no client is leaked.\<close>

lemma with_client_balanced:
  assumes "\<And>e s. wp (h e) (\<lambda>_ es _. mset (opened es) = mset (closed es)) s"
    and "\<And>kc s. wp (body kc) (\<lambda>_ es _. mset (opened es) = mset (closed es)) s"
  shows "wp (do { r \<leftarrow> connect E k;
              case r of Inl e \<Rightarrow> h e | Inr kc \<Rightarrow> deferring (Close E kc) (body kc) })
     (\<lambda>_ es _. mset (opened es) = mset (closed es)) s"
proof -
  have none: "opened es = []" "closed es = []"
    if "\<forall>e \<in> set es. secret_only e \<and> \<not> connects e \<and> \<not> closes e \<and> \<not> touches_workload e" for es
    using that by (induction es) (auto split: event.splits)
  show ?thesis
    by (rule with_client_wp)
       (auto simp: connecting_def none intro: wp_conseq [OF assms(1)] wp_conseq [OF assms(2)])
qed

end

text \<open>
  Where the four values come from: the certificate is the one of the secret \<open>ca\<close>; the client
  certificate is issued for a freshly generated key pair by the certificate and the key of that
  secret, to an administrator and for client authentication, valid for ten years from its creation;
  the key is the private key of that pair.
\<close>

definition administrator :: "'w env \<Rightarrow> CertTemplate \<Rightarrow> bool" where
  "administrator E tpl \<longleftrightarrow>
     crt_CommonName tpl = ''admin'' \<and> ''system:masters'' \<in> set (crt_Organization tpl) \<and>
     ''ExtKeyUsageClientAuth'' \<in> set (crt_ExtKeyUsage tpl) \<and>
     (\<exists>w t w'. time_Now E w = (t, w') \<and> crt_NotAfter tpl = time_AddDate E 10 0 0 t) \<and>
     (\<exists>w t w'. time_Now E w = (t, w') \<and> crt_NotBefore tpl = t)"

definition issued_with :: "'w env \<Rightarrow> Secret \<Rightarrow> bytes \<Rightarrow> bytes \<Rightarrow> bool" where
  "issued_with E ca certPEM keyPEM \<longleftrightarrow>
     (\<exists>caBlock caCert keyBlock caKey tpl key der w1 w2 w3.
        pem_Decode E (secret_data ca ''crt'') = Some caBlock \<and> pem_Type caBlock = ''CERTIFICATE'' \<and>
        x509_ParseCertificate E (pem_Bytes caBlock) = Inr caCert \<and>
        pem_Decode E (secret_data ca ''key'') = Some keyBlock \<and> pem_Type keyBlock = ''RSA PRIVATE KEY'' \<and>
        x509_ParsePKCS1PrivateKey E (pem_Bytes keyBlock) = Inr caKey \<and>
        rsa_GenerateKey E 2048 w1 = (Inr key, w2) \<and>
        administrator E tpl \<and> x509_CreateCertificate E tpl caCert key caKey w2 = (Inr der, w3) \<and>
        pem_Encode E \<lparr>pem_Type = ''CERTIFICATE'', pem_Bytes = der\<rparr> = Inr certPEM \<and>
        pem_Encode E \<lparr>pem_Type = ''RSA PRIVATE KEY'', pem_Bytes = x509_MarshalPKCS1PrivateKey E key\<rparr> =
          Inr keyPEM)"

definition admin_kubeconfig :: "'w env \<Rightarrow> ObjectKey \<Rightarrow> string \<Rightarrow> string \<Rightarrow> bool" where
  "admin_kubeconfig E k host config \<longleftrightarrow>
     (\<exists>ca w w' cert key.
        Client_Get_secret E \<lparr>key_Namespace = key_Namespace k, key_Name = key_Name k @ ''-ca''\<rparr> w =
          (Inr ca, w') \<and>
        issued_with E ca cert key \<and>
        config = fill_template host (base64_EncodeToString (secret_data ca ''crt''))
          (base64_EncodeToString cert) (base64_EncodeToString key))"

lemma admin_kubeconfigI:
  assumes "Client_Get_secret E \<lparr>key_Namespace = key_Namespace k, key_Name = key_Name k @ ''-ca''\<rparr> w =
      (Inr ca, w')"
    and "pem_Decode E (secret_data ca ''crt'') = Some caBlock" and "pem_Type caBlock = ''CERTIFICATE''"
    and "x509_ParseCertificate E (pem_Bytes caBlock) = Inr caCert"
    and "pem_Decode E (secret_data ca ''key'') = Some keyBlock" and "pem_Type keyBlock = ''RSA PRIVATE KEY''"
    and "x509_ParsePKCS1PrivateKey E (pem_Bytes keyBlock) = Inr caKey"
    and "time_Now E u = (t1, u1)" and "time_Now E u1 = (t2, u2)"
    and "rsa_GenerateKey E 2048 u2 = (Inr key, u3)"
    and "x509_CreateCertificate E (client_cert_template E t1 t2) caCert key caKey u3 = (Inr der, u4)"
    and "pem_Encode E \<lparr>pem_Type = ''CERTIFICATE'', pem_Bytes = der\<rparr> = Inr certPEM"
    and "pem_Encode E \<lparr>pem_Type = ''RSA PRIVATE KEY'', pem_Bytes = x509_MarshalPKCS1PrivateKey E key\<rparr> =
      Inr keyPEM"
  shows "admin_kubeconfig E k host (fill_template host (base64_EncodeToString (secret_data ca ''crt''))
    (base64_EncodeToString certPEM) (base64_EncodeToString keyPEM))"
proof -
  have "administrator E (client_cert_template E t1 t2)"
    using assms(8,9) unfolding administrator_def client_cert_template_def by auto
  with assms(2-7,10-13) have "issued_with E ca certPEM keyPEM" unfolding issued_with_def by blast
  with assms(1) show ?thesis unfolding admin_kubeconfig_def by blast
qed

lemma genarateKubeconfig_wp:
  "wp (genarateKubeconfig E k host)
     (\<lambda>r es s'. es = [Read ''Get Secret''] \<and> mcp s' = mcp s \<and> cluster s' = cluster s \<and>
        (\<forall>c. r = Inr c \<longrightarrow> admin_kubeconfig E k host c)) s"
  unfolding genarateKubeconfig_def
  by (intro wp) (simp_all, (rule admin_kubeconfigI, assumption+)?)

lemma client_from_secret_wp:
  "wp (client_from_secret E k)
     (\<lambda>r es s'. es = Read ''Get Secret'' # (case r of Inl _ \<Rightarrow> [] | Inr kc \<Rightarrow> [Connected kc]) \<and>
        mcp s' = mcp s \<and> cluster s' = cluster s) s"
  unfolding client_from_secret_def by (intro wp) auto

lemma connecting_Cons [simp]:
  assumes "secret_only e" and "\<not> connects e" and "\<not> closes e" and "\<not> touches_workload e"
  shows "connecting r (e # es) = connecting r es"
proof
  assume "connecting r (e # es)"
  then obtain es0 where "\<forall>x \<in> set es0. secret_only x \<and> \<not> connects x \<and> \<not> closes x \<and> \<not> touches_workload x"
    and "e # es = es0 @ (case r of Inl _ \<Rightarrow> [] | Inr kc \<Rightarrow> [Connected kc])"
    unfolding connecting_def by blast
  with assms(2) show "connecting r es"
    unfolding connecting_def by (cases es0; cases r) auto
next
  assume "connecting r es"
  with assms show "connecting r (e # es)"
    unfolding connecting_def by (metis append_Cons set_ConsD)
qed

lemma connecting_simps [simp]:
  "connecting (Inl e) []" "connecting (Inr kc) [Connected kc]"
  by (simp_all add: connecting_def)

lemma kubeconfigForCluster_connects:
  "wp (kubeconfigForCluster E k)
     (\<lambda>r es s'. connecting r es \<and> mcp s' = mcp s \<and> cluster s' = cluster s) s"
  unfolding kubeconfigForCluster_def
  by (intro wp wp_conseq [OF genarateKubeconfig_wp] wp_conseq [OF client_from_secret_wp])
     (auto split: sum.splits)

interpretation kube: client_provider kubeconfigForCluster
  by unfold_locales (rule kubeconfigForCluster_connects)

subsection \<open>The kubeconfig secret\<close>

text \<open>
  A secret is created only for a cluster with a valid endpoint, under the cluster's name, and holds the
  template filled in with that endpoint.
\<close>

definition stores_kubeconfig :: "'w env \<Rightarrow> ObjectKey \<Rightarrow> Secret \<Rightarrow> bool" where
  "stores_kubeconfig E k x \<longleftrightarrow>
     (\<exists>c w w' config. Client_Get_cluster E k w = (Inr c, w') \<and>
        endpoint_IsValid E (cl_ControlPlaneEndpoint c) \<and>
        admin_kubeconfig E k (ep_Host (cl_ControlPlaneEndpoint c)) config \<and>
        x = kubeconfig_secret E k config)"

lemma kubeconfigForCluster_secret:
  "wp (kubeconfigForCluster E k)
     (\<lambda>r es s'. \<forall>x q. Created (OSecret x) q \<in> set es \<longrightarrow> stores_kubeconfig E k x) s"
  unfolding kubeconfigForCluster_def
  by (intro wp wp_conseq [OF genarateKubeconfig_wp] wp_conseq [OF client_from_secret_wp])
     (auto simp: stores_kubeconfig_def split: sum.splits if_splits)

text \<open>A secret of that name in any namespace keeps the secret from being created.\<close>

lemma kubeconfigForCluster_found:
  assumes "Client_List_secrets E (world s) = (Inr items, w)" and "y \<in> set items"
    and "om_Name (sec_Meta y) = kubeconfig_name k"
  shows "wp (kubeconfigForCluster E k) (\<lambda>r es s'. \<forall>x q. Created x q \<notin> set es) s"
proof -
  have "list_ex (\<lambda>s. om_Name (sec_Meta s) = kubeconfig_name k) items"
    using assms(2,3) by (auto simp: list_ex_iff)
  with assms(1) show ?thesis
    unfolding kubeconfigForCluster_def
    by (intro wp wp_conseq [OF genarateKubeconfig_wp] wp_conseq [OF client_from_secret_wp])
       (auto split: sum.splits)
qed

text \<open>The generated text carries the certificate of the secret that was read.\<close>

lemma genarateKubeconfig_ca:
  assumes "Client_Get_secret E \<lparr>key_Namespace = key_Namespace k, key_Name = key_Name k @ ''-ca''\<rparr> (world s) =
      (Inr sec, w)"
  shows "wp (genarateKubeconfig E k host)
     (\<lambda>r es s'. \<forall>c. r = Inr c \<longrightarrow> (\<exists>cert key. c = fill_template host
        (base64_EncodeToString (secret_data sec ''crt'')) (base64_EncodeToString cert)
        (base64_EncodeToString key))) s"
  unfolding genarateKubeconfig_def by (intro wp) (auto simp: assms)

end
