(* ===== verification/Upgrade.thy ===== *)
theory Upgrade
  imports Kubeconfig
begin

text \<open>
  The in-place upgrade of \<open>reconcile.go\<close>: the upgrade pod, the two wait functions, and the loop
  of \<open>reconcileMachines\<close> that upgrades the nodes of the control plane one after the other. The
  source logs most errors of the loop body and goes on; the models do the same.
\<close>

subsection \<open>The upgrade pod\<close>

definition quote :: string where
  "quote = [CHR 0x22]"

definition apostrophe :: string where
  "apostrophe = [CHR 0x27]"

definition refresh_command :: "string \<Rightarrow> string" where
  "refresh_command channel =
     ''curl -X POST -H '' @ quote @ ''Content-Type: application/json'' @ quote @
     '' --unix-socket /run/snapd.socket -d '' @ apostrophe @ ''{'' @ quote @ ''action'' @ quote @
     '': '' @ quote @ ''refresh'' @ quote @ '','' @ quote @ ''channel'' @ quote @ '':'' @ quote @
     channel @ ''/stable'' @ quote @ ''}'' @ apostrophe @ '' http://localhost/v2/snaps/microk8s''"

definition upgrade_pod :: "'w env \<Rightarrow> string \<Rightarrow> string \<Rightarrow> Pod" where
  "upgrade_pod E nodeName nodeVersion =
     \<lparr>pod_Meta = empty_meta\<lparr>om_Name := ''upgrade-pod''\<rparr>,
      pod_NodeName = nodeName,
      pod_Containers =
        [\<lparr>ct_Name = ''upgrade'',
          ct_Image = ''curlimages/curl:7.87.0'',
          ct_Command = [''su'', ''-c''],
          ct_Privileged = True,
          ct_RunAsUser = 0,
          ct_Args = [refresh_command (strings_TrimPrefix (semver_MajorMinor E nodeVersion) ''v'')],
          ct_VolumeMounts = [\<lparr>vm_Name = ''snapd-socket'', vm_MountPath = ''/run/snapd.socket''\<rparr>]\<rparr>],
      pod_Volumes = [\<lparr>vol_Name = ''snapd-socket'', vol_HostPath = ''/run/snapd.socket''\<rparr>]\<rparr>"

text \<open>An error comes with a nil pod.\<close>

definition createUpgradePod ::
  "'w env \<Rightarrow> kubernetesClient \<Rightarrow> string \<Rightarrow> string \<Rightarrow> ('w st, error + Pod) state" where
  "createUpgradePod E kc nodeName nodeVersion =
     create_pod E kc ''default'' (upgrade_pod E nodeName nodeVersion)"

subsection \<open>Waiting\<close>

text \<open>
  The loop of \<open>waitForNodeUpgrade\<close> with the attempts that are left. The variable \<open>nodeVersion\<close>
  is reassigned in every round, and running out of attempts is a nil error, as in the source.
\<close>

fun wait_attempts ::
  "'w env \<Rightarrow> kubernetesClient \<Rightarrow> string \<Rightarrow> string \<Rightarrow> nat \<Rightarrow> ('w st, error option) state" where
  "wait_attempts E kc nodeName nodeVersion 0 = return None"
| "wait_attempts E kc nodeName nodeVersion (Suc attempts) = do {
     r \<leftarrow> get_node E kc nodeName;
     case r of Inl err \<Rightarrow> return (Some err) | Inr node \<Rightarrow>
     (let currentVersion = semver_MajorMinor E (n_KubeletVersion node);
          nodeVersion = semver_MajorMinor E nodeVersion
      in if strings_HasPrefix currentVersion nodeVersion then return None
         else do {
           sleep E (10 * Second);
           wait_attempts E kc nodeName nodeVersion attempts }) }"

definition waitForNodeUpgrade ::
  "'w env \<Rightarrow> kubernetesClient \<Rightarrow> string \<Rightarrow> string \<Rightarrow> ('w st, error option) state" where
  "waitForNodeUpgrade E kc nodeName nodeVersion = wait_attempts E kc nodeName nodeVersion 60"

text \<open>Every path through the body of the \<open>for\<close> loop leaves it, so there is one round.\<close>

definition waitForPodDeletion ::
  "'w env \<Rightarrow> kubernetesClient \<Rightarrow> string \<Rightarrow> ('w st, error option) state" where
  "waitForPodDeletion E kc podName = do {
     err \<leftarrow> delete_pod E kc ''default'' podName 0;
     sleep E (10 * Second);
     case err of
       Some e \<Rightarrow> if apierrors_IsNotFound E e then return None else return (Some e)
     | None \<Rightarrow> return None }"

subsection \<open>The loop over the machines\<close>

text \<open>
  One round. \<open>Ret (Some rep)\<close> is an early return of \<open>reconcileMachines\<close> with that reply,
  \<open>Ret None\<close> goes on with the next machine. The nil pod of a failed \<open>createUpgradePod\<close> is
  dereferenced only at the end, after the machine object has been updated.
\<close>

definition upgrade_machine ::
  "'w env \<Rightarrow> kubernetesClient \<Rightarrow> Machine \<Rightarrow> ('w st, reply option outcome) state" where
  "upgrade_machine E kc machine =
     (case m_NodeRef machine of
        None \<Rightarrow> return (Panic NilDereference)
      | Some nodeRef \<Rightarrow> do {
     r \<leftarrow> get_node E kc (ref_Name nodeRef);
     case r of Inl err \<Rightarrow> return (Ret (Some (requeue_after (20 * Second), Some err)))
     | Inr node \<Rightarrow> do {
     m \<leftarrow> gets mcp;
     c \<leftarrow> gets cluster;
     pod \<leftarrow> createUpgradePod E kc (om_Name (n_Meta node)) (sp_Version (mcp_Spec m));
     _ \<leftarrow> waitForNodeUpgrade E kc (om_Name (n_Meta node)) (sp_Version (mcp_Spec m));
     sleep E (10 * Second);
     got \<leftarrow> get_machine E
       \<lparr>key_Namespace = om_Namespace (cl_Meta c),
        key_Name = map_get (om_Annotations (n_Meta node)) ''cluster.x-k8s.io/machine''\<rparr>;
     _ \<leftarrow> update_machine E ((snd got)\<lparr>m_Version := Some (sp_Version (mcp_Spec m))\<rparr>);
     sleep E (10 * Second);
     case pod of
       Inl _ \<Rightarrow> return (Panic NilDereference)
     | Inr pod \<Rightarrow> do {
         _ \<leftarrow> waitForPodDeletion E kc (om_Name (pod_Meta pod));
         return (Ret None) } } })"

fun upgrade_machines ::
  "'w env \<Rightarrow> kubernetesClient \<Rightarrow> Machine list \<Rightarrow> ('w st, reply option outcome) state" where
  "upgrade_machines E kc [] = return (Ret None)"
| "upgrade_machines E kc (machine # machines) = do {
     r \<leftarrow> upgrade_machine E kc machine;
     unless_panic r (\<lambda>early. case early of
       Some rep \<Rightarrow> return (Ret (Some rep))
     | None \<Rightarrow> upgrade_machines E kc machines) }"

subsection \<open>Properties of the wait functions\<close>

fun slept :: "event list \<Rightarrow> duration" where
  "slept [] = 0"
| "slept (Slept d # es) = d + slept es"
| "slept (e # es) = slept es"

lemma slept_append [simp]: "slept (es @ es') = slept es + slept es'"
  by (induction es rule: slept.induct) simp_all

abbreviation node_reads :: "event list \<Rightarrow> nat" where
  "node_reads es \<equiv> count_of (\<lambda>e. e = WorkloadRead ''Get Node'') es"

definition waits :: "event list \<Rightarrow> bool" where
  "waits es \<longleftrightarrow> (\<forall>e \<in> set es. e = WorkloadRead ''Get Node'' \<or> e = Slept (10 * Second))"

lemma waits_simps [simp]:
  "waits []" "waits (e # es) \<longleftrightarrow> (e = WorkloadRead ''Get Node'' \<or> e = Slept (10 * Second)) \<and> waits es"
  by (auto simp: waits_def)

lemma Second_pos [simp]: "0 < Second" "0 \<le> Second"
  by (simp_all add: Second_def)

lemma wait_attempts_wp:
  "wp (wait_attempts E kc nodeName v n)
     (\<lambda>r es s'. mcp s' = mcp s \<and> cluster s' = cluster s \<and> waits es \<and>
        node_reads es \<le> n \<and> slept es \<le> int n * (10 * Second)) s"
proof (induction n arbitrary: v s)
  case 0
  show ?case by (simp, rule wp_return) simp
next
  case (Suc n)
  show ?case
    unfolding wait_attempts.simps
    by (intro wp wp_conseq [OF Suc.IH]) (auto simp: algebra_simps)
qed

lemmas waitForNodeUpgrade_wp = wait_attempts_wp [where n = 60, folded waitForNodeUpgrade_def]

text \<open>A node that never reaches the version uses up every attempt, and the wait still succeeds.\<close>

lemma wait_attempts_exhausted:
  assumes "\<And>w. \<exists>node w'. Nodes_Get E (kc_Clientset kc) nodeName w = (Inr node, w') \<and>
      \<not> strings_HasPrefix (semver_MajorMinor E (n_KubeletVersion node)) (semver_MajorMinor E v)"
    and "\<And>u. semver_MajorMinor E (semver_MajorMinor E u) = semver_MajorMinor E u"
  shows "wp (wait_attempts E kc nodeName v n)
     (\<lambda>r es s'. r = None \<and> node_reads es = n \<and> slept es = int n * (10 * Second)) s"
  using assms(1)
proof (induction n arbitrary: v s)
  case 0
  show ?case by (simp, rule wp_return) simp
next
  case (Suc n v s)
  have next_round: "\<exists>node w'. Nodes_Get E (kc_Clientset kc) nodeName w = (Inr node, w') \<and>
      \<not> strings_HasPrefix (semver_MajorMinor E (n_KubeletVersion node))
           (semver_MajorMinor E (semver_MajorMinor E v))" for w
    using Suc.prems [of w] by (simp only: assms(2))
  obtain node w where "Nodes_Get E (kc_Clientset kc) nodeName (world s) = (Inr node, w)"
    and "\<not> strings_HasPrefix (semver_MajorMinor E (n_KubeletVersion node)) (semver_MajorMinor E v)"
    using Suc.prems by blast
  then show ?case
    unfolding wait_attempts.simps
    by (intro wp wp_conseq [OF Suc.IH [OF next_round]]) (auto simp: algebra_simps)
qed

lemma waitForPodDeletion_wp:
  "wp (waitForPodDeletion E kc podName)
     (\<lambda>r es s'. mcp s' = mcp s \<and> cluster s' = cluster s \<and>
        (\<exists>e. es = [PodDeleted podName e, Slept (10 * Second)] \<and>
           r = (case e of None \<Rightarrow> None | Some x \<Rightarrow> if apierrors_IsNotFound E x then None else Some x))) s"
  unfolding waitForPodDeletion_def by (intro wp) auto

subsection \<open>Properties of the loop\<close>

text \<open>The calls of an upgrade to version \<open>v\<close>: a machine is only ever written with that version.\<close>

fun upgrading :: "string \<Rightarrow> event \<Rightarrow> bool" where
  "upgrading v (Updated (OMachine x) r) \<longleftrightarrow> m_Version x = Some v"
| "upgrading v (WorkloadCreated (OPod p) r) \<longleftrightarrow> True"
| "upgrading v (PodDeleted n r) \<longleftrightarrow> True"
| "upgrading v e \<longleftrightarrow> observes e \<and> \<not> connects e \<and> \<not> closes e"

lemma waits_upgrading: "waits es \<Longrightarrow> \<forall>e \<in> set es. upgrading v e \<and> \<not> updates_machine e"
  by (auto simp: waits_def)

lemma waits_no_update: "waits es \<Longrightarrow> filter updates_machine es = []"
  by (auto simp: waits_def filter_empty_conv)

text \<open>
  What one round does, for the version \<open>v\<close> and the namespace \<open>ns\<close>: the calls with their arguments, tied to
  the answers they depend on. The machine that is written is the one the annotation of the node names.
\<close>

definition version_written ::
  "'w env \<Rightarrow> string \<Rightarrow> Node \<Rightarrow> error option \<Rightarrow> event list \<Rightarrow> Machine \<Rightarrow> error option \<Rightarrow> event list" where
  "version_written E v node podErr waiting x q =
     [WorkloadRead ''Get Node'', WorkloadCreated (OPod (upgrade_pod E (om_Name (n_Meta node)) v)) podErr] @
     waiting @
     [Slept (10 * Second), Read ''Get Machine'', Updated (OMachine (x\<lparr>m_Version := Some v\<rparr>)) q,
      Slept (10 * Second)]"

definition annotated_machine :: "string \<Rightarrow> Node \<Rightarrow> ObjectKey" where
  "annotated_machine ns node =
     \<lparr>key_Namespace = ns, key_Name = map_get (om_Annotations (n_Meta node)) ''cluster.x-k8s.io/machine''\<rparr>"

inductive upgrade_round ::
  "'w env \<Rightarrow> kubernetesClient \<Rightarrow> string \<Rightarrow> string \<Rightarrow> Machine \<Rightarrow> reply option outcome \<Rightarrow> event list \<Rightarrow> bool"
  for E :: "'w env" and kc :: kubernetesClient and v :: string and ns :: string and m :: Machine where
  no_reference:
    "m_NodeRef m = None \<Longrightarrow> upgrade_round E kc v ns m (Panic NilDereference) []"
| node_unread:
    "m_NodeRef m = Some ref \<Longrightarrow> Nodes_Get E (kc_Clientset kc) (ref_Name ref) w = (Inl err, w') \<Longrightarrow>
     upgrade_round E kc v ns m (Ret (Some (requeue_after (20 * Second), Some err)))
       [WorkloadRead ''Get Node'']"
| pod_refused:
    "m_NodeRef m = Some ref \<Longrightarrow> Nodes_Get E (kc_Clientset kc) (ref_Name ref) w = (Inr node, w') \<Longrightarrow>
     waits waiting \<Longrightarrow> node_reads waiting \<le> 60 \<Longrightarrow>
     Client_Get_machine E (annotated_machine ns node) u = ((got, x), u') \<Longrightarrow>
     upgrade_round E kc v ns m (Panic NilDereference) (version_written E v node (Some err) waiting x q)"
| node_upgraded:
    "m_NodeRef m = Some ref \<Longrightarrow> Nodes_Get E (kc_Clientset kc) (ref_Name ref) w = (Inr node, w') \<Longrightarrow>
     Pods_Create E (kc_Clientset kc) ''default'' (upgrade_pod E (om_Name (n_Meta node)) v) z = (Inr pod, z') \<Longrightarrow>
     waits waiting \<Longrightarrow> node_reads waiting \<le> 60 \<Longrightarrow>
     Client_Get_machine E (annotated_machine ns node) u = ((got, x), u') \<Longrightarrow>
     upgrade_round E kc v ns m (Ret None)
       (version_written E v node None waiting x q @
        [PodDeleted (om_Name (pod_Meta pod)) e, Slept (10 * Second)])"

text \<open>The rounds of the loop, in the order of the machines, up to the first that does not come to its end.\<close>

inductive upgrade_run ::
  "'w env \<Rightarrow> kubernetesClient \<Rightarrow> string \<Rightarrow> string \<Rightarrow> Machine list \<Rightarrow> reply option outcome \<Rightarrow> event list \<Rightarrow> bool"
  for E :: "'w env" and kc :: kubernetesClient and v :: string and ns :: string where
  no_machine_left: "upgrade_run E kc v ns [] (Ret None) []"
| next_machine:
    "upgrade_round E kc v ns m (Ret None) es \<Longrightarrow> upgrade_run E kc v ns ms r es' \<Longrightarrow>
     upgrade_run E kc v ns (m # ms) r (es @ es')"
| stopped:
    "upgrade_round E kc v ns m (Ret (Some rep)) es \<Longrightarrow> upgrade_run E kc v ns (m # ms) (Ret (Some rep)) es"
| panicked:
    "upgrade_round E kc v ns m (Panic p) es \<Longrightarrow> upgrade_run E kc v ns (m # ms) (Panic p) es"

lemma upgrade_machine_round:
  "wp (upgrade_machine E kc m)
     (\<lambda>r es s'. mcp s' = mcp s \<and> cluster s' = cluster s \<and>
        upgrade_round E kc (sp_Version (mcp_Spec (mcp s))) (om_Namespace (cl_Meta (cluster s))) m r es) s"
  unfolding upgrade_machine_def createUpgradePod_def
  by (intro wp wp_conseq [OF waitForNodeUpgrade_wp] wp_conseq [OF waitForPodDeletion_wp])
     (auto intro: no_reference node_unread
        pod_refused [unfolded version_written_def annotated_machine_def append_Cons append_Nil append_assoc]
        node_upgraded [unfolded version_written_def annotated_machine_def append_Cons append_Nil append_assoc])

lemma upgrade_machines_run:
  "wp (upgrade_machines E kc ms)
     (\<lambda>r es s'. mcp s' = mcp s \<and> cluster s' = cluster s \<and>
        upgrade_run E kc (sp_Version (mcp_Spec (mcp s))) (om_Namespace (cl_Meta (cluster s))) ms r es) s"
proof (induction ms arbitrary: s)
  case Nil
  show ?case by (simp, rule wp_return) (simp add: no_machine_left)
next
  case (Cons m ms)
  show ?case
    unfolding upgrade_machines.simps
    by (intro wp wp_conseq [OF upgrade_machine_round] wp_conseq [OF Cons.IH])
       (auto intro: upgrade_run.intros)
qed

text \<open>What a run of the loop amounts to.\<close>

lemma version_written_calls:
  assumes "waits waiting"
  shows "\<forall>e \<in> set (version_written E v node p waiting x q). upgrading v e"
    and "filter updates_machine (version_written E v node p waiting x q) =
      [Updated (OMachine (x\<lparr>m_Version := Some v\<rparr>)) q]"
  using waits_upgrading [OF assms, of v] by (auto simp: version_written_def filter_empty_conv)

lemma upgrade_round_calls:
  assumes "upgrade_round E kc v ns m r es"
  shows "\<forall>e \<in> set es. upgrading v e" and "count_of updates_machine es \<le> 1"
    and "r = Ret None \<Longrightarrow> count_of updates_machine es = 1"
  using assms by (cases rule: upgrade_round.cases; auto simp: version_written_calls)+

lemma upgrade_run_calls:
  assumes "upgrade_run E kc v ns ms r es"
  shows "(\<forall>e \<in> set es. upgrading v e) \<and> count_of updates_machine es \<le> length ms \<and>
    (r = Ret None \<longrightarrow> count_of updates_machine es = length ms)"
  using assms
proof induction
  case (next_machine m es ms r es')
  then show ?case using upgrade_round_calls [OF next_machine(1)] by auto
next
  case (stopped m rep es ms)
  then show ?case using upgrade_round_calls [OF stopped] by auto
next
  case (panicked m p es ms)
  then show ?case using upgrade_round_calls [OF panicked] by auto
qed simp

end
