(* ===== verification/Creation_Order.thy ===== *)
theory Creation_Order
  imports Calls "HOL-Library.Multiset"
begin

text \<open>
  \<open>controllers/utils.go\<close>: the \<open>sort.Interface\<close> that orders machines by creation timestamp, and
  the part of the standard library's \<open>sort.Sort\<close> that uses it. Up to twelve elements
  \<open>sort.Sort\<close> is the insertion sort below, through the three methods of the interface; beyond
  that it is pattern-defeating quicksort, whose order of equal elements is unspecified and which
  is a parameter here.
\<close>

subsection \<open>The interface\<close>

definition SortByCreationTimestamp_Len :: "Machine list \<Rightarrow> nat" where
  "SortByCreationTimestamp_Len it = length it"

definition SortByCreationTimestamp_Less :: "Machine list \<Rightarrow> nat \<Rightarrow> nat \<Rightarrow> bool" where
  "SortByCreationTimestamp_Less it i j \<longleftrightarrow>
     om_CreationTimestamp (m_Meta (it ! j)) > om_CreationTimestamp (m_Meta (it ! i))"

definition SortByCreationTimestamp_Swap :: "Machine list \<Rightarrow> nat \<Rightarrow> nat \<Rightarrow> Machine list" where
  "SortByCreationTimestamp_Swap it i j = it[i := it ! j, j := it ! i]"

subsection \<open>Insertion sort over a sort.Interface\<close>

text \<open>The inner loop \<open>for j := i; j > a && Less(j, j-1); j-- { Swap(j, j-1) }\<close>.\<close>

fun sort_sink :: "('c \<Rightarrow> nat \<Rightarrow> nat \<Rightarrow> bool) \<Rightarrow> ('c \<Rightarrow> nat \<Rightarrow> nat \<Rightarrow> 'c) \<Rightarrow> nat \<Rightarrow> 'c \<Rightarrow> 'c" where
  "sort_sink Less Swap 0 c = c"
| "sort_sink Less Swap (Suc j) c =
     (if Less c (Suc j) j then sort_sink Less Swap j (Swap c (Suc j) j) else c)"

definition sort_insertionSort ::
  "('c \<Rightarrow> nat) \<Rightarrow> ('c \<Rightarrow> nat \<Rightarrow> nat \<Rightarrow> bool) \<Rightarrow> ('c \<Rightarrow> nat \<Rightarrow> nat \<Rightarrow> 'c) \<Rightarrow> 'c \<Rightarrow> 'c" where
  "sort_insertionSort Len Less Swap c = fold (sort_sink Less Swap) [1 ..< Len c] c"

locale sort_interface =
  fixes Len :: "'c \<Rightarrow> nat"
    and Less :: "'c \<Rightarrow> nat \<Rightarrow> nat \<Rightarrow> bool"
    and Swap :: "'c \<Rightarrow> nat \<Rightarrow> nat \<Rightarrow> 'c"
    and elems :: "'c \<Rightarrow> 'a list"
    and key :: "'a \<Rightarrow> 'k::linorder"
  assumes Len: "Len c = length (elems c)"
    and Less: "i < length (elems c) \<Longrightarrow> j < length (elems c) \<Longrightarrow>
      Less c i j \<longleftrightarrow> key (elems c ! i) < key (elems c ! j)"
    and Swap: "i < length (elems c) \<Longrightarrow> j < length (elems c) \<Longrightarrow>
      elems (Swap c i j) = (elems c)[i := elems c ! j, j := elems c ! i]"
begin

lemma swap_adjacent:
  assumes "elems c = xs @ y # x # zs" and "n = length xs"
  shows "elems (Swap c (Suc n) n) = xs @ x # y # zs"
  using assms by (simp add: Swap nth_append list_update_append)

lemma less_adjacent:
  assumes "elems c = xs @ y # x # zs" and "n = length xs"
  shows "Less c (Suc n) n \<longleftrightarrow> key x < key y"
  using assms by (simp add: Less nth_append)

text \<open>One round moves the next element left over the larger ones of a sorted prefix.\<close>

lemma sink_sorted:
  assumes "elems c = xs @ x # zs" and "sorted (map key xs)"
  shows "elems (sort_sink Less Swap (length xs) c) =
     takeWhile (\<lambda>y. key y \<le> key x) xs @ x # dropWhile (\<lambda>y. key y \<le> key x) xs @ zs"
  using assms
proof (induction xs arbitrary: c zs rule: rev_induct)
  case Nil
  then show ?case by simp
next
  case (snoc y xs)
  from snoc.prems(1) have c: "elems c = xs @ y # x # zs" by simp
  from snoc.prems(2) have sorted: "sorted (map key xs)" and le: "\<forall>z \<in> set xs. key z \<le> key y"
    by (auto simp: sorted_append)
  show ?case
  proof (cases "key x < key y")
    case True
    from snoc.IH [OF swap_adjacent [OF c refl] sorted]
    have "elems (sort_sink Less Swap (length xs) (Swap c (Suc (length xs)) (length xs))) =
       takeWhile (\<lambda>y. key y \<le> key x) xs @ x # dropWhile (\<lambda>y. key y \<le> key x) xs @ y # zs" .
    with True less_adjacent [OF c refl] show ?thesis
      by (auto simp: takeWhile_append dropWhile_append)
  next
    case False
    with le have "\<forall>z \<in> set (xs @ [y]). key z \<le> key x" by auto
    then have "takeWhile (\<lambda>y. key y \<le> key x) (xs @ [y]) = xs @ [y]"
      and "dropWhile (\<lambda>y. key y \<le> key x) (xs @ [y]) = []"
      by (auto simp: takeWhile_eq_all_conv)
    with False less_adjacent [OF c refl] c show ?thesis by simp
  qed
qed

lemma sorted_insert_middle:
  assumes "sorted (map key (t @ d))" and "\<forall>y \<in> set t. key y \<le> key x"
    and "\<forall>y \<in> set d. key x < key y"
  shows "sorted (map key (t @ x # d))"
  using assms by (auto simp: sorted_append)

lemma filter_insert_middle:
  assumes "\<forall>y \<in> set d. key x < key y"
  shows "filter (\<lambda>y. k = key y) (t @ x # d) =
    filter (\<lambda>y. k = key y) (t @ d) @ filter (\<lambda>y. k = key y) [x]"
proof (cases "k = key x")
  case True
  with assms have "filter (\<lambda>y. k = key y) d = []" by (auto simp: filter_empty_conv)
  with True show ?thesis by simp
qed simp

lemma above_after_dropWhile:
  assumes "sorted (map key ys)"
  shows "\<forall>y \<in> set (dropWhile (\<lambda>y. key y \<le> k) ys). k < key y"
  using assms by (induction ys) (auto simp: not_le intro: less_le_trans)

lemma sort_key_snoc:
  "takeWhile (\<lambda>y. key y \<le> key x) (sort_key key xs) @ x #
     dropWhile (\<lambda>y. key y \<le> key x) (sort_key key xs) = sort_key key (xs @ [x])"
proof -
  obtain t d where t: "t = takeWhile (\<lambda>y. key y \<le> key x) (sort_key key xs)"
    and d: "d = dropWhile (\<lambda>y. key y \<le> key x) (sort_key key xs)" by blast
  then have td: "t @ d = sort_key key xs" by simp
  have le: "\<forall>y \<in> set t. key y \<le> key x" unfolding t by (auto dest: set_takeWhileD)
  have gt: "\<forall>y \<in> set d. key x < key y" unfolding d by (rule above_after_dropWhile) simp
  have "sort_key key (xs @ [x]) = t @ x # d"
  proof (rule properties_for_sort_key)
    have "mset (t @ x # d) = add_mset x (mset (t @ d))" by simp
    then show "mset (t @ x # d) = mset (xs @ [x])" by (simp only: td) simp
    show "sorted (map key (t @ x # d))"
      using le gt by (rule sorted_insert_middle [rotated]) (simp add: td)
    show "filter (\<lambda>y. key k = key y) (t @ x # d) = filter (\<lambda>y. key k = key y) (xs @ [x])" for k
      using sort_key_stable [of key "key k" xs]
      by (simp only: filter_insert_middle [OF gt] td) (simp add: eq_commute)
  qed
  then show ?thesis unfolding t d by simp
qed

lemma rounds:
  "n \<le> length (elems c) \<Longrightarrow>
   elems (fold (sort_sink Less Swap) [1 ..< n] c) = sort_key key (take n (elems c)) @ drop n (elems c)"
proof (induction n)
  case 0
  then show ?case by simp
next
  case (Suc n)
  show ?case
  proof (cases n)
    case 0
    with Suc.prems show ?thesis by (cases "elems c") auto
  next
    case (Suc m)
    let ?x = "elems c ! n"
    let ?p = "sort_key key (take n (elems c))"
    from Suc.prems have d: "drop n (elems c) = ?x # drop (Suc n) (elems c)"
      and t: "take (Suc n) (elems c) = take n (elems c) @ [?x]"
      by (simp_all add: Cons_nth_drop_Suc take_Suc_conv_app_nth)
    have "elems (fold (sort_sink Less Swap) [1 ..< n] c) = ?p @ ?x # drop (Suc n) (elems c)"
      using Suc.IH Suc.prems by (simp add: d)
    moreover have "length ?p = n" using Suc.prems by simp
    ultimately have "elems (sort_sink Less Swap n (fold (sort_sink Less Swap) [1 ..< n] c)) =
        sort_key key (take n (elems c) @ [?x]) @ drop (Suc n) (elems c)"
      using sink_sorted [of _ ?p ?x] sort_key_snoc [of ?x "take n (elems c)"] by simp
    moreover have "[1 ..< Suc n] = [1 ..< n] @ [n]" using \<open>n = Suc m\<close> by simp
    ultimately show ?thesis by (simp only: t fold_append fold.simps comp_apply id_apply)
  qed
qed

text \<open>Go's insertion sort computes the stable sort of the elements by their key.\<close>

lemma insertionSort_sort_key:
  "elems (sort_insertionSort Len Less Swap c) = sort_key key (elems c)"
  using rounds [of "length (elems c)" c] by (simp add: sort_insertionSort_def Len)

end

subsection \<open>Sorting machines\<close>

abbreviation creation :: "Machine \<Rightarrow> time" where
  "creation m \<equiv> om_CreationTimestamp (m_Meta m)"

interpretation by_creation: sort_interface
  SortByCreationTimestamp_Len SortByCreationTimestamp_Less SortByCreationTimestamp_Swap
  "\<lambda>it. it" creation
  by unfold_locales
     (simp_all add: SortByCreationTimestamp_Len_def SortByCreationTimestamp_Less_def
        SortByCreationTimestamp_Swap_def)

text \<open>\<open>sort.Sort(SortByCreationTimestamp(machines))\<close>.\<close>

definition sort_machines :: "'w env \<Rightarrow> Machine list \<Rightarrow> Machine list" where
  "sort_machines E ms =
     (if length ms \<le> 12
      then sort_insertionSort SortByCreationTimestamp_Len SortByCreationTimestamp_Less
             SortByCreationTimestamp_Swap ms
      else sort_pdqsort E ms)"

text \<open>What \<open>sort.Sort\<close> documents: a permutation of its input, in ascending order.\<close>

definition sort_contract :: "'w env \<Rightarrow> bool" where
  "sort_contract E \<longleftrightarrow>
     (\<forall>ms. mset (sort_pdqsort E ms) = mset ms \<and> sorted (map creation (sort_pdqsort E ms)))"

lemma sort_machines_small: "length ms \<le> 12 \<Longrightarrow> sort_machines E ms = sort_key creation ms"
  using by_creation.insertionSort_sort_key by (simp add: sort_machines_def)

lemma mset_sort_machines: "sort_contract E \<Longrightarrow> mset (sort_machines E ms) = mset ms"
  by (cases "length ms \<le> 12")
     (simp_all add: sort_machines_small sort_contract_def, simp add: sort_machines_def)

lemma sorted_sort_machines: "sort_contract E \<Longrightarrow> sorted (map creation (sort_machines E ms))"
  by (cases "length ms \<le> 12")
     (simp_all add: sort_machines_small sort_contract_def, simp add: sort_machines_def)

lemma length_sort_machines: "sort_contract E \<Longrightarrow> length (sort_machines E ms) = length ms"
  by (metis mset_sort_machines size_mset)

lemma set_sort_machines: "sort_contract E \<Longrightarrow> set (sort_machines E ms) = set ms"
  by (metis mset_sort_machines set_mset_mset)

lemma oldest_first:
  assumes "sort_contract E" and "m \<in> set ms"
  shows "creation (sort_machines E ms ! 0) \<le> creation m"
proof -
  from assms have "m \<in> set (sort_machines E ms)" by (simp add: set_sort_machines)
  then show ?thesis using sorted_sort_machines [OF assms(1), of ms]
    by (cases "sort_machines E ms") auto
qed

end
