(* ===== verification/Scale_Down.thy ===== *)
theory Scale_Down
  imports Upgrade Creation_Order
begin

text \<open>
  \<open>scaleDownControlPlane\<close> of \<open>reconcile.go\<close>: removing one machine from the control plane, together
  with its node. The scan over the machines is separated into its decision, a function of the
  list alone, and the calls that follow from it.
\<close>

definition deleting :: "Machine \<Rightarrow> bool" where
  "deleting m \<longleftrightarrow> \<not> IsZero (om_DeletionTimestamp (m_Meta m))"

text \<open>
  The loop \<open>for i := len(machines)-1; i >= 0; i--\<close>, over the reversed list, with the current
  \<open>deleteMachine\<close>. \<open>Inl\<close> is an early return. A machine in deletion without a node reference is
  dereferenced.
\<close>

fun scale_down_scan ::
  "'w env \<Rightarrow> kubernetesClient \<Rightarrow> Machine list \<Rightarrow> Machine \<Rightarrow> ('w st, (reply + Machine) outcome) state"
where
  "scale_down_scan E kc [] deleteMachine = return (Ret (Inr deleteMachine))"
| "scale_down_scan E kc (machine # machines) deleteMachine =
     (if deleting machine then
        (case m_NodeRef machine of
           None \<Rightarrow> return (Panic NilDereference)
         | Some nodeRef \<Rightarrow> do {
             r \<leftarrow> get_node E kc (ref_Name nodeRef);
             case r of
               Inl err \<Rightarrow>
                 if apierrors_IsNotFound E err
                 then return (Ret (Inl (requeue_after (20 * Second), None)))
                 else return (Ret (Inl (requeue_after (20 * Second), Some err)))
             | Inr node \<Rightarrow> do {
                 e \<leftarrow> delete_node E kc (om_Name (n_Meta node));
                 case e of
                   Some err \<Rightarrow> return (Ret (Inl (requeue_after (20 * Second), Some err)))
                 | None \<Rightarrow> return (Ret (Inl (requeue_after (20 * Second), None))) } })
      else if m_NodeRef machine = None
      then return (Ret (Inl (requeue_after (10 * Second), None)))
      else scale_down_scan E kc machines
             (if creation machine < creation deleteMachine then machine else deleteMachine))"

definition delete_machine_and_node ::
  "'w env \<Rightarrow> kubernetesClient \<Rightarrow> Machine \<Rightarrow> ('w st, reply outcome) state" where
  "delete_machine_and_node E kc deleteMachine =
     (case m_NodeRef deleteMachine of
        None \<Rightarrow> return (Ret (requeue_after (20 * Second),
          Some (Errorf ''%q machine does not have a nodeRef'' [om_Name (m_Meta deleteMachine)])))
      | Some node \<Rightarrow> do {
          e \<leftarrow> delete_machine E deleteMachine;
          case e of
            Some err \<Rightarrow> return (Ret (no_requeue, Some err))
          | None \<Rightarrow> do {
              e \<leftarrow> delete_node E kc (ref_Name node);
              case e of
                Some err \<Rightarrow> return (Ret (requeue_after (20 * Second), Some err))
              | None \<Rightarrow> return (Ret (requeue_now, None)) } })"

definition scaleDownControlPlane ::
  "'w env \<Rightarrow> ObjectKey \<Rightarrow> string \<Rightarrow> Machine list \<Rightarrow> ('w st, reply outcome) state" where
  "scaleDownControlPlane E cluster_key cpName machines =
     (if machines = [] then return (Ret (no_requeue, Some (Errorf ''no machines found'' [])))
      else do {
        r \<leftarrow> kubeconfigForCluster E cluster_key;
        case r of
          Inl err \<Rightarrow> return (Ret (requeue_after (20 * Second), Some err))
        | Inr kubeclient \<Rightarrow> deferring (Close E kubeclient) (do {
            r \<leftarrow> scale_down_scan E kubeclient (rev machines) (last machines);
            unless_panic r (\<lambda>x. case x of
              Inl rep \<Rightarrow> return (Ret rep)
            | Inr deleteMachine \<Rightarrow> delete_machine_and_node E kubeclient deleteMachine) }) })"

subsection \<open>The decision of the scan\<close>

datatype verdict = InDeletion Machine | Unbooted Machine | Victim Machine

fun scan_verdict :: "Machine list \<Rightarrow> Machine \<Rightarrow> verdict" where
  "scan_verdict [] d = Victim d"
| "scan_verdict (m # ms) d =
     (if deleting m then InDeletion m
      else if m_NodeRef m = None then Unbooted m
      else scan_verdict ms (if creation m < creation d then m else d))"

text \<open>Every machine has a node and none is on its way out.\<close>

definition settled :: "Machine list \<Rightarrow> bool" where
  "settled ms \<longleftrightarrow> (\<forall>m \<in> set ms. \<not> deleting m \<and> m_NodeRef m \<noteq> None)"

definition oldest_of :: "Machine \<Rightarrow> Machine list \<Rightarrow> bool" where
  "oldest_of d ms \<longleftrightarrow> d \<in> set ms \<and> (\<forall>m \<in> set ms. creation d \<le> creation m)"

lemma scan_verdict_Victim:
  "scan_verdict ms d = Victim x \<longleftrightarrow>
     settled ms \<and> x = fold (\<lambda>m d. if creation m < creation d then m else d) ms d"
  by (induction ms arbitrary: d) (auto simp: settled_def)

lemma fold_oldest:
  "oldest_of (fold (\<lambda>m d. if creation m < creation d then m else d) ms d) (d # ms)"
proof (induction ms arbitrary: d)
  case (Cons m ms)
  from Cons [of "if creation m < creation d then m else d"] show ?case
    by (auto simp: oldest_of_def split: if_splits)
qed (simp add: oldest_of_def)

lemma scan_oldest:
  assumes "scan_verdict (rev ms) (last ms) = Victim x" and "ms \<noteq> []"
  shows "settled ms" and "oldest_of x ms"
proof -
  from assms(1) show "settled ms" by (auto simp: scan_verdict_Victim settled_def)
  from assms fold_oldest [of "rev ms" "last ms"] show "oldest_of x ms"
    by (auto simp: scan_verdict_Victim oldest_of_def)
qed

lemma scan_verdict_member:
  "scan_verdict ms d = InDeletion x \<Longrightarrow> x \<in> set ms \<and> deleting x"
  "scan_verdict ms d = Unbooted x \<Longrightarrow> x \<in> set ms \<and> \<not> deleting x \<and> m_NodeRef x = None"
  by (induction ms arbitrary: d) (auto split: if_splits)

lemma scan_verdict_settled: "settled ms \<Longrightarrow> \<exists>x. scan_verdict (rev ms) d = Victim x"
  by (auto simp: scan_verdict_Victim settled_def)

text \<open>
  The verdict over the whole list without the order of the scan: the machine that stops it has only
  settled machines behind it, and the victim is the last of the oldest machines.
\<close>

definition only_settled_after :: "Machine list \<Rightarrow> Machine \<Rightarrow> bool" where
  "only_settled_after ms m \<longleftrightarrow> (\<exists>pre post. ms = pre @ m # post \<and> settled post)"

definition victim_of :: "Machine list \<Rightarrow> Machine \<Rightarrow> bool" where
  "victim_of ms m \<longleftrightarrow> settled ms \<and> (\<exists>pre post. ms = pre @ m # post \<and>
     (\<forall>x \<in> set pre. creation m \<le> creation x) \<and> (\<forall>x \<in> set post. creation m < creation x))"

lemma settled_simps [simp]:
  "settled []" "settled (xs @ ys) \<longleftrightarrow> settled xs \<and> settled ys" "settled (rev xs) = settled xs"
  "settled (x # xs) \<longleftrightarrow> \<not> deleting x \<and> m_NodeRef x \<noteq> None \<and> settled xs"
  by (auto simp: settled_def)

lemma rev_split: "rev xs = pre @ x # post \<Longrightarrow> xs = rev post @ x # rev pre"
  by (simp add: rev_eq_append_conv)

lemma scan_verdict_stop:
  "case scan_verdict ms d of
     InDeletion m \<Rightarrow> \<exists>pre post. ms = pre @ m # post \<and> settled pre \<and> deleting m
   | Unbooted m \<Rightarrow> \<exists>pre post. ms = pre @ m # post \<and> settled pre \<and> \<not> deleting m \<and> m_NodeRef m = None
   | Victim m \<Rightarrow> True"
proof (induction ms arbitrary: d)
  case (Cons x xs)
  have skip: "\<exists>pre post. x # xs = pre @ m # post \<and> settled pre \<and> P m"
    if "\<exists>pre post. xs = pre @ m # post \<and> settled pre \<and> P m" and "settled [x]" for m and P :: "Machine \<Rightarrow> bool"
    using that by (metis append_Cons settled_simps(1,4))
  show ?case
  proof (cases "settled [x]")
    case True
    then obtain d' where d': "scan_verdict (x # xs) d = scan_verdict xs d'" by auto
    from Cons.IH [of d'] show ?thesis
      unfolding d' by (cases "scan_verdict xs d'") (simp_all only: verdict.case skip [OF _ True, of _ deleting]
          skip [OF _ True, of _ "\<lambda>m. \<not> deleting m \<and> m_NodeRef m = None"])
  qed (auto intro: exI [of _ "[]"])
qed simp

lemma fold_first_oldest:
  "\<exists>pre post. d # ms = pre @ fold (\<lambda>m d. if creation m < creation d then m else d) ms d # post \<and>
     (\<forall>x \<in> set pre. creation (fold (\<lambda>m d. if creation m < creation d then m else d) ms d) < creation x) \<and>
     (\<forall>x \<in> set post. creation (fold (\<lambda>m d. if creation m < creation d then m else d) ms d) \<le> creation x)"
proof (induction ms rule: rev_induct)
  case (snoc y ys)
  let ?x = "fold (\<lambda>m d. if creation m < creation d then m else d) ys d"
  from snoc obtain pre post where split: "d # ys = pre @ ?x # post"
    and pre: "\<forall>x \<in> set pre. creation ?x < creation x"
    and post: "\<forall>x \<in> set post. creation ?x \<le> creation x" by blast
  show ?case
  proof (cases "creation y < creation ?x")
    case True
    have "\<forall>x \<in> set (d # ys). creation y < creation x"
      unfolding split using True pre post by fastforce
    then show ?thesis using True by (intro exI [of _ "d # ys"] exI [of _ "[]"]) simp
  next
    case False
    then show ?thesis
      using split pre post by (intro exI [of _ pre] exI [of _ "post @ [y]"]) auto
  qed
qed (intro exI [of _ "[]"], simp)

lemma scan_verdict_whole:
  "scan_verdict (rev ms) d = InDeletion m \<Longrightarrow> only_settled_after ms m \<and> deleting m"
  "scan_verdict (rev ms) d = Unbooted m \<Longrightarrow>
     only_settled_after ms m \<and> \<not> deleting m \<and> m_NodeRef m = None"
  using scan_verdict_stop [of "rev ms" d] unfolding only_settled_after_def
  by (simp, metis rev_split settled_simps(3))+

lemma scan_verdict_victim:
  assumes "scan_verdict (rev ms) (last ms) = Victim m" and "ms \<noteq> []"
  shows "victim_of ms m"
proof -
  from assms(2) obtain ys where ys: "rev ms = last ms # ys" by (cases ms rule: rev_cases) auto
  with assms(1) have "m = fold (\<lambda>m d. if creation m < creation d then m else d) ys (last ms)"
    by (simp add: scan_verdict_Victim del: scan_verdict.simps)
  with fold_first_oldest [of "last ms" ys] obtain pre post where split: "rev ms = pre @ m # post"
    and "\<forall>x \<in> set pre. creation m < creation x" and "\<forall>x \<in> set post. creation m \<le> creation x"
    unfolding ys by blast
  moreover have "settled ms" using assms(1) by (auto simp: scan_verdict_Victim)
  ultimately show ?thesis unfolding victim_of_def using rev_split [OF split] by (metis set_rev)
qed

lemma victim_ofD:
  assumes "victim_of ms m"
  shows "settled ms" and "oldest_of m ms" and "ms \<noteq> []" and "\<exists>node. m_NodeRef m = Some node"
  using assms unfolding victim_of_def oldest_of_def by fastforce+

lemma only_settled_after_not_settled:
  "only_settled_after ms m \<Longrightarrow> settled ms \<Longrightarrow> \<not> deleting m \<and> m_NodeRef m \<noteq> None"
  by (auto simp: only_settled_after_def)

text \<open>The scan as the calls its verdict leads to.\<close>

definition node_cleanup ::
  "'w env \<Rightarrow> kubernetesClient \<Rightarrow> Machine \<Rightarrow> ('w st, (reply + Machine) outcome) state" where
  "node_cleanup E kc m = scale_down_scan E kc [m] m"

lemma scale_down_scan_verdict:
  "scale_down_scan E kc ms d =
     (case scan_verdict ms d of
        InDeletion m \<Rightarrow> node_cleanup E kc m
      | Unbooted m \<Rightarrow> return (Ret (Inl (requeue_after (10 * Second), None)))
      | Victim m \<Rightarrow> return (Ret (Inr m)))"
  by (induction ms arbitrary: d) (auto simp: node_cleanup_def)

text \<open>
  How a machine in deletion is dealt with: what the read of its node answered decides which node is
  deleted, if any, and which error is returned. The node is deleted under the name the workload
  cluster reports.
\<close>

inductive cleanup_run ::
  "'w env \<Rightarrow> kubernetesClient \<Rightarrow> Machine \<Rightarrow> reply outcome \<Rightarrow> event list \<Rightarrow> bool"
  for E :: "'w env" and kc :: kubernetesClient and m :: Machine where
  no_reference:
    "m_NodeRef m = None \<Longrightarrow> cleanup_run E kc m (Panic NilDereference) []"
| node_gone:
    "m_NodeRef m = Some ref \<Longrightarrow> Nodes_Get E (kc_Clientset kc) (ref_Name ref) w = (Inl err, w') \<Longrightarrow>
     apierrors_IsNotFound E err \<Longrightarrow>
     cleanup_run E kc m (Ret (requeue_after (20 * Second), None)) [WorkloadRead ''Get Node'']"
| node_unread:
    "m_NodeRef m = Some ref \<Longrightarrow> Nodes_Get E (kc_Clientset kc) (ref_Name ref) w = (Inl err, w') \<Longrightarrow>
     \<not> apierrors_IsNotFound E err \<Longrightarrow>
     cleanup_run E kc m (Ret (requeue_after (20 * Second), Some err)) [WorkloadRead ''Get Node'']"
| node_removed:
    "m_NodeRef m = Some ref \<Longrightarrow> Nodes_Get E (kc_Clientset kc) (ref_Name ref) w = (Inr node, w') \<Longrightarrow>
     cleanup_run E kc m (Ret (requeue_after (20 * Second), err))
       [WorkloadRead ''Get Node'', NodeDeleted (om_Name (n_Meta node)) err]"

lemma node_cleanup_wp:
  assumes "deleting m"
  shows "wp (node_cleanup E kc m)
     (\<lambda>r es s'. mcp s' = mcp s \<and> cluster s' = cluster s \<and>
        (case r of Panic p \<Rightarrow> cleanup_run E kc m (Panic p) es
         | Ret (Inl rep) \<Rightarrow> cleanup_run E kc m (Ret rep) es
         | Ret (Inr x) \<Rightarrow> False)) s"
  unfolding node_cleanup_def scale_down_scan.simps
  by (intro wp) (use assms in \<open>auto intro: cleanup_run.intros\<close>)

subsection \<open>What a scale-down does\<close>

text \<open>
  The ways a scale-down of \<open>ms\<close> can end. The connection calls come first and the release of the
  client last; between them there is either nothing, or the removal of the node of a machine in
  deletion, or the removal of one settled oldest machine and then of its node.
\<close>

inductive scale_down_run :: "'w env \<Rightarrow> Machine list \<Rightarrow> reply outcome \<Rightarrow> event list \<Rightarrow> bool"
  for E :: "'w env" and ms :: "Machine list" where
  no_machines:
    "ms = [] \<Longrightarrow> scale_down_run E ms (Ret (no_requeue, Some (Errorf ''no machines found'' []))) []"
| no_client:
    "connecting (Inl err) es \<Longrightarrow>
     scale_down_run E ms (Ret (requeue_after (20 * Second), Some err)) es"
| in_deletion:
    "only_settled_after ms m \<Longrightarrow> deleting m \<Longrightarrow> connecting (Inr kc) es \<Longrightarrow>
     cleanup_run E kc m r es' \<Longrightarrow> scale_down_run E ms r (es @ es' @ [Closed kc])"
| unbooted:
    "only_settled_after ms m \<Longrightarrow> \<not> deleting m \<Longrightarrow> m_NodeRef m = None \<Longrightarrow> connecting (Inr kc) es \<Longrightarrow>
     scale_down_run E ms (Ret (requeue_after (10 * Second), None)) (es @ [Closed kc])"
| machine_not_deleted:
    "victim_of ms m \<Longrightarrow> connecting (Inr kc) es \<Longrightarrow>
     scale_down_run E ms (Ret (no_requeue, Some err))
       (es @ [Deleted (OMachine m) (Some err), Closed kc])"
| node_not_deleted:
    "victim_of ms m \<Longrightarrow> m_NodeRef m = Some node \<Longrightarrow>
     connecting (Inr kc) es \<Longrightarrow>
     scale_down_run E ms (Ret (requeue_after (20 * Second), Some err))
       (es @ [Deleted (OMachine m) None, NodeDeleted (ref_Name node) (Some err), Closed kc])"
| removed:
    "victim_of ms m \<Longrightarrow> m_NodeRef m = Some node \<Longrightarrow>
     connecting (Inr kc) es \<Longrightarrow>
     scale_down_run E ms (Ret (requeue_now, None))
       (es @ [Deleted (OMachine m) None, NodeDeleted (ref_Name node) None, Closed kc])"

inductive_cases scale_down_runE: "scale_down_run E ms r es"

lemma wp_verdict:
  assumes "\<And>m. v = InDeletion m \<Longrightarrow> wp (f m) Q s" and "\<And>m. v = Unbooted m \<Longrightarrow> wp (g m) Q s"
    and "\<And>m. v = Victim m \<Longrightarrow> wp (h m) Q s"
  shows "wp (case v of InDeletion m \<Rightarrow> f m | Unbooted m \<Rightarrow> g m | Victim m \<Rightarrow> h m) Q s"
  using assms by (cases v) auto

lemma delete_machine_and_node_wp:
  assumes "m_NodeRef m = Some node"
  shows "wp (delete_machine_and_node E kc m)
     (\<lambda>r es s'. mcp s' = mcp s \<and> cluster s' = cluster s \<and>
        ((\<exists>err. r = Ret (no_requeue, Some err) \<and> es = [Deleted (OMachine m) (Some err)]) \<or>
         (\<exists>err. r = Ret (requeue_after (20 * Second), Some err) \<and>
            es = [Deleted (OMachine m) None, NodeDeleted (ref_Name node) (Some err)]) \<or>
         (r = Ret (requeue_now, None) \<and>
            es = [Deleted (OMachine m) None, NodeDeleted (ref_Name node) None]))) s"
  unfolding delete_machine_and_node_def assms option.case by (intro wp) auto

text \<open>The calls between connecting and closing.\<close>

lemma scale_down_body:
  assumes "ms \<noteq> []" and "connecting (Inr kc) es"
  shows "wp (do { r \<leftarrow> scale_down_scan E kc (rev ms) (last ms);
              unless_panic r (\<lambda>x. case x of
                Inl rep \<Rightarrow> return (Ret rep)
              | Inr deleteMachine \<Rightarrow> delete_machine_and_node E kc deleteMachine) })
     (\<lambda>r es' s'. scale_down_run E ms r (es @ es' @ [Closed kc]) \<and> mcp s' = mcp s \<and> cluster s' = cluster s) s"
proof (cases "scan_verdict (rev ms) (last ms)")
  case (InDeletion m)
  note whole = scan_verdict_whole(1) [OF InDeletion]
  note cleanup = node_cleanup_wp [OF whole [THEN conjunct2]]
  show ?thesis
    unfolding scale_down_scan_verdict InDeletion verdict.case
    by (rule wp_bind, rule wp_conseq [OF cleanup], intro wp)
       (use whole assms in \<open>auto intro: scale_down_run.intros split: sum.splits\<close>)
next
  case (Unbooted m)
  show ?thesis
    unfolding scale_down_scan_verdict Unbooted verdict.case
    by (intro wp) (use scan_verdict_whole(2) [OF Unbooted] assms in \<open>auto intro: scale_down_run.intros\<close>)
next
  case (Victim m)
  note victim = scan_verdict_victim [OF Victim assms(1)]
  then obtain node where node: "m_NodeRef m = Some node" using victim_ofD(4) by blast
  show ?thesis
    unfolding scale_down_scan_verdict Victim verdict.case
    by (rule wp_bind, rule wp_return, unfold unless_panic_simps sum.case,
        rule wp_conseq [OF delete_machine_and_node_wp [OF node]])
       (use victim assms node in \<open>auto intro: scale_down_run.intros\<close>)
qed

lemma scaleDownControlPlane_wp:
  "wp (scaleDownControlPlane E k cpName ms)
     (\<lambda>r es s'. scale_down_run E ms r es \<and> mcp s' = mcp s \<and> cluster s' = cluster s) s"
proof (cases "ms = []")
  case True
  then show ?thesis
    unfolding scaleDownControlPlane_def by (auto intro!: wp scale_down_run.intros)
next
  case False
  show ?thesis
    unfolding scaleDownControlPlane_def if_not_P [OF False]
  proof (rule kube.with_client_wp, goal_cases)
    case (1 e es s')
    then show ?case by (intro wp) (auto intro: scale_down_run.intros)
  next
    case (2 kc es s')
    from 2 show ?case by (intro wp_conseq [OF scale_down_body [OF False 2(1)]]) simp
  qed
qed

lemma connecting_quiet:
  assumes "connecting r es" and "e \<in> set es"
  shows "\<not> deletes_machine e" and "\<not> deletes_node e" and "\<not> creates_machine e"
    and "\<not> updates_machine e"
proof -
  from assms have "secret_only e \<or> connects e"
    by (auto simp: connecting_def split: sum.splits)
  then show "\<not> deletes_machine e" and "\<not> deletes_node e" and "\<not> creates_machine e"
    and "\<not> updates_machine e"
    by (cases e rule: secret_only.cases; auto)+
qed

lemma connecting_filter [simp]:
  assumes "connecting r es"
  shows "filter deletes_machine es = []" "filter deletes_node es = []" "filter creates_machine es = []"
    "filter updates_machine es = []"
  using connecting_quiet [OF assms] by (auto simp: filter_empty_conv)

lemma cleanup_quiet:
  assumes "cleanup_run E kc m r es" and "e \<in> set es"
  shows "e = WorkloadRead ''Get Node'' \<or> (\<exists>n q. e = NodeDeleted n q)"
  using assms by (cases rule: cleanup_run.cases) auto

lemma cleanup_filter [simp]:
  assumes "cleanup_run E kc m r es"
  shows "filter deletes_machine es = []" "filter creates_machine es = []" "filter updates_machine es = []"
    "count_of deletes_node es \<le> Suc 0" "opened es = []" "closed es = []"
  using assms by (cases rule: cleanup_run.cases; simp)+

lemma scale_down_run_counts:
  assumes "scale_down_run E ms r es"
  shows "count_of deletes_machine es \<le> 1" and "count_of deletes_node es \<le> 1"
    and "filter creates_machine es = []" and "filter updates_machine es = []"
  using assms by (cases rule: scale_down_run.cases; simp)+

lemma scale_down_run_victim:
  assumes "scale_down_run E ms r es" and "Deleted (OMachine x) q \<in> set es"
  shows "settled ms" and "oldest_of x ms"
proof -
  have "victim_of ms x"
    using assms by (cases rule: scale_down_run.cases) (auto dest: connecting_quiet(1) cleanup_quiet)
  then show "settled ms" and "oldest_of x ms" by (rule victim_ofD)+
qed

lemma connecting_opened:
  assumes "connecting r es"
  shows "opened es = (case r of Inl _ \<Rightarrow> [] | Inr kc \<Rightarrow> [kc])" and "closed es = []"
proof -
  obtain es0 where es0: "\<forall>e \<in> set es0. \<not> connects e \<and> \<not> closes e"
    and es: "es = es0 @ (case r of Inl _ \<Rightarrow> [] | Inr kc \<Rightarrow> [Connected kc])"
    using assms unfolding connecting_def by blast
  from es0 have "opened es0 = [] \<and> closed es0 = []"
    by (induction es0) (auto split: event.splits)
  then show "opened es = (case r of Inl _ \<Rightarrow> [] | Inr kc \<Rightarrow> [kc])" and "closed es = []"
    unfolding es by (auto split: sum.splits)
qed

lemma scale_down_run_balanced:
  assumes "scale_down_run E ms r es"
  shows "mset (opened es) = mset (closed es)"
  using assms by (cases rule: scale_down_run.cases) (auto simp: connecting_opened)


text \<open>Over settled machines: progress, and the order of the two deletions.\<close>

lemma connecting_not_connected: "connecting (Inl e) es \<Longrightarrow> Connected kc \<notin> set es"
  by (auto simp: connecting_def)

lemma connecting_no_node_deleted: "connecting r es \<Longrightarrow> NodeDeleted n q \<notin> set es"
  using connecting_quiet(2) by fastforce

lemma scale_down_run_progress:
  assumes "scale_down_run E ms r es" and "settled ms" and "ms \<noteq> []" and "Connected kc \<in> set es"
  shows "\<exists>x q. oldest_of x ms \<and> Deleted (OMachine x) q \<in> set es"
  using assms
  by (cases rule: scale_down_run.cases)
     (auto simp: connecting_not_connected dest: only_settled_after_not_settled victim_ofD(2))

lemma scale_down_run_order:
  assumes "scale_down_run E ms r es" and "settled ms" and "NodeDeleted n q \<in> set es"
  shows "\<exists>x ref pre post. es = pre @ [Deleted (OMachine x) None, NodeDeleted n q] @ post \<and>
     oldest_of x ms \<and> m_NodeRef x = Some ref \<and> ref_Name ref = n"
proof -
  have "\<exists>x ref pre. victim_of ms x \<and> m_NodeRef x = Some ref \<and> ref_Name ref = n \<and>
      (\<exists>post. es = pre @ [Deleted (OMachine x) None, NodeDeleted n q] @ post)"
    using assms
    by (cases rule: scale_down_run.cases)
       (auto simp: connecting_no_node_deleted dest: only_settled_after_not_settled)
  then show ?thesis using victim_ofD(2) by blast
qed

end
