(* ===== verification/Health.thy ===== *)
theory Health
  imports Machine_Boot
begin

text \<open>
  \<open>controllers/healthchecks.go\<close> and the two phases of the reconciliation that only touch
  conditions: \<open>reconcileNodeHealth\<close> and \<open>reconcileConditions\<close> of \<open>reconcile.go\<close>.
\<close>

text \<open>Both checks are stubs in the source that always return a nil error.\<close>

definition nodesHealthcheck :: "'w env \<Rightarrow> Machine list \<Rightarrow> ('w st, error option) state" where
  "nodesHealthcheck E machines = return None"

definition ensureNodesBooted :: "'w env \<Rightarrow> Machine list \<Rightarrow> ('w st, error option) state" where
  "ensureNodesBooted E machines = return None"

text \<open>
  \<open>errors.Is(err, &errServiceUnhealthy{})\<close> compares pointers along the chain of \<open>err\<close>, and the
  target is a value that the expression itself allocates: no error is identical to it.
\<close>

definition Is_fresh_errServiceUnhealthy :: "error \<Rightarrow> bool" where
  "Is_fresh_errServiceUnhealthy err = False"

definition node_health_reply :: "'w env \<Rightarrow> error option \<Rightarrow> ('w st, reply outcome) state" where
  "node_health_reply E r =
     (case r of
        Some err \<Rightarrow> do {
          MarkFalse E ControlPlaneComponentsHealthyCondition
            (if Is_fresh_errServiceUnhealthy err then ControlPlaneComponentsUnhealthyReason
             else ControlPlaneComponentsInspectionFailedReason)
            SeverityWarning (Error E err) [];
          return (Ret (requeue_after (10 * Second), Some err)) }
      | None \<Rightarrow> do {
          MarkTrue E ControlPlaneComponentsHealthyCondition;
          return (Ret (no_requeue, None)) })"

definition reconcileNodeHealth :: "'w env \<Rightarrow> Machine list \<Rightarrow> ('w st, reply outcome) state" where
  "reconcileNodeHealth E machines = do {
     r \<leftarrow> nodesHealthcheck E machines;
     node_health_reply E r }"

definition reconcileConditions :: "'w env \<Rightarrow> Machine list \<Rightarrow> ('w st, reply outcome) state" where
  "reconcileConditions E machines = do {
     available \<leftarrow> has_condition E AvailableCondition;
     (if \<not> available
      then MarkFalse E AvailableCondition WaitingForMicroK8sBootReason SeverityInfo [] []
      else return ());
     bootstrapped \<leftarrow> has_condition E MachinesBootstrapped;
     (if \<not> bootstrapped
      then MarkFalse E MachinesBootstrapped WaitingForMachinesReason SeverityInfo [] []
      else return ());
     return (Ret (no_requeue, None)) }"

subsection \<open>Behaviour\<close>

text \<open>
  Both phases issue no call, never fail, and change conditions only.
\<close>

lemma reconcileNodeHealth_wp:
  "wp (reconcileNodeHealth E ms)
     (\<lambda>r es s'. r = Ret (no_requeue, None) \<and> es = [] \<and> only_conditions s s') s"
  unfolding reconcileNodeHealth_def nodesHealthcheck_def node_health_reply_def
  by (intro wp) auto

lemma reconcileConditions_wp:
  "wp (reconcileConditions E ms)
     (\<lambda>r es s'. r = Ret (no_requeue, None) \<and> es = [] \<and> only_conditions s s') s"
  unfolding reconcileConditions_def by (intro wp) auto

text \<open>
  After the phase both conditions are present, and every condition that was present is as it was.
\<close>

lemma reconcileConditions_present:
  assumes "conditions_contract E"
  shows "wp (reconcileConditions E ms)
     (\<lambda>r es s'. \<forall>t c. find_condition t (GetConditions (mcp s)) = Some c \<longrightarrow>
           find_condition t (GetConditions (mcp s')) = Some c) s"
    and "wp (reconcileConditions E ms)
     (\<lambda>r es s'. find_condition AvailableCondition (GetConditions (mcp s')) \<noteq> None \<and>
        find_condition MachinesBootstrapped (GetConditions (mcp s')) \<noteq> None) s"
proof -
  note c = conditions_contractD [OF assms]
  have ne: "AvailableCondition \<noteq> MachinesBootstrapped" "MachinesBootstrapped \<noteq> AvailableCondition"
    by (simp_all add: condition_type_defs)
  have some: "find_condition t (conditions_MarkFalse E t r v f a cs) \<noteq> None" for t r v f a cs
    using c(3) [of t r v f a cs] by auto
  have keep: "find_condition t cs = Some d \<Longrightarrow> u \<noteq> t \<Longrightarrow>
      find_condition t (conditions_MarkFalse E u r v f a cs) = Some d" for t u r v f a cs d
    using c(4) [of t u] by simp
  show "wp (reconcileConditions E ms)
     (\<lambda>r es s'. \<forall>t c. find_condition t (GetConditions (mcp s)) = Some c \<longrightarrow>
           find_condition t (GetConditions (mcp s')) = Some c) s"
    unfolding reconcileConditions_def by (intro wp) (auto simp: c(5) c(4) [OF ne(2)] intro!: keep)
  show "wp (reconcileConditions E ms)
     (\<lambda>r es s'. find_condition AvailableCondition (GetConditions (mcp s')) \<noteq> None \<and>
        find_condition MachinesBootstrapped (GetConditions (mcp s')) \<noteq> None) s"
    unfolding reconcileConditions_def by (intro wp) (use some in \<open>auto simp: c(4,5) ne\<close>)
qed

end
