(* ===== verification/Replicas.thy ===== *)
theory Replicas
  imports Scale_Down Health
begin

text \<open>
  \<open>reconcileMachines\<close> of \<open>reconcile.go\<close>: the phase that compares the existing machines with the
  desired replicas and version, and boots, upgrades or removes machines; and
  \<open>bootstrapCluster\<close>, the check that every machine has an address. Counts are \<open>int\<close>, as in the
  source; the desired count is the signed value of the 32 bit field.
\<close>

subsection \<open>Bootstrap check\<close>

fun bootstrap_addresses :: "'w env \<Rightarrow> Machine list \<Rightarrow> string list \<Rightarrow> error + string list" where
  "bootstrap_addresses E [] addresses = Inr addresses"
| "bootstrap_addresses E (machine # machines) addresses =
     (case find (\<lambda>a. fst a = clusterv1_MachineInternalIP E) (m_Addresses machine) of
        None \<Rightarrow> Inl (Errorf (''machine %q doesn'' @ apostrophe @ ''t have an InternalIP address yet'')
                  [om_Name (m_Meta machine)])
      | Some a \<Rightarrow> bootstrap_addresses E machines (addresses @ [snd a]))"

definition bootstrapCluster :: "'w env \<Rightarrow> Machine list \<Rightarrow> error option" where
  "bootstrapCluster E machines =
     (case bootstrap_addresses E machines [] of
        Inl err \<Rightarrow> Some err
      | Inr addresses \<Rightarrow>
          (if addresses = [] then Some (Errorf ''no machine addresses to use for bootstrap'' [])
           else None))"

text \<open>It succeeds exactly when there are machines and all of them have an internal address.\<close>

lemma bootstrap_addresses_Inr:
  "(\<exists>as. bootstrap_addresses E ms acc = Inr as) \<longleftrightarrow>
     (\<forall>m \<in> set ms. \<exists>a \<in> set (m_Addresses m). fst a = clusterv1_MachineInternalIP E)"
  by (induction ms arbitrary: acc)
     (auto simp: find_None_iff find_Some_iff split: option.splits intro: nth_mem)

lemma bootstrap_addresses_length:
  "bootstrap_addresses E ms acc = Inr as \<Longrightarrow> length as = length acc + length ms"
  by (induction ms arbitrary: acc) (auto split: option.splits)

lemma bootstrapCluster_None:
  "bootstrapCluster E ms = None \<longleftrightarrow>
     ms \<noteq> [] \<and> (\<forall>m \<in> set ms. \<exists>a \<in> set (m_Addresses m). fst a = clusterv1_MachineInternalIP E)"
proof (cases "bootstrap_addresses E ms []")
  case (Inl err)
  then show ?thesis using bootstrap_addresses_Inr [of E ms "[]"] by (auto simp: bootstrapCluster_def)
next
  case (Inr as)
  then have "as = [] \<longleftrightarrow> ms = []" using bootstrap_addresses_length by fastforce
  then show ?thesis
    using Inr bootstrap_addresses_Inr [of E ms "[]"] by (auto simp: bootstrapCluster_def)
qed

subsection \<open>Adjusting the number of machines\<close>

definition scaling_up_message :: string where
  "scaling_up_message = ''Scaling up control plane to %d replicas (actual %d)''"

definition scaling_down_message :: string where
  "scaling_down_message = ''Scaling down control plane to %d replicas (actual %d)''"

definition scale_up :: "'w env \<Rightarrow> int \<Rightarrow> int \<Rightarrow> ('w st, reply outcome) state" where
  "scale_up E desiredReplicas numMachines = do {
     MarkFalse E ResizedCondition ScalingUpReason SeverityWarning scaling_up_message
       [desiredReplicas, numMachines];
     rep \<leftarrow> bootControlPlane E False;
     return (Ret rep) }"

definition scale_down :: "'w env \<Rightarrow> int \<Rightarrow> int \<Rightarrow> Machine list \<Rightarrow> ('w st, reply outcome) state" where
  "scale_down E desiredReplicas numMachines machines = do {
     MarkFalse E ResizedCondition ScalingDownReason SeverityWarning scaling_down_message
       [desiredReplicas, numMachines];
     if numMachines < 4 then do {
       MarkFalse E ResizedCondition ScalingDownReason SeverityError
         ''Cannot scale down control plane nodes to less than 3 nodes'' [];
       return (Ret (no_requeue, None)) }
     else do {
       booted \<leftarrow> ensureNodesBooted E machines;
       case booted of
         Some err \<Rightarrow> return (Ret (requeue_after (10 * Second), None))
       | None \<Rightarrow> do {
           m \<leftarrow> gets mcp;
           c \<leftarrow> gets cluster;
           r \<leftarrow> scaleDownControlPlane E (ObjectKey_of (cl_Meta c)) (om_Name (mcp_Meta m)) machines;
           unless_panic r (\<lambda>rep. case rep of
             (res, Some err) \<Rightarrow>
               if Requeue res \<or> RequeueAfter res > 0 then return (Ret (res, None))
               else return (Ret (res, Some err))
           | (res, None) \<Rightarrow> return (Ret (res, None))) } } }"

definition converged :: "'w env \<Rightarrow> Machine list \<Rightarrow> ('w st, reply outcome) state" where
  "converged E machines = do {
     m \<leftarrow> gets mcp;
     failed \<leftarrow> (if \<not> st_Bootstrapped (mcp_Status m) then
         (case bootstrapCluster E machines of
            Some err \<Rightarrow> do {
              MarkFalse E MachinesBootstrapped WaitingForMicroK8sBootReason SeverityInfo
                (Error E err) [];
              return True }
          | None \<Rightarrow> do {
              MarkTrue E MachinesBootstrapped;
              modify (mcp_update (\<lambda>m. m\<lparr>mcp_Status := (mcp_Status m)\<lparr>st_Bootstrapped := True\<rparr>\<rparr>));
              return False })
       else return False);
     if failed then return (Ret (requeue_after (20 * Second), None))
     else do {
       ready \<leftarrow> has_condition E MachinesReadyCondition;
       (if ready then MarkTrue E ResizedCondition else return ());
       MarkTrue E MachinesCreatedCondition;
       return (Ret (no_requeue, None)) } }"

text \<open>The switch at the end of \<open>reconcileMachines\<close>.\<close>

definition reconcile_replicas ::
  "'w env \<Rightarrow> int \<Rightarrow> int \<Rightarrow> Machine list \<Rightarrow> ('w st, reply outcome) state" where
  "reconcile_replicas E desiredReplicas numMachines machines =
     (if numMachines < desiredReplicas \<and> numMachines = 0 then do {
        rep \<leftarrow> bootControlPlane E True;
        return (Ret rep) }
      else if numMachines < desiredReplicas \<and> numMachines > 0 then
        scale_up E desiredReplicas numMachines
      else if numMachines > desiredReplicas then
        scale_down E desiredReplicas numMachines machines
      else converged E machines)"

subsection \<open>The phase\<close>

definition selected_strategy :: "UpgradeStrategyType \<Rightarrow> UpgradeStrategyType" where
  "selected_strategy s = (if s = [] then SmartUpgradeStrategyType else s)"

definition rolls_over :: "UpgradeStrategyType \<Rightarrow> int \<Rightarrow> bool" where
  "rolls_over s numMachines \<longleftrightarrow>
     s = RollingUpgradeStrategyType \<or> (s = SmartUpgradeStrategyType \<and> numMachines \<ge> 3)"

definition upgrades_in_place :: "UpgradeStrategyType \<Rightarrow> int \<Rightarrow> bool" where
  "upgrades_in_place s numMachines \<longleftrightarrow>
     s = InPlaceUpgradeStrategyType \<or> (s = SmartUpgradeStrategyType \<and> numMachines < 3)"

text \<open>
  The versions compared: the oldest machine's and the desired one, both empty without machines. A
  machine without a version is a nil dereference.
\<close>

definition versions :: "'w env \<Rightarrow> string \<Rightarrow> Machine list \<Rightarrow> (string \<times> string) outcome" where
  "versions E version machines =
     (if machines = [] then Ret ([], [])
      else case m_Version (machines ! 0) of
        None \<Rightarrow> Panic NilDereference
      | Some v \<Rightarrow> Ret (semver_MajorMinor E v, semver_MajorMinor E version))"

text \<open>
  \<open>len(oldVersionMachines) > 0\<close> holds at its only use, where the list has just received its only
  element, and is left out.
\<close>

definition reconcileMachines :: "'w env \<Rightarrow> Machine list \<Rightarrow> ('w st, reply outcome) state" where
  "reconcileMachines E machines0 = do {
     m \<leftarrow> gets mcp;
     c \<leftarrow> gets cluster;
     case sp_Replicas (mcp_Spec m) of
       None \<Rightarrow> return (Panic NilDereference)
     | Some replicas \<Rightarrow>
     let numMachines = int (length machines0);
         desiredReplicas = sint replicas;
         machines = (if numMachines > 0 then sort_machines E machines0 else machines0);
         strategy = selected_strategy (sp_UpgradeStrategy (mcp_Spec m))
     in unless_panic (versions E (sp_Version (mcp_Spec m)) machines) (\<lambda>(oldVersion, newVersion).
       if oldVersion \<noteq> [] \<and> semver_Compare E oldVersion newVersion \<noteq> 0 then
         if rolls_over strategy numMachines then
           if numMachines = desiredReplicas then scale_up E desiredReplicas numMachines
           else reconcile_replicas E desiredReplicas numMachines machines
         else if upgrades_in_place strategy numMachines then do {
           r \<leftarrow> kubeconfigForCluster E (ObjectKey_of (cl_Meta c));
           case r of
             Inl err \<Rightarrow> return (Ret (requeue_after (20 * Second), Some err))
           | Inr kubeclient \<Rightarrow> deferring (Close E kubeclient) (do {
               r \<leftarrow> upgrade_machines E kubeclient machines;
               unless_panic r (\<lambda>early. case early of
                 Some rep \<Rightarrow> return (Ret rep)
               | None \<Rightarrow> reconcile_replicas E desiredReplicas numMachines machines) }) }
         else reconcile_replicas E desiredReplicas numMachines machines
       else reconcile_replicas E desiredReplicas numMachines machines) }"

subsection \<open>The decision behind the switch\<close>

text \<open>
  What the switch decides from the two numbers alone, and what carrying out each decision may do:
  this is the specification the code is shown to implement.
\<close>

datatype replica_action = Create_Machine | Remove_Machine | Refuse_Removal | Leave_Machines

definition replica_action :: "int \<Rightarrow> int \<Rightarrow> replica_action" where
  "replica_action desired actual =
     (if actual < desired then Create_Machine
      else if actual > desired then (if actual < 4 then Refuse_Removal else Remove_Machine)
      else Leave_Machines)"

text \<open>An error with a requeue hint is logged and dropped.\<close>

definition drop_requeued_error :: "reply \<Rightarrow> reply" where
  "drop_requeued_error rep =
     (if Requeue (fst rep) \<or> RequeueAfter (fst rep) > 0 then (fst rep, None) else rep)"

fun carries_out ::
  "'w env \<Rightarrow> Machine list \<Rightarrow> replica_action \<Rightarrow> 'w st \<Rightarrow> reply outcome \<Rightarrow> event list \<Rightarrow> 'w st \<Rightarrow> bool"
where
  "carries_out E ms Create_Machine s r es s' \<longleftrightarrow>
     (\<exists>t rep. r = Ret rep \<and> only_conditions s t \<and> boot_run E t rep es s')"
| "carries_out E ms Remove_Machine s r es s' \<longleftrightarrow>
     only_conditions s s' \<and>
     (\<exists>q. scale_down_run E ms q es \<and>
        r = (case q of Ret rep \<Rightarrow> Ret (drop_requeued_error rep) | Panic p \<Rightarrow> Panic p))"
| "carries_out E ms Refuse_Removal s r es s' \<longleftrightarrow>
     only_conditions s s' \<and> es = [] \<and> r = Ret (no_requeue, None)"
| "carries_out E ms Leave_Machines s r es s' \<longleftrightarrow>
     same_target s s' \<and> es = [] \<and> (\<exists>res. r = Ret (res, None))"

lemma scale_up_wp:
  assumes "conditions_contract E"
  shows "wp (scale_up E d n) (carries_out E ms Create_Machine s) s"
  unfolding scale_up_def
  by (intro wp wp_conseq [OF bootControlPlane_run [OF assms]]) (auto intro!: exI)

lemma scale_down_wp:
  assumes "n > d"
  shows "wp (scale_down E d n ms) (carries_out E ms (replica_action d n) s) s"
proof (cases "n < 4")
  case True
  with assms show ?thesis
    unfolding scale_down_def by (auto intro!: wp simp: replica_action_def)
next
  case False
  with assms have a: "replica_action d n = Remove_Machine" by (simp add: replica_action_def)
  show ?thesis
    unfolding scale_down_def if_not_P [OF False] a ensureNodesBooted_def
    by (intro wp wp_conseq [OF scaleDownControlPlane_wp])
       (auto simp: only_conditions_def drop_requeued_error_def split: prod.splits option.splits
         intro!: wp)
qed

lemma converged_wp:
  "wp (converged E ms) (carries_out E ms Leave_Machines s) s"
  unfolding converged_def by (intro wp) (auto simp: same_target_def)

lemma reconcile_replicas_wp:
  assumes "conditions_contract E" and "0 \<le> n"
  shows "wp (reconcile_replicas E d n ms) (carries_out E ms (replica_action d n) s) s"
proof -
  consider (first) "n < d" "n = 0" | (up) "n < d" "n > 0" | (down) "n > d" | (same) "n = d"
    using assms(2) by linarith
  then show ?thesis
  proof cases
    case first
    then show ?thesis
      unfolding reconcile_replicas_def
      by (auto simp: replica_action_def intro!: wp wp_conseq [OF bootControlPlane_run [OF assms(1)]]
          exI [of _ s])
  next
    case up
    then show ?thesis
      using scale_up_wp [OF assms(1)] by (simp add: reconcile_replicas_def replica_action_def)
  next
    case down
    then show ?thesis
      using scale_down_wp [OF down] by (simp add: reconcile_replicas_def)
  next
    case same
    then show ?thesis
      using converged_wp by (simp add: reconcile_replicas_def replica_action_def)
  qed
qed

subsection \<open>Effects of the decisions\<close>

text \<open>A machine that carries the identity of the control plane object of a state.\<close>

definition owned_machine :: "'w env \<Rightarrow> 'w st \<Rightarrow> Machine \<Rightarrow> bool" where
  "owned_machine E s x \<longleftrightarrow>
     om_Namespace (m_Meta x) = om_Namespace (mcp_Meta (mcp s)) \<and>
     om_Labels (m_Meta x) = control_plane_labels E (om_Name (cl_Meta (cluster s))) \<and>
     om_OwnerReferences (m_Meta x) =
       [metav1_NewControllerRef E (mcp_Meta (mcp s)) GroupVersion ''MicroK8sControlPlane''] \<and>
     m_ClusterName x = om_Name (cl_Meta (cluster s)) \<and>
     m_Version x = Some (sp_Version (mcp_Spec (mcp s))) \<and>
     m_BootstrapConfigRef x \<noteq> None \<and>
     may_place (cluster s) (m_FailureDomain x)"

lemma boots_machine_owned:
  "boots_machine E (mcp s) (cluster s) cfg x \<Longrightarrow> owned_machine E s x"
  by (auto simp: boots_machine_def owned_machine_def new_machine_def)

lemma owned_machine_same_target: "same_target s t \<Longrightarrow> owned_machine E t x = owned_machine E s x"
  by (simp add: owned_machine_def same_target_def)

lemma boot_run_created:
  "boot_run E s rep es s' \<Longrightarrow> Created (OMachine x) q \<in> set es \<Longrightarrow> owned_machine E s x"
  by (auto elim!: boot_runE dest: boots_machine_owned)

lemma boot_run_quiet:
  "boot_run E s rep es s' \<Longrightarrow> e \<in> set es \<Longrightarrow>
     \<not> deletes_machine e \<and> \<not> deletes_node e \<and> \<not> updates_machine e \<and>
     \<not> connects e \<and> \<not> closes e \<and> \<not> touches_workload e"
  by (auto elim!: boot_runE)

lemma quiet_opened:
  "\<forall>e \<in> set es. \<not> connects e \<Longrightarrow> opened es = []" "\<forall>e \<in> set es. \<not> closes e \<Longrightarrow> closed es = []"
  by (induction es) (auto split: event.splits)

text \<open>
  The effects that matter for the life of a control plane, for given guards on creating and on
  deleting machines.
\<close>

definition machine_effects ::
  "'w env \<Rightarrow> Machine list \<Rightarrow> 'w st \<Rightarrow> bool \<Rightarrow> bool \<Rightarrow> event list \<Rightarrow> bool" where
  "machine_effects E ms s may_create may_delete es \<longleftrightarrow>
     count_of creates_machine es + count_of deletes_machine es \<le> 1 \<and>
     (\<forall>x q. Created (OMachine x) q \<in> set es \<longrightarrow> may_create \<and> owned_machine E s x) \<and>
     (\<forall>x q. Deleted (OMachine x) q \<in> set es \<longrightarrow> may_delete \<and> settled ms \<and> oldest_of x ms) \<and>
     mset (opened es) = mset (closed es)"

lemma machine_effects_Nil [simp]: "machine_effects E ms s c d []"
  by (simp add: machine_effects_def)

lemma machine_effects_mono:
  "machine_effects E ms s c d es \<Longrightarrow> (c \<Longrightarrow> c') \<Longrightarrow> (d \<Longrightarrow> d') \<Longrightarrow> machine_effects E ms s c' d' es"
  by (simp add: machine_effects_def)

lemma no_such_event:
  "filter deletes_machine es = [] \<Longrightarrow> Deleted (OMachine x) q \<notin> set es"
  "filter creates_machine es = [] \<Longrightarrow> Created (OMachine x) q \<notin> set es"
  "filter updates_machine es = [] \<Longrightarrow> Updated (OMachine x) q \<notin> set es"
  by (auto simp: filter_empty_conv)

lemma boot_run_machine_effects:
  assumes "boot_run E t rep es s'" and "same_target s t"
  shows "machine_effects E ms s True d es"
proof -
  have none: "filter deletes_machine es = []" using boot_run_effects(3) [OF assms(1)] by simp
  have quiet: "opened es = []" "closed es = []"
    using boot_run_quiet [OF assms(1)] quiet_opened by blast+
  show ?thesis
    unfolding machine_effects_def
    using boot_run_effects(2) [OF assms(1)] none no_such_event(1) [OF none] quiet
      boot_run_created [OF assms(1)] owned_machine_same_target [OF assms(2), of E]
    by simp
qed

lemma scale_down_run_machine_effects:
  assumes "scale_down_run E ms r es"
  shows "machine_effects E ms s c True es"
  unfolding machine_effects_def
  using scale_down_run_counts [OF assms]
    scale_down_run_victim [OF assms] scale_down_run_balanced [OF assms]
    no_such_event(2) [OF scale_down_run_counts(3) [OF assms]]
  by simp

lemma carries_out_effects:
  assumes "carries_out E ms a s r es s'"
  shows "machine_effects E ms s (a = Create_Machine) (a = Remove_Machine) es" and "same_target s s'"
    and "filter updates_machine es = []"
proof -
  have "machine_effects E ms s (a = Create_Machine) (a = Remove_Machine) es \<and> same_target s s' \<and>
      filter updates_machine es = []"
  proof (cases a)
    case Create_Machine
    then obtain t rep where t: "only_conditions s t" and b: "boot_run E t rep es s'"
      using assms by auto
    from only_conditions_same_target [OF t] boot_run_machine_effects [OF b] boot_run_quiet [OF b]
      only_conditions_trans [OF t boot_run_effects(1) [OF b]]
    show ?thesis using Create_Machine
      by (auto simp: filter_empty_conv only_conditions_same_target)
  next
    case Remove_Machine
    then show ?thesis
      using assms scale_down_run_machine_effects scale_down_run_counts(4)
      by (auto simp: only_conditions_same_target)
  qed (use assms in \<open>auto simp: only_conditions_same_target\<close>)
  then show "machine_effects E ms s (a = Create_Machine) (a = Remove_Machine) es" and "same_target s s'"
    and "filter updates_machine es = []" by blast+
qed

lemma machine_effects_surround:
  assumes "machine_effects E ms s c d es"
    and "filter creates_machine (es1 @ es2) = []" and "filter deletes_machine (es1 @ es2) = []"
    and "mset (opened (es1 @ es2)) = mset (closed (es1 @ es2))"
  shows "machine_effects E ms s c d (es1 @ es @ es2)"
  using assms no_such_event [of es1] no_such_event [of es2]
  unfolding machine_effects_def by (auto simp: ac_simps)

lemma upgrading_quiet:
  assumes "\<forall>e \<in> set es. upgrading v e"
  shows "filter creates_machine es = []" and "filter deletes_machine es = []"
    and "opened es = []" and "closed es = []"
    and "Updated (OMachine x) q \<in> set es \<Longrightarrow> m_Version x = Some v"
proof -
  have "\<not> creates_machine e \<and> \<not> deletes_machine e \<and> \<not> connects e \<and> \<not> closes e"
    if "upgrading v e" for e
    using that by (cases "(v, e)" rule: upgrading.cases) auto
  with assms have all: "\<forall>e \<in> set es. \<not> creates_machine e \<and> \<not> deletes_machine e \<and>
      \<not> connects e \<and> \<not> closes e" by blast
  then show "filter creates_machine es = []" and "filter deletes_machine es = []"
    by (auto simp: filter_empty_conv)
  from all show "opened es = []" and "closed es = []" using quiet_opened by blast+
  show "m_Version x = Some v" if "Updated (OMachine x) q \<in> set es"
    using assms that by fastforce
qed

lemma machine_effects_sorted:
  "sort_contract E \<Longrightarrow> machine_effects E (sort_machines E ms) s c d es = machine_effects E ms s c d es"
  by (simp add: machine_effects_def settled_def oldest_of_def set_sort_machines)

subsection \<open>Effects of the phase\<close>

definition desired_replicas :: "'w st \<Rightarrow> int" where
  "desired_replicas s = (case sp_Replicas (mcp_Spec (mcp s)) of None \<Rightarrow> 0 | Some w \<Rightarrow> sint w)"

text \<open>The oldest machine runs another minor version than the one asked for.\<close>

definition version_skew :: "'w env \<Rightarrow> 'w st \<Rightarrow> Machine list \<Rightarrow> bool" where
  "version_skew E s ms \<longleftrightarrow>
     (case versions E (sp_Version (mcp_Spec (mcp s))) (sort_machines E ms) of
        Ret (old, new) \<Rightarrow> old \<noteq> [] \<and> semver_Compare E old new \<noteq> 0
      | Panic p \<Rightarrow> False)"

definition strategy_of :: "'w st \<Rightarrow> UpgradeStrategyType" where
  "strategy_of s = selected_strategy (sp_UpgradeStrategy (mcp_Spec (mcp s)))"

definition surges :: "'w env \<Rightarrow> 'w st \<Rightarrow> Machine list \<Rightarrow> bool" where
  "surges E s ms \<longleftrightarrow> version_skew E s ms \<and> rolls_over (strategy_of s) (int (length ms)) \<and>
     int (length ms) = desired_replicas s"

definition upgrades_nodes :: "'w env \<Rightarrow> 'w st \<Rightarrow> Machine list \<Rightarrow> bool" where
  "upgrades_nodes E s ms \<longleftrightarrow> version_skew E s ms \<and>
     \<not> rolls_over (strategy_of s) (int (length ms)) \<and>
     upgrades_in_place (strategy_of s) (int (length ms))"

definition may_create :: "'w env \<Rightarrow> 'w st \<Rightarrow> Machine list \<Rightarrow> bool" where
  "may_create E s ms \<longleftrightarrow> int (length ms) < desired_replicas s \<or> surges E s ms"

definition may_delete :: "'w st \<Rightarrow> Machine list \<Rightarrow> bool" where
  "may_delete s ms \<longleftrightarrow> desired_replicas s < int (length ms) \<and> 4 \<le> length ms"

lemma sort_machines_Nil [simp]: "sort_machines E [] = []"
  by (simp add: sort_machines_small)

text \<open>The five ways through the phase.\<close>

datatype plan = Nil_Panic | Surge | In_Place | Adjust

definition plan_of :: "'w env \<Rightarrow> 'w st \<Rightarrow> Machine list \<Rightarrow> plan" where
  "plan_of E s ms =
     (if sp_Replicas (mcp_Spec (mcp s)) = None \<or>
         (ms \<noteq> [] \<and> m_Version (sort_machines E ms ! 0) = None) then Nil_Panic
      else if surges E s ms then Surge
      else if upgrades_nodes E s ms then In_Place
      else Adjust)"

definition in_place_upgrade :: "'w env \<Rightarrow> Cluster \<Rightarrow> int \<Rightarrow> Machine list \<Rightarrow> Machine list \<Rightarrow>
  ('w st, reply outcome) state" where
  "in_place_upgrade E c d ms machines = do {
     r \<leftarrow> kubeconfigForCluster E (ObjectKey_of (cl_Meta c));
     case r of
       Inl err \<Rightarrow> return (Ret (requeue_after (20 * Second), Some err))
     | Inr kubeclient \<Rightarrow> deferring (Close E kubeclient) (do {
         r \<leftarrow> upgrade_machines E kubeclient machines;
         unless_panic r (\<lambda>early. case early of
           Some rep \<Rightarrow> return (Ret rep)
         | None \<Rightarrow> reconcile_replicas E d (int (length ms)) machines) }) }"

lemma versions_sorted_panic:
  assumes "sort_contract E"
  shows "(\<exists>p. versions E v (sort_machines E ms) = Panic p) \<longleftrightarrow>
    ms \<noteq> [] \<and> m_Version (sort_machines E ms ! 0) = None"
proof -
  have "sort_machines E ms = [] \<longleftrightarrow> ms = []"
    using length_sort_machines [OF assms, of ms] by (metis length_0_conv)
  then show ?thesis by (auto simp: versions_def split: option.splits)
qed

text \<open>The phase runs exactly the plan.\<close>

lemma reconcileMachines_plan:
  assumes "sort_contract E"
  shows "run_state (reconcileMachines E ms) s = run_state
     (case plan_of E s ms of
        Nil_Panic \<Rightarrow> return (Panic NilDereference)
      | Surge \<Rightarrow> scale_up E (desired_replicas s) (int (length ms))
      | In_Place \<Rightarrow> in_place_upgrade E (cluster s) (desired_replicas s) ms (sort_machines E ms)
      | Adjust \<Rightarrow> reconcile_replicas E (desired_replicas s) (int (length ms)) (sort_machines E ms)) s"
proof (cases "plan_of E s ms = Nil_Panic")
  case True
  then show ?thesis
    using versions_sorted_panic [OF assms, of "sp_Version (mcp_Spec (mcp s))" ms]
    by (auto simp: plan_of_def reconcileMachines_def versions_def split: if_splits option.splits)
next
  case False
  then obtain w where w: "sp_Replicas (mcp_Spec (mcp s)) = Some w"
    and p: "\<not> (ms \<noteq> [] \<and> m_Version (sort_machines E ms ! 0) = None)"
    by (auto simp: plan_of_def split: if_splits)
  from p obtain a b where v: "versions E (sp_Version (mcp_Spec (mcp s))) (sort_machines E ms) = Ret (a, b)"
    using versions_sorted_panic [OF assms, of "sp_Version (mcp_Spec (mcp s))" ms]
    by (metis outcome.exhaust surj_pair)
  have sorted: "(if int (length ms) > 0 then sort_machines E ms else ms) = sort_machines E ms"
    by simp
  let ?n = "int (length ms)" and ?d = "desired_replicas s" and ?ms = "sort_machines E ms"
  have d: "sint w = ?d" by (simp add: desired_replicas_def w)
  have skew: "version_skew E s ms \<longleftrightarrow> a \<noteq> [] \<and> semver_Compare E a b \<noteq> 0"
    by (simp add: version_skew_def v)
  have run: "run_state (reconcileMachines E ms) s = run_state
      (if version_skew E s ms then
         if rolls_over (strategy_of s) ?n then
           if ?n = ?d then scale_up E ?d ?n else reconcile_replicas E ?d ?n ?ms
         else if upgrades_in_place (strategy_of s) ?n then in_place_upgrade E (cluster s) ?d ms ?ms
         else reconcile_replicas E ?d ?n ?ms
       else reconcile_replicas E ?d ?n ?ms) s"
    unfolding reconcileMachines_def in_place_upgrade_def strategy_of_def skew
    by (simp only: run_state_bind run_state_gets prod.case w option.case Let_def sorted v
        unless_panic_simps d)
  have plan: "plan_of E s ms =
      (if surges E s ms then Surge else if upgrades_nodes E s ms then In_Place else Adjust)"
    using False by (simp add: plan_of_def split: if_splits)
  show ?thesis
    unfolding run plan surges_def upgrades_nodes_def by simp
qed

lemma machine_effects_same_target:
  "same_target s t \<Longrightarrow> machine_effects E ms t c d es = machine_effects E ms s c d es"
  by (simp add: machine_effects_def owned_machine_same_target)

lemma replica_action_iff:
  "replica_action d (int n) = Create_Machine \<longleftrightarrow> int n < d"
  "replica_action d (int n) = Remove_Machine \<longleftrightarrow> d < int n \<and> 4 \<le> n"
  by (auto simp: replica_action_def)

text \<open>Machine objects are only ever updated to the version \<open>v\<close>.\<close>

definition updates_to :: "string \<Rightarrow> event list \<Rightarrow> bool" where
  "updates_to v es \<longleftrightarrow> (\<forall>x q. Updated (OMachine x) q \<in> set es \<longrightarrow> m_Version x = Some v)"

lemma updates_to_simps [simp]:
  "updates_to v []" "updates_to v (es @ es') \<longleftrightarrow> updates_to v es \<and> updates_to v es'"
  by (auto simp: updates_to_def)

lemma updates_to_none: "filter updates_machine es = [] \<Longrightarrow> updates_to v es"
  by (simp add: updates_to_def no_such_event)

lemma reconcile_replicas_effects:
  assumes "conditions_contract E"
  shows "wp (reconcile_replicas E d (int (length ms)) machines)
     (\<lambda>r es s'. same_target s s' \<and> updates_to v es \<and>
        machine_effects E machines s (int (length ms) < d) (d < int (length ms) \<and> 4 \<le> length ms) es) s"
proof (rule wp_conseq [OF reconcile_replicas_wp [OF assms]])
  fix r es s'
  assume "carries_out E machines (replica_action d (int (length ms))) s r es s'"
  note effects = carries_out_effects [OF this, unfolded replica_action_iff]
  then show "same_target s s' \<and> updates_to v es \<and>
      machine_effects E machines s (int (length ms) < d) (d < int (length ms) \<and> 4 \<le> length ms) es"
    by (simp add: updates_to_none)
qed simp

lemma in_place_upgrade_effects:
  assumes "conditions_contract E"
  shows "wp (in_place_upgrade E c d ms machines)
     (\<lambda>r es s'. same_target s s' \<and> updates_to (sp_Version (mcp_Spec (mcp s))) es \<and>
        machine_effects E machines s (int (length ms) < d) (d < int (length ms) \<and> 4 \<le> length ms) es) s"
    (is "wp _ (\<lambda>r es s'. _ \<and> updates_to ?v es \<and> machine_effects E machines s ?c ?d es) s")
  unfolding in_place_upgrade_def
proof (rule kube.with_client_wp, goal_cases)
  case (1 e es s')
  have "machine_effects E machines s ?c ?d es"
    using machine_effects_surround [OF machine_effects_Nil, of es "[]"]
      connecting_opened [OF 1(1)] connecting_filter [OF 1(1)] by simp
  with 1 show ?case
    using updates_to_none [OF connecting_filter(4) [OF 1(1)]]
    by (intro wp) (simp add: same_target_def)
next
  case (2 kc es s')
  have st: "same_target s s'" using 2 by (simp add: same_target_def)
  have effects: "machine_effects E machines s ?c ?d (es @ es1 @ es2 @ [Closed kc])"
    and updates: "updates_to ?v (es @ es1 @ [Closed kc])"
    if up: "\<forall>e \<in> set es1. upgrading ?v e" and eff: "machine_effects E machines s ?c ?d es2" for es1 es2
  proof -
    show "machine_effects E machines s ?c ?d (es @ es1 @ es2 @ [Closed kc])"
      using machine_effects_surround [OF eff, of "es @ es1" "[Closed kc]"]
        connecting_opened [OF 2(1)] connecting_filter [OF 2(1)] upgrading_quiet [OF up] by simp
    show "updates_to ?v (es @ es1 @ [Closed kc])"
      using updates_to_none [OF connecting_filter(4) [OF 2(1)]] upgrading_quiet(5) [OF up]
      by (auto simp: updates_to_def)
  qed
  note stop = effects [OF _ machine_effects_Nil, simplified]
  note up = upgrade_machines_run [of E kc machines s', unfolded 2(2)]
  show ?case
  proof (rule wp_bind, rule wp_conseq [OF up], rule wp_unless_panic, goal_cases)
    case (1 r es1 t early)
    then have up1: "\<forall>e \<in> set es1. upgrading ?v e" and t: "same_target s t"
      using st by (auto simp: same_target_def dest: upgrade_run_calls)
    show ?case
    proof (cases early)
      case None
      show ?thesis unfolding None option.case
        by (rule wp_conseq [OF reconcile_replicas_effects [OF assms, of _ _ _ _ ?v]])
           (use effects [OF up1] updates [OF up1 machine_effects_Nil] machine_effects_same_target [OF t]
              same_target_trans [OF t] in auto)
    next
      case (Some rep)
      then show ?thesis
        using stop [OF up1] updates [OF up1 machine_effects_Nil] t by (auto intro!: wp_return)
    qed
  next
    case (2 r es1 t p)
    then have "\<forall>e \<in> set es1. upgrading ?v e" and "same_target s t"
      using st by (auto simp: same_target_def dest: upgrade_run_calls)
    then show ?case using stop updates [OF _ machine_effects_Nil] by auto
  qed
qed

text \<open>
  The effects of the whole phase: at most one machine is created or deleted, and when.
\<close>

lemma reconcileMachines_effects:
  assumes "conditions_contract E" and "sort_contract E"
  shows "wp (reconcileMachines E ms)
     (\<lambda>r es s'. same_target s s' \<and> updates_to (sp_Version (mcp_Spec (mcp s))) es \<and>
        machine_effects E ms s (may_create E s ms) (may_delete s ms) es) s"
    (is "wp _ ?Q s")
proof -
  let ?d = "desired_replicas s" and ?ms = "sort_machines E ms"
  have mono: "machine_effects E ?ms s (int (length ms) < ?d) (?d < int (length ms) \<and> 4 \<le> length ms) es \<Longrightarrow>
      machine_effects E ms s (may_create E s ms) (may_delete s ms) es" for es
    unfolding machine_effects_sorted [OF assms(2)]
    by (erule machine_effects_mono) (simp_all add: may_create_def may_delete_def)
  note [simp] = wp_cong [OF reconcileMachines_plan [OF assms(2)]]
  show ?thesis
  proof (cases "plan_of E s ms")
    case Nil_Panic
    then show ?thesis by (auto intro!: wp_return)
  next
    case Surge
    then have "may_create E s ms" by (simp add: may_create_def plan_of_def split: if_splits)
    with Surge show ?thesis
      using carries_out_effects [of E ms Create_Machine s]
      by (auto intro!: wp_conseq [OF scale_up_wp [OF assms(1), of _ _ ms]] updates_to_none
          simp del: carries_out.simps intro: machine_effects_mono)
  next
    case In_Place
    then show ?thesis
      by (auto intro!: wp_conseq [OF in_place_upgrade_effects [OF assms(1)]] mono)
  next
    case Adjust
    then show ?thesis
      by (auto intro!: wp_conseq [OF reconcile_replicas_effects [OF assms(1)]] mono)
  qed
qed

end
