(* ===== verification/Deletion.thy ===== *)
theory Deletion
  imports Machine_Boot
begin

text \<open>
  \<open>reconcileDelete\<close> of \<open>reconcile.go\<close>: the reconciliation of a control plane object that is being
  deleted. Every pass asks for the deletion of the machines that are left and of the cluster's
  secrets; the finalizer goes only when no machine is left.
\<close>

definition requeueDuration :: duration where
  "requeueDuration = 30 * Second"

text \<open>The loop over the machines: the first error other than not-found ends it.\<close>

fun delete_machines :: "'w env \<Rightarrow> Machine list \<Rightarrow> ('w st, error option) state" where
  "delete_machines E [] = return None"
| "delete_machines E (machine # machines) =
     (if \<not> IsZero (om_DeletionTimestamp (m_Meta machine)) then delete_machines E machines
      else do {
        r \<leftarrow> delete_machine E machine;
        case r of
          Some err \<Rightarrow> if \<not> apierrors_IsNotFound E err then return (Some err) else delete_machines E machines
        | None \<Rightarrow> delete_machines E machines })"

definition cluster_secret :: "Cluster \<Rightarrow> string \<Rightarrow> Secret" where
  "cluster_secret c name =
     \<lparr>sec_Meta = empty_meta\<lparr>
        om_Namespace := om_Namespace (cl_Meta c),
        om_Name := om_Name (cl_Meta c) @ ''-'' @ name\<rparr>,
      sec_Data = []\<rparr>"

text \<open>The loop over the secrets: errors are logged only.\<close>

fun delete_secrets :: "'w env \<Rightarrow> Cluster \<Rightarrow> string list \<Rightarrow> ('w st, unit) state" where
  "delete_secrets E c [] = return ()"
| "delete_secrets E c (name # names) = do {
     _ \<leftarrow> delete_secret E (cluster_secret c name);
     delete_secrets E c names }"

definition reconcileDelete :: "'w env \<Rightarrow> ('w st, reply) state" where
  "reconcileDelete E = do {
     c \<leftarrow> gets cluster;
     tcp \<leftarrow> gets mcp;
     r \<leftarrow> getControlPlaneMachinesForCluster E (ObjectKey_of (cl_Meta c)) (om_Name (mcp_Meta tcp));
     case r of Inl err \<Rightarrow> return (no_requeue, Some err) | Inr ownedMachines \<Rightarrow>
     if ownedMachines = [] then do {
       modify (mcp_update (\<lambda>m. m\<lparr>mcp_Meta :=
         controllerutil_RemoveFinalizer E (mcp_Meta m) MicroK8sControlPlaneFinalizer\<rparr>));
       tcp \<leftarrow> gets mcp;
       u \<leftarrow> update_mcp E tcp;
       modify (mcp_update (\<lambda>_. snd u));
       return (no_requeue, fst u) }
     else do {
       e \<leftarrow> delete_machines E ownedMachines;
       case e of Some err \<Rightarrow> return (no_requeue, Some err) | None \<Rightarrow> do {
         delete_secrets E c [''kubeconfig'', ''ca'', ''jointoken''];
         MarkFalse E ResizedCondition (clusterv1_DeletingReason E) SeverityInfo [] [];
         return (requeue_after requeueDuration, None) } } }"

subsection \<open>The deletion requests\<close>

text \<open>The machines a pass asks to delete, and the answers that do not stop it.\<close>

definition live :: "Machine list \<Rightarrow> Machine list" where
  "live ms = filter (\<lambda>m. IsZero (om_DeletionTimestamp (m_Meta m))) ms"

lemma live_Cons:
  "live (m # ms) = (if IsZero (om_DeletionTimestamp (m_Meta m)) then m # live ms else live ms)"
  by (simp add: live_def)

definition tolerated :: "'w env \<Rightarrow> error option \<Rightarrow> bool" where
  "tolerated E q \<longleftrightarrow> (case q of None \<Rightarrow> True | Some err \<Rightarrow> apierrors_IsNotFound E err)"

definition delete_requests :: "Machine list \<Rightarrow> error option list \<Rightarrow> event list" where
  "delete_requests ms qs = map2 (\<lambda>m q. Deleted (OMachine m) q) ms qs"

lemma delete_requests_simps [simp]:
  "delete_requests [] qs = []" "delete_requests ms [] = []"
  "delete_requests (m # ms) (q # qs) = Deleted (OMachine m) q # delete_requests ms qs"
  by (simp_all add: delete_requests_def)

definition requests_made :: "'w env \<Rightarrow> Machine list \<Rightarrow> error option \<Rightarrow> event list \<Rightarrow> bool" where
  "requests_made E ms r es \<longleftrightarrow>
     (\<exists>qs. (\<forall>q \<in> set qs. tolerated E q) \<and>
        (case r of
           None \<Rightarrow> length qs = length (live ms) \<and> es = delete_requests (live ms) qs
         | Some err \<Rightarrow> length qs < length (live ms) \<and> \<not> apierrors_IsNotFound E err \<and>
             es = delete_requests (live ms) qs @ [Deleted (OMachine (live ms ! length qs)) (Some err)]))"

lemma requests_made_Nil: "requests_made E [] None []"
  by (auto simp: requests_made_def live_def)

lemma requests_made_skip:
  "\<not> IsZero (om_DeletionTimestamp (m_Meta m)) \<Longrightarrow> requests_made E (m # ms) r es = requests_made E ms r es"
  by (cases r) (simp_all add: requests_made_def live_Cons)

lemma requests_made_stop:
  assumes "IsZero (om_DeletionTimestamp (m_Meta m))" and "\<not> apierrors_IsNotFound E err"
  shows "requests_made E (m # ms) (Some err) [Deleted (OMachine m) (Some err)]"
  unfolding requests_made_def using assms by (auto simp: live_def intro!: exI [of _ "[]"])

lemma requests_made_next:
  assumes "IsZero (om_DeletionTimestamp (m_Meta m))" and "tolerated E q" and "requests_made E ms r es"
  shows "requests_made E (m # ms) r (Deleted (OMachine m) q # es)"
proof -
  obtain qs where qs: "\<forall>q \<in> set qs. tolerated E q"
    and "case r of
        None \<Rightarrow> length qs = length (live ms) \<and> es = delete_requests (live ms) qs
      | Some err \<Rightarrow> length qs < length (live ms) \<and> \<not> apierrors_IsNotFound E err \<and>
          es = delete_requests (live ms) qs @ [Deleted (OMachine (live ms ! length qs)) (Some err)]"
    using assms(3) unfolding requests_made_def by blast
  moreover have "live (m # ms) = m # live ms" using assms(1) by (simp add: live_def)
  ultimately show ?thesis
    unfolding requests_made_def using assms(2)
    by (intro exI [of _ "q # qs"]) (auto split: option.splits)
qed

lemma delete_machines_wp:
  "wp (delete_machines E ms)
     (\<lambda>r es s'. mcp s' = mcp s \<and> cluster s' = cluster s \<and> requests_made E ms r es) s"
proof (induction ms arbitrary: s)
  case Nil
  show ?case by (simp, rule wp_return) (simp add: requests_made_Nil)
next
  case (Cons m ms s)
  show ?case
    unfolding delete_machines.simps
    by (intro wp wp_conseq [OF Cons.IH])
       (auto intro: requests_made_stop requests_made_next simp: requests_made_skip tolerated_def)
qed

lemma delete_secrets_wp:
  "wp (delete_secrets E c ns)
     (\<lambda>r es s'. mcp s' = mcp s \<and> cluster s' = cluster s \<and>
        (\<exists>qs. length qs = length ns \<and>
           es = map2 (\<lambda>n q. Deleted (OSecret (cluster_secret c n)) q) ns qs)) s"
proof (induction ns arbitrary: s)
  case Nil
  show ?case by (simp, rule wp_return) simp
next
  case (Cons n ns s)
  show ?case
    unfolding delete_secrets.simps
  proof (intro wp wp_conseq [OF Cons.IH], clarsimp)
    fix q and qs :: "error option list"
    assume "length qs = length ns"
    then show "\<exists>qs'. length qs' = Suc (length ns) \<and>
        Deleted (OSecret (cluster_secret c n)) q #
          map2 (\<lambda>n q. Deleted (OSecret (cluster_secret c n)) q) ns qs =
        map2 (\<lambda>n q. Deleted (OSecret (cluster_secret c n)) q) (n # ns) qs'"
      by (intro exI [of _ "q # qs"]) simp
  qed
qed

subsection \<open>The pass\<close>

text \<open>
  What a pass does, by the answer to the list call. The finalizer is taken off exactly when the list
  is empty; otherwise the machines not yet being deleted are deleted in order up to the first
  error that stops the loop, and only a loop that was not stopped goes on to the secrets.
\<close>

definition secret_requests :: "Cluster \<Rightarrow> error option list \<Rightarrow> event list" where
  "secret_requests c qs =
     map2 (\<lambda>n q. Deleted (OSecret (cluster_secret c n)) q) [''kubeconfig'', ''ca'', ''jointoken''] qs"

definition delete_pass ::
  "'w env \<Rightarrow> (error + Machine list) \<Rightarrow> 'w st \<Rightarrow> reply \<Rightarrow> event list \<Rightarrow> 'w st \<Rightarrow> bool" where
  "delete_pass E listing s reply es s' \<longleftrightarrow>
     (case listing of
        Inl err \<Rightarrow> reply = (no_requeue, Some err) \<and> es = [Read ''List Machines''] \<and>
          mcp s' = mcp s
      | Inr [] \<Rightarrow>
          (let obj = (mcp s)\<lparr>mcp_Meta := controllerutil_RemoveFinalizer E (mcp_Meta (mcp s))
                       MicroK8sControlPlaneFinalizer\<rparr>
           in fst reply = no_requeue \<and> es = [Read ''List Machines'', Updated (OMCP obj) (snd reply)] \<and>
              (\<exists>w w'. Client_Update_mcp E obj w = ((snd reply, mcp s'), w')))
      | Inr ms \<Rightarrow>
          (\<exists>err ds. requests_made E ms (Some err) ds \<and> reply = (no_requeue, Some err) \<and>
             es = Read ''List Machines'' # ds \<and> mcp s' = mcp s) \<or>
          (\<exists>ds qs. requests_made E ms None ds \<and> length qs = 3 \<and>
             reply = (requeue_after requeueDuration, None) \<and>
             es = Read ''List Machines'' # ds @ secret_requests (cluster s) qs \<and>
             mcp s' = SetConditions
               (conditions_MarkFalse E ResizedCondition (clusterv1_DeletingReason E) SeverityInfo [] []
                 (GetConditions (mcp s))) (mcp s)))"

lemma reconcileDelete_wp:
  assumes "Client_List_machines E (om_Namespace (cl_Meta (cluster s)))
      (control_plane_labels E (om_Name (cl_Meta (cluster s)))) (world s) = (listing, w)"
  shows "wp (reconcileDelete E)
     (\<lambda>reply es s'. cluster s' = cluster s \<and> delete_pass E listing s reply es s') s"
  unfolding reconcileDelete_def getControlPlaneMachinesForCluster_def ObjectKey_of_def
  by (intro wp wp_conseq [OF delete_machines_wp] wp_conseq [OF delete_secrets_wp])
     (auto simp: delete_pass_def secret_requests_def assms numeral_3_eq_3 split: list.splits,
      (intro exI conjI, assumption, assumption, rule refl)?)

end
