(* ===== verification/Status.thy ===== *)
theory Status
  imports Machine_Boot Kubeconfig
begin

text \<open>
  \<open>controllers/status.go\<close>: the provider IDs of the workload nodes and the status of the control
  plane object, as the deferred part of every reconciliation recomputes it.
\<close>

subsection \<open>Provider IDs\<close>

text \<open>The pointer to the loop variable is returned at once, so it stands for the machine found.\<close>

fun findMachineWithAddress :: "Machine list \<Rightarrow> string \<times> string \<Rightarrow> Machine option" where
  "findMachineWithAddress [] address = None"
| "findMachineWithAddress (machine # machines) address =
     (if list_ex (\<lambda>maddress. snd maddress = snd address) (m_Addresses machine) then Some machine
      else findMachineWithAddress machines address)"

text \<open>
  The loop over the addresses of one node; a machine without a provider ID is a nil dereference.
  The result is what the surrounding loop returns with, or \<open>None\<close> to go on with the next node.
\<close>

fun provider_addresses ::
  "'w env \<Rightarrow> kubernetesClient \<Rightarrow> Machine list \<Rightarrow> Node \<Rightarrow> (string \<times> string) list
    \<Rightarrow> ('w st, error option outcome) state" where
  "provider_addresses E kubeclient machines node [] = return (Ret None)"
| "provider_addresses E kubeclient machines node (address # addresses) =
     (case findMachineWithAddress machines address of
        None \<Rightarrow> provider_addresses E kubeclient machines node addresses
      | Some machine \<Rightarrow>
         (case m_ProviderID machine of
            None \<Rightarrow> return (Panic NilDereference)
          | Some pid \<Rightarrow> do {
              r \<leftarrow> update_node E kubeclient (node\<lparr>n_ProviderID := pid\<rparr>);
              return (Ret r) }))"

fun provider_nodes ::
  "'w env \<Rightarrow> kubernetesClient \<Rightarrow> Machine list \<Rightarrow> Node list \<Rightarrow> ('w st, error option outcome) state" where
  "provider_nodes E kubeclient machines [] = return (Ret None)"
| "provider_nodes E kubeclient machines (node # nodes) =
     (if \<not> util_IsNodeReady E node \<or> n_ProviderID node \<noteq> [] then provider_nodes E kubeclient machines nodes
      else do {
        r \<leftarrow> provider_addresses E kubeclient machines node (n_Addresses node);
        unless_panic r (\<lambda>e. case e of
          Some err \<Rightarrow> return (Ret (Some err))
        | None \<Rightarrow> provider_nodes E kubeclient machines nodes) })"

definition updateProviderID ::
  "'w env \<Rightarrow> ObjectKey \<Rightarrow> kubernetesClient \<Rightarrow> ('w st, error option outcome) state" where
  "updateProviderID E c kubeclient = do {
     nodes \<leftarrow> list_nodes E kubeclient [];
     case nodes of Inl err \<Rightarrow> return (Ret (Some err)) | Inr nodes \<Rightarrow> do {
     machines \<leftarrow> list_machines E (key_Namespace c) [(clusterv1_ClusterLabelName E, key_Name c)];
     case machines of Inl err \<Rightarrow> return (Ret (Some err)) | Inr machines \<Rightarrow>
     provider_nodes E kubeclient machines nodes } }"

subsection \<open>The status\<close>

definition set_status ::
  "(MicroK8sControlPlaneStatus \<Rightarrow> MicroK8sControlPlaneStatus) \<Rightarrow> ('w st, unit) state" where
  "set_status f = modify (mcp_update (\<lambda>m. m\<lparr>mcp_Status := f (mcp_Status m)\<rparr>))"

text \<open>The loop that counts the ready nodes; the counter is an \<open>int32\<close> and wraps around.\<close>

definition count_ready :: "'w env \<Rightarrow> Node list \<Rightarrow> int32 \<Rightarrow> int32" where
  "count_ready E nodes = fold (\<lambda>node n. if util_IsNodeReady E node then n + 1 else n) nodes"

text \<open>The part of \<open>updateStatus\<close> that runs with a client of the workload cluster.\<close>

definition observe_nodes ::
  "'w env \<Rightarrow> ObjectKey \<Rightarrow> int32 \<Rightarrow> kubernetesClient \<Rightarrow> ('w st, error option outcome) state" where
  "observe_nodes E k replicas kubeclient = do {
     r \<leftarrow> updateProviderID E k kubeclient;
     unless_panic r (\<lambda>e. case e of Some err \<Rightarrow> return (Ret (Some err)) | None \<Rightarrow>
     (case exists_selector_String E ''node.kubernetes.io/microk8s-controlplane'' of
        Inl err \<Rightarrow> return (Ret (Some err))
      | Inr nodeSelector \<Rightarrow> do {
     nodes \<leftarrow> list_nodes E kubeclient nodeSelector;
     case nodes of Inl err \<Rightarrow> return (Ret (Some err)) | Inr nodes \<Rightarrow> do {
     set_status (\<lambda>st. st\<lparr>st_ReadyReplicas := count_ready E nodes (st_ReadyReplicas st)\<rparr>);
     set_status (\<lambda>st. st\<lparr>st_UnavailableReplicas := replicas - st_ReadyReplicas st\<rparr>);
     (if nodes \<noteq> [] then do {
        set_status (\<lambda>st. st\<lparr>st_Initialized := True\<rparr>);
        MarkTrue E AvailableCondition;
        set_status (\<lambda>st. st\<lparr>st_Ready := True\<rparr>) }
      else return ());
     return (Ret None) } })) }"

definition workload_status :: "'w env \<Rightarrow> ObjectKey \<Rightarrow> int32 \<Rightarrow> ('w st, error option outcome) state" where
  "workload_status E k replicas = do {
     r \<leftarrow> kubeconfigForCluster E k;
     case r of
       Inl err \<Rightarrow> return (Ret None)
     | Inr kubeclient \<Rightarrow> deferring (Close E kubeclient) (observe_nodes E k replicas kubeclient) }"

definition updateStatus :: "'w env \<Rightarrow> ('w st, error option outcome) state" where
  "updateStatus E = do {
     c \<leftarrow> gets cluster;
     case label_selector_String E (control_plane_labels E (om_Name (cl_Meta c))) of
       Inl err \<Rightarrow> return (Ret (Some (Wrapped err ''failed to parse label selector'')))
     | Inr selector \<Rightarrow> do {
     set_status (\<lambda>st. st\<lparr>st_Selector := selector\<rparr>);
     m \<leftarrow> gets mcp;
     r \<leftarrow> getControlPlaneMachinesForCluster E (ObjectKey_of (cl_Meta c)) (om_Name (mcp_Meta m));
     case r of Inl err \<Rightarrow> return (Ret (Some err)) | Inr ownedMachines \<Rightarrow>
     (let replicas = (of_nat (length ownedMachines) :: int32) in do {
     set_status (\<lambda>st. st\<lparr>st_Ready := False\<rparr>);
     set_status (\<lambda>st. st\<lparr>st_Replicas := replicas\<rparr>);
     set_status (\<lambda>st. st\<lparr>st_ReadyReplicas := 0\<rparr>);
     set_status (\<lambda>st. st\<lparr>st_UnavailableReplicas := replicas\<rparr>);
     m \<leftarrow> gets mcp;
     if \<not> IsZero (om_DeletionTimestamp (mcp_Meta m)) then return (Ret None)
     else workload_status E (ObjectKey_of (cl_Meta c)) replicas }) } }"

subsection \<open>Which nodes are updated\<close>

lemma findMachineWithAddress_find:
  "findMachineWithAddress ms a = find (\<lambda>m. snd a \<in> snd ` set (m_Addresses m)) ms"
proof (induction ms)
  case (Cons m ms)
  have "list_ex (\<lambda>x. snd x = snd a) (m_Addresses m) \<longleftrightarrow> snd a \<in> snd ` set (m_Addresses m)"
    unfolding list_ex_iff image_iff by metis
  with Cons show ?case by simp
qed simp

lemma find_first_split:
  assumes "find P xs = Some x"
  shows "\<exists>ys zs. xs = ys @ x # zs \<and> P x \<and> (\<forall>y \<in> set ys. \<not> P y)"
proof -
  from assms obtain zs where zs: "dropWhile (\<lambda>y. \<not> P y) xs = x # zs"
    by (auto simp: find_dropWhile comp_def split: list.splits)
  then have "P x" using hd_dropWhile [of "\<lambda>y. \<not> P y" xs] by simp
  moreover have "xs = takeWhile (\<lambda>y. \<not> P y) xs @ x # zs"
    using takeWhile_dropWhile_id [of "\<lambda>y. \<not> P y" xs] unfolding zs by (rule sym)
  ultimately show ?thesis using set_takeWhileD [of _ "\<lambda>y. \<not> P y" xs] by blast
qed

text \<open>The machine of a node: the first one that has the first address any machine has.\<close>

fun machine_of_addresses :: "Machine list \<Rightarrow> (string \<times> string) list \<Rightarrow> Machine option" where
  "machine_of_addresses ms [] = None"
| "machine_of_addresses ms (a # as) =
     (case find (\<lambda>m. snd a \<in> snd ` set (m_Addresses m)) ms of
        None \<Rightarrow> machine_of_addresses ms as
      | Some m \<Rightarrow> Some m)"

lemma machine_of_addresses_first:
  assumes "machine_of_addresses ms as = Some m"
  shows "\<exists>pre a post ms1 ms2. as = pre @ a # post \<and> ms = ms1 @ m # ms2 \<and>
     (\<forall>b \<in> set pre. \<forall>x \<in> set ms. snd b \<notin> snd ` set (m_Addresses x)) \<and>
     snd a \<in> snd ` set (m_Addresses m) \<and> (\<forall>x \<in> set ms1. snd a \<notin> snd ` set (m_Addresses x))"
  using assms
proof (induction "as")
  case (Cons a "as")
  show ?case
  proof (cases "find (\<lambda>m. snd a \<in> snd ` set (m_Addresses m)) ms")
    case None
    then have a: "\<forall>x \<in> set ms. snd a \<notin> snd ` set (m_Addresses x)" by (auto simp: find_None_iff)
    from None Cons.prems have "machine_of_addresses ms as = Some m" by simp
    from Cons.IH [OF this] obtain pre a' post ms1 ms2 where split: "ms = ms1 @ m # ms2"
        "snd a' \<in> snd ` set (m_Addresses m)" "\<forall>x \<in> set ms1. snd a' \<notin> snd ` set (m_Addresses x)"
      and "as = pre @ a' # post"
      and "\<forall>b \<in> set pre. \<forall>x \<in> set ms. snd b \<notin> snd ` set (m_Addresses x)" by blast
    with a have "a # as = (a # pre) @ a' # post"
      and "\<forall>b \<in> set (a # pre). \<forall>x \<in> set ms. snd b \<notin> snd ` set (m_Addresses x)" by simp_all
    with split show ?thesis by blast
  next
    case (Some x)
    with Cons.prems have "find (\<lambda>m. snd a \<in> snd ` set (m_Addresses m)) ms = Some m" by simp
    from find_first_split [OF this] obtain ms1 ms2 where "ms = ms1 @ m # ms2"
      and "snd a \<in> snd ` set (m_Addresses m)"
      and "\<forall>x \<in> set ms1. snd a \<notin> snd ` set (m_Addresses x)" by (elim exE conjE) rule
    moreover have "a # as = [] @ a # as" and "\<forall>b \<in> set []. \<forall>x \<in> set ms. snd b \<notin> snd ` set (m_Addresses x)"
      by simp_all
    ultimately show ?thesis by blast
  qed
qed simp

lemma machine_of_addresses_None:
  "machine_of_addresses ms as = None \<longleftrightarrow>
   (\<forall>m \<in> set ms. snd ` set as \<inter> snd ` set (m_Addresses m) = {})"
  by (induction as) (auto simp: find_None_iff find_Some_iff split: option.splits)

text \<open>What one node asks for: nothing, an update, or the nil dereference.\<close>

definition lacks_provider :: "'w env \<Rightarrow> Node \<Rightarrow> bool" where
  "lacks_provider E node \<longleftrightarrow> util_IsNodeReady E node \<and> n_ProviderID node = []"

definition provider_update :: "'w env \<Rightarrow> Machine list \<Rightarrow> Node list \<Rightarrow> event \<Rightarrow> bool" where
  "provider_update E ms nodes e \<longleftrightarrow>
     (\<exists>node \<in> set nodes. \<exists>m pid r. lacks_provider E node \<and>
        machine_of_addresses ms (n_Addresses node) = Some m \<and> m_ProviderID m = Some pid \<and>
        e = WorkloadUpdated (ONode (node\<lparr>n_ProviderID := pid\<rparr>)) r)"

lemma provider_addresses_run:
  "provider_addresses E kc ms node as =
     (case machine_of_addresses ms as of
        None \<Rightarrow> return (Ret None)
      | Some m \<Rightarrow>
         (case m_ProviderID m of
            None \<Rightarrow> return (Panic NilDereference)
          | Some pid \<Rightarrow> do {
              r \<leftarrow> update_node E kc (node\<lparr>n_ProviderID := pid\<rparr>);
              return (Ret r) }))"
  by (induction as) (auto simp: findMachineWithAddress_find split: option.splits)

text \<open>
  The updates of the nodes in their order, up to the first that is refused or to the first node
  whose machine has no provider ID, which panics.
\<close>

inductive provider_run :: "'w env \<Rightarrow> Machine list \<Rightarrow> Node list \<Rightarrow> error option outcome \<Rightarrow> event list \<Rightarrow> bool"
  for E :: "'w env" and ms :: "Machine list" where
  no_node_left: "provider_run E ms [] (Ret None) []"
| node_skipped:
    "\<not> lacks_provider E node \<or> machine_of_addresses ms (n_Addresses node) = None \<Longrightarrow>
     provider_run E ms nodes r es \<Longrightarrow> provider_run E ms (node # nodes) r es"
| machine_without_id:
    "lacks_provider E node \<Longrightarrow> machine_of_addresses ms (n_Addresses node) = Some m \<Longrightarrow>
     m_ProviderID m = None \<Longrightarrow> provider_run E ms (node # nodes) (Panic NilDereference) []"
| node_refused:
    "lacks_provider E node \<Longrightarrow> machine_of_addresses ms (n_Addresses node) = Some m \<Longrightarrow>
     m_ProviderID m = Some pid \<Longrightarrow>
     provider_run E ms (node # nodes) (Ret (Some err))
       [WorkloadUpdated (ONode (node\<lparr>n_ProviderID := pid\<rparr>)) (Some err)]"
| node_updated:
    "lacks_provider E node \<Longrightarrow> machine_of_addresses ms (n_Addresses node) = Some m \<Longrightarrow>
     m_ProviderID m = Some pid \<Longrightarrow> provider_run E ms nodes r es \<Longrightarrow>
     provider_run E ms (node # nodes) r
       (WorkloadUpdated (ONode (node\<lparr>n_ProviderID := pid\<rparr>)) None # es)"

lemma provider_nodes_wp:
  "wp (provider_nodes E kc ms nodes)
     (\<lambda>r es s'. mcp s' = mcp s \<and> cluster s' = cluster s \<and> provider_run E ms nodes r es) s"
proof (induction nodes arbitrary: s)
  case Nil
  show ?case unfolding provider_nodes.simps by (intro wp) (simp add: no_node_left)
next
  case (Cons n ns s)
  show ?case
    unfolding provider_nodes.simps provider_addresses_run
    by (intro wp wp_conseq [OF Cons.IH])
       (auto simp: lacks_provider_def intro: node_skipped machine_without_id node_refused node_updated)
qed

lemma provider_run_updates:
  assumes "provider_run E ms nodes r es"
  shows "\<forall>e \<in> set es. provider_update E ms nodes e"
  using assms by induction (auto simp: provider_update_def)

text \<open>The loop over a list of nodes that ends in another one.\<close>

lemma provider_nodes_append:
  "run_state (provider_nodes E kc ms (xs @ ys)) s =
     (let (r, t) = run_state (provider_nodes E kc ms xs) s
      in if r = Ret None then run_state (provider_nodes E kc ms ys) t else (r, t))"
proof (induction xs arbitrary: s)
  case (Cons x xs)
  show ?case
    unfolding provider_nodes.simps append_Cons
    by (auto simp: Cons.IH unless_panic_def Let_def split: outcome.split option.split prod.split)
qed simp

text \<open>The whole of \<open>updateProviderID\<close>, each way tied to the answers of the two lists.\<close>

inductive provider_id_run ::
  "'w env \<Rightarrow> ObjectKey \<Rightarrow> kubernetesClient \<Rightarrow> error option outcome \<Rightarrow> event list \<Rightarrow> bool"
  for E :: "'w env" and k :: ObjectKey and kc :: kubernetesClient where
  workload_unlisted:
    "Nodes_List E (kc_Clientset kc) [] w = (Inl err, w') \<Longrightarrow>
     provider_id_run E k kc (Ret (Some err)) [WorkloadRead ''List Nodes'']"
| machines_unlisted:
    "Nodes_List E (kc_Clientset kc) [] w = (Inr nodes, w') \<Longrightarrow>
     Client_List_machines E (key_Namespace k) [(clusterv1_ClusterLabelName E, key_Name k)] w' = (Inl err, w'') \<Longrightarrow>
     provider_id_run E k kc (Ret (Some err)) [WorkloadRead ''List Nodes'', Read ''List Machines'']"
| both_listed:
    "Nodes_List E (kc_Clientset kc) [] w = (Inr nodes, w') \<Longrightarrow>
     Client_List_machines E (key_Namespace k) [(clusterv1_ClusterLabelName E, key_Name k)] w' = (Inr ms, w'') \<Longrightarrow>
     provider_run E ms nodes r es \<Longrightarrow>
     provider_id_run E k kc r (WorkloadRead ''List Nodes'' # Read ''List Machines'' # es)"

lemma updateProviderID_wp:
  "wp (updateProviderID E k kc)
     (\<lambda>r es s'. mcp s' = mcp s \<and> cluster s' = cluster s \<and> provider_id_run E k kc r es) s"
  unfolding updateProviderID_def
  by (intro wp wp_conseq [OF provider_nodes_wp]) (auto intro: provider_id_run.intros)

lemma provider_id_run_calls:
  assumes "provider_id_run E k kc r es" and "e \<in> set es"
  shows "e \<in> {WorkloadRead ''List Nodes'', Read ''List Machines''} \<or> (\<exists>ms nodes. provider_update E ms nodes e)"
  using assms by (cases rule: provider_id_run.cases) (auto dest: provider_run_updates)

subsection \<open>The computed status\<close>

lemma count_ready_filter:
  "count_ready E nodes n = n + of_nat (length (filter (util_IsNodeReady E) nodes))"
  by (induction nodes arbitrary: n) (simp_all add: count_ready_def)

text \<open>
  The status as a function of the machines listed and of the nodes of the workload cluster, where
  \<open>None\<close> stands for a workload cluster that was not asked or gave no answer.
\<close>

definition computed_status ::
  "'w env \<Rightarrow> string \<Rightarrow> Machine list \<Rightarrow> Node list option \<Rightarrow> MicroK8sControlPlaneStatus
    \<Rightarrow> MicroK8sControlPlaneStatus" where
  "computed_status E selector ms view st =
     (let n = of_nat (length ms);
          ready = (case view of None \<Rightarrow> 0
                   | Some nodes \<Rightarrow> of_nat (length (filter (util_IsNodeReady E) nodes)));
          up = (view \<noteq> None \<and> view \<noteq> Some [])
      in st\<lparr>st_Selector := selector, st_Replicas := n, st_ReadyReplicas := ready,
            st_UnavailableReplicas := n - ready, st_Initialized := up \<or> st_Initialized st,
            st_Ready := up,
            st_Conditions := (if up then conditions_MarkTrue E AvailableCondition (st_Conditions st)
                              else st_Conditions st)\<rparr>)"

text \<open>
  How the view comes about once there is a client: an update of the provider IDs that fails, a
  selector that cannot be built and a list that is refused leave no view and decide the result;
  otherwise the nodes are those of that list.
\<close>

inductive observe_run ::
  "'w env \<Rightarrow> ObjectKey \<Rightarrow> kubernetesClient \<Rightarrow> error option outcome \<Rightarrow> event list \<Rightarrow> Node list option \<Rightarrow> bool"
  for E :: "'w env" and k :: ObjectKey and kc :: kubernetesClient where
  providers_failed:
    "provider_id_run E k kc r es \<Longrightarrow> r \<noteq> Ret None \<Longrightarrow> observe_run E k kc r es None"
| no_selector:
    "provider_id_run E k kc (Ret None) es \<Longrightarrow>
     exists_selector_String E ''node.kubernetes.io/microk8s-controlplane'' = Inl err \<Longrightarrow>
     observe_run E k kc (Ret (Some err)) es None"
| nodes_unlisted:
    "provider_id_run E k kc (Ret None) es \<Longrightarrow>
     exists_selector_String E ''node.kubernetes.io/microk8s-controlplane'' = Inr sel \<Longrightarrow>
     Nodes_List E (kc_Clientset kc) sel w = (Inl err, w') \<Longrightarrow>
     observe_run E k kc (Ret (Some err)) (es @ [WorkloadRead ''List Nodes'']) None"
| nodes_listed:
    "provider_id_run E k kc (Ret None) es \<Longrightarrow>
     exists_selector_String E ''node.kubernetes.io/microk8s-controlplane'' = Inr sel \<Longrightarrow>
     Nodes_List E (kc_Clientset kc) sel w = (Inr nodes, w') \<Longrightarrow>
     observe_run E k kc (Ret None) (es @ [WorkloadRead ''List Nodes'']) (Some nodes)"

text \<open>The workload cluster is always asked: there is no view without a client or after a failure of it.\<close>

inductive view_run ::
  "'w env \<Rightarrow> ObjectKey \<Rightarrow> error option outcome \<Rightarrow> event list \<Rightarrow> Node list option \<Rightarrow> bool"
  for E :: "'w env" and k :: ObjectKey where
  unreachable: "connecting (Inl err) es \<Longrightarrow> view_run E k (Ret None) es None"
| reached:
    "connecting (Inr kc) es \<Longrightarrow> observe_run E k kc r es' view \<Longrightarrow>
     view_run E k r (es @ es' @ [Closed kc]) view"

lemma view_run_seen:
  assumes "view_run E k r es (Some nodes)"
  shows "\<exists>cs sel w w'. Nodes_List E cs sel w = (Inr nodes, w')"
  using assms by (auto elim!: view_run.cases observe_run.cases)

text \<open>The calls of a status update: it observes, stores the kubeconfig and sets provider IDs.\<close>

definition status_call :: "'w env \<Rightarrow> event \<Rightarrow> bool" where
  "status_call E e \<longleftrightarrow> secret_only e \<or> (\<exists>ms nodes. provider_update E ms nodes e)"

lemma status_callI:
  "secret_only e \<Longrightarrow> status_call E e"
  "provider_update E ms nodes e \<Longrightarrow> status_call E e"
  by (auto simp: status_call_def)

lemma provider_update_quiet:
  "provider_update E ms nodes e \<Longrightarrow> \<not> connects e \<and> \<not> closes e"
  by (auto simp: provider_update_def)

definition basic_status :: "string \<Rightarrow> int32 \<Rightarrow> MicroK8sControlPlaneStatus \<Rightarrow> MicroK8sControlPlaneStatus" where
  "basic_status selector n st = st\<lparr>st_Selector := selector, st_Replicas := n, st_ReadyReplicas := 0,
     st_UnavailableReplicas := n, st_Ready := False\<rparr>"

lemma computed_status_None:
  "computed_status E selector ms None st = basic_status selector (of_nat (length ms)) st"
  by (simp add: computed_status_def basic_status_def Let_def)

lemma wp_set_status [wp]:
  "Q () [] (mcp_update (\<lambda>m. m\<lparr>mcp_Status := f (mcp_Status m)\<rparr>) s) \<Longrightarrow> wp (set_status f) Q s"
  unfolding set_status_def by (rule wp_modify_mcp)

lemma observe_nodes_wp:
  assumes "mcp_Status (mcp s) = basic_status selector (of_nat (length ms)) st"
  shows "wp (observe_nodes E k (of_nat (length ms)) kc)
     (\<lambda>r es s'. same_target s s' \<and>
        (\<exists>view. mcp_Status (mcp s') = computed_status E selector ms view st \<and> observe_run E k kc r es view)) s"
proof -
  have unseen: "\<exists>view. mcp_Status (mcp s) = computed_status E selector ms view st \<and> observe_run E k kc r es view"
    if "observe_run E k kc r es None" for r es
    using that by (intro exI [of _ None]) (simp add: assms computed_status_None)
  have seen: "\<exists>view. x = computed_status E selector ms view st \<and> observe_run E k kc r es view"
    if "observe_run E k kc r es (Some nodes)"
      and "x = computed_status E selector ms (Some nodes) st" for x nodes r es
    using that by blast
  show ?thesis
    unfolding observe_nodes_def
    by (intro wp wp_conseq [OF updateProviderID_wp],
        simp_all add: same_target_def unseen providers_failed no_selector nodes_unlisted)
      (elim conjE, rule seen, rule nodes_listed, assumption, assumption, assumption,
       simp add: assms computed_status_def basic_status_def Let_def count_ready_filter
         SetConditions_def GetConditions_def)+
qed

lemma observe_run_calls:
  assumes "observe_run E k kc r es view" and "e \<in> set es"
  shows "status_call E e" and "\<not> connects e" and "\<not> closes e"
proof -
  have "status_call E e \<and> \<not> connects e \<and> \<not> closes e"
    if "provider_id_run E k kc q es'" and "e \<in> set es'" for q es'
    using provider_id_run_calls [OF that] provider_update_quiet by (auto intro: status_callI)
  then show "status_call E e" and "\<not> connects e" and "\<not> closes e"
    using assms by (auto elim!: observe_run.cases simp: status_call_def)
qed

text \<open>
  The whole update. Without a selector it does nothing; after a failed list it has stored the selector
  only; after a successful one the status is the computed one, for the view the workload cluster gave
  when it was asked. Of an object that is being deleted the workload cluster is not asked at all.
\<close>

definition status_update ::
  "'w env \<Rightarrow> string \<Rightarrow> (error + Machine list) \<Rightarrow> 'w st \<Rightarrow> error option outcome \<Rightarrow> event list
    \<Rightarrow> 'w st \<Rightarrow> bool" where
  "status_update E selector listing s r es s' \<longleftrightarrow>
     (case listing of
        Inl err \<Rightarrow> r = Ret (Some err) \<and> es = [Read ''List Machines''] \<and>
          mcp_Status (mcp s') = (mcp_Status (mcp s))\<lparr>st_Selector := selector\<rparr>
      | Inr ms \<Rightarrow>
          (\<exists>view. mcp_Status (mcp s') = computed_status E selector ms view (mcp_Status (mcp s)) \<and>
             (if IsZero (om_DeletionTimestamp (mcp_Meta (mcp s)))
              then \<exists>es'. es = Read ''List Machines'' # es' \<and>
                view_run E (ObjectKey_of (cl_Meta (cluster s))) r es' view
              else view = None \<and> r = Ret None \<and> es = [Read ''List Machines''])))"

definition status_run :: "'w env \<Rightarrow> 'w st \<Rightarrow> error option outcome \<Rightarrow> event list \<Rightarrow> 'w st \<Rightarrow> bool" where
  "status_run E s r es s' \<longleftrightarrow>
     (case label_selector_String E (control_plane_labels E (om_Name (cl_Meta (cluster s)))) of
        Inl err \<Rightarrow> r = Ret (Some (Wrapped err ''failed to parse label selector'')) \<and> es = [] \<and>
          mcp_Status (mcp s') = mcp_Status (mcp s)
      | Inr selector \<Rightarrow>
          (\<exists>listing w w'. Client_List_machines E (om_Namespace (cl_Meta (cluster s)))
             (control_plane_labels E (om_Name (cl_Meta (cluster s)))) w = (listing, w') \<and>
             status_update E selector listing s r es s'))"

lemma connecting_status_call:
  "connecting r es \<Longrightarrow> \<forall>e \<in> set es. status_call E e"
  by (auto simp: connecting_def status_call_def split: sum.splits)

lemma opened_none: "\<forall>e \<in> set es. \<not> connects e \<Longrightarrow> opened es = []"
  by (induction es) (auto split: event.splits)

lemma closed_none: "\<forall>e \<in> set es. \<not> closes e \<Longrightarrow> closed es = []"
  by (induction es) (auto split: event.splits)

lemma connecting_balance:
  assumes "connecting r es"
  shows "closed es = []" and "opened es = (case r of Inl _ \<Rightarrow> [] | Inr kc \<Rightarrow> [kc])"
  using assms by (auto simp: connecting_def opened_none closed_none split: sum.splits)

lemma workload_status_wp:
  assumes "mcp_Status (mcp s) = basic_status selector (of_nat (length ms)) st"
  shows "wp (workload_status E k (of_nat (length ms)))
     (\<lambda>r es s'. same_target s s' \<and>
        (\<exists>view. mcp_Status (mcp s') = computed_status E selector ms view st \<and> view_run E k r es view)) s"
  unfolding workload_status_def
proof (rule kube.with_client_wp, goal_cases)
  case (1 e es s')
  then show ?case
    using assms unreachable [OF 1(1)]
    by (intro wp) (auto simp: same_objects_same_target computed_status_None intro!: exI [of _ None])
next
  case (2 kc es s')
  have base: "mcp_Status (mcp s') = basic_status selector (of_nat (length ms)) st"
    using assms 2(2) by simp
  show ?case
    by (rule wp_conseq [OF observe_nodes_wp [OF base]])
       (use 2(2,3) in \<open>auto simp: same_target_def dest: reached [OF 2(1)]\<close>)
qed

lemma view_run_calls:
  assumes "view_run E k r es view"
  shows "(\<forall>e \<in> set es. status_call E e) \<and> mset (opened es) = mset (closed es)"
  using assms
proof cases
  case (unreachable err)
  then show ?thesis using connecting_status_call connecting_balance by fastforce
next
  case (reached kc es1 es2)
  have "\<forall>e \<in> set es2. status_call E e \<and> \<not> connects e \<and> \<not> closes e"
    using observe_run_calls [OF reached(3)] by blast
  moreover have "status_call E (Closed kc)" by (simp add: status_call_def)
  ultimately show ?thesis
    using reached(1) connecting_status_call [OF reached(2)] connecting_balance [OF reached(2)]
    by (auto simp: opened_none closed_none)
qed

lemma updateStatus_wp:
  assumes "label_selector_String E (control_plane_labels E (om_Name (cl_Meta (cluster s)))) = Inr selector"
    and "Client_List_machines E (om_Namespace (cl_Meta (cluster s)))
      (control_plane_labels E (om_Name (cl_Meta (cluster s)))) (world s) = (listing, w)"
  shows "wp (updateStatus E)
     (\<lambda>r es s'. same_target s s' \<and> status_update E selector listing s r es s') s"
  unfolding updateStatus_def getControlPlaneMachinesForCluster_def
  by (intro wp wp_conseq [OF workload_status_wp [where selector = selector and st = "mcp_Status (mcp s)"]];
      simp add: assms ObjectKey_of_def)
    (auto simp: same_target_def status_update_def basic_status_def computed_status_None ObjectKey_of_def)

text \<open>What holds of every update, whatever the management cluster answers.\<close>

lemma updateStatus_run:
  "wp (updateStatus E) (\<lambda>r es s'. same_target s s' \<and> status_run E s r es s') s"
proof (cases "label_selector_String E (control_plane_labels E (om_Name (cl_Meta (cluster s))))")
  case (Inl err)
  then show ?thesis unfolding updateStatus_def by (intro wp) (simp_all add: status_run_def)
next
  case (Inr selector)
  obtain listing w where l: "Client_List_machines E (om_Namespace (cl_Meta (cluster s)))
      (control_plane_labels E (om_Name (cl_Meta (cluster s)))) (world s) = (listing, w)"
    by fastforce
  show ?thesis
    by (rule wp_conseq [OF updateStatus_wp [OF Inr l]]) (use l in \<open>auto simp: status_run_def Inr\<close>)
qed

lemma status_update_events:
  assumes "status_update E selector listing s r es s'"
  shows "es = [Read ''List Machines''] \<or>
    (\<exists>k es' view. es = Read ''List Machines'' # es' \<and> view_run E k r es' view)"
  using assms unfolding status_update_def by (cases listing) (auto split: if_splits)

lemma status_run_calls:
  assumes "status_run E s r es s'"
  shows "(\<forall>e \<in> set es. status_call E e) \<and> mset (opened es) = mset (closed es)"
proof -
  consider "es = []" | selector listing where "status_update E selector listing s r es s'"
    using assms unfolding status_run_def
    by (cases "label_selector_String E (control_plane_labels E (om_Name (cl_Meta (cluster s))))") auto
  then show ?thesis
  proof cases
    case 2
    from status_update_events [OF this] show ?thesis
      by (elim disjE exE conjE) (auto simp: status_callI dest: view_run_calls)
  qed simp
qed

text \<open>The counters read as numbers, below the bound of the 32 bit fields.\<close>

lemma computed_status_counts:
  fixes E :: "'w env" and st :: MicroK8sControlPlaneStatus and selector :: string
  assumes "length ms < 2 ^ 31" and "length nodes < 2 ^ 31"
  defines "st' \<equiv> computed_status E selector ms (Some nodes) st"
  shows "sint (st_Replicas st') = int (length ms)"
    and "sint (st_ReadyReplicas st') = int (length (filter (util_IsNodeReady E) nodes))"
    and "sint (st_UnavailableReplicas st') =
      int (length ms) - int (length (filter (util_IsNodeReady E) nodes))"
proof -
  have le: "length (filter (util_IsNodeReady E) nodes) < 2 ^ 31"
    using assms(2) length_filter_le [of "util_IsNodeReady E" nodes] by linarith
  have s: "sint (of_nat k :: int32) = int k" if "k < 2 ^ 31" for k
    using that by (simp add: signed_of_nat signed_take_bit_int_eq_self)
  have d: "sint (of_nat k - of_nat l :: int32) = int k - int l" if "k < 2 ^ 31" "l < 2 ^ 31" for k l
  proof -
    have "sint (of_int (int k - int l) :: int32) = signed_take_bit 31 (int k - int l)"
      by (simp only: signed_of_int) simp
    also have "\<dots> = int k - int l" using that by (intro signed_take_bit_int_eq_self) simp_all
    finally show ?thesis by simp
  qed
  show "sint (st_Replicas st') = int (length ms)"
    and "sint (st_ReadyReplicas st') = int (length (filter (util_IsNodeReady E) nodes))"
    and "sint (st_UnavailableReplicas st') =
      int (length ms) - int (length (filter (util_IsNodeReady E) nodes))"
    using s [OF assms(1)] s [OF le] d [OF assms(1) le]
    by (simp_all add: st'_def computed_status_def Let_def)
qed

end
