(* ===== verification/Reconciler.thy ===== *)
theory Reconciler
  imports Replicas Deletion Status
begin

text \<open>
  The entry points of \<open>microk8scontrolplane_controller.go\<close> and \<open>reconcile\<close> of \<open>reconcile.go\<close>: the
  guards in front of a reconciliation, its phases, and the deferred part that recomputes the status
  and patches the object.
\<close>

subsection \<open>The external reference\<close>

definition cluster_owner :: "'w env \<Rightarrow> Cluster \<Rightarrow> OwnerReference" where
  "cluster_owner E c =
     \<lparr>or_APIVersion = clusterv1_GroupVersion_String E,
      or_Kind = ''Cluster'',
      or_Name = om_Name (cl_Meta c),
      or_UID = om_UID (cl_Meta c),
      or_Controller = None,
      or_BlockOwnerDeletion = None\<rparr>"

definition reconcileExternalReference ::
  "'w env \<Rightarrow> ObjectReference \<Rightarrow> ('w st, error option) state" where
  "reconcileExternalReference E ref = do {
     c \<leftarrow> gets cluster;
     r \<leftarrow> get_external E ref (om_Namespace (cl_Meta c));
     case r of Inl err \<Rightarrow> return (Some err) | Inr obj \<Rightarrow> do {
     h \<leftarrow> new_external_patch_helper E obj;
     case h of Some err \<Rightarrow> return (Some err) | None \<Rightarrow>
     patch_external E obj
       (obj\<lparr>ext_OwnerReferences := util_EnsureOwnerRef E (ext_OwnerReferences obj) (cluster_owner E c)\<rparr>) } }"

subsection \<open>The phases\<close>

text \<open>
  The condition getters, over an explicit store. In Go 1.19 the variable \<open>v\<close> of a \<open>for range\<close> is one
  variable of the whole loop: it is allocated before the first round, every round assigns the next
  machine to it, and \<open>&v\<close> is its address. The slots of \<open>conditionGetters\<close> are allocated as nil.
\<close>

type_synonym address = nat

record variables =
  var_value :: "address \<Rightarrow> Machine option"
  var_next :: address

definition new_variable :: "variables \<Rightarrow> address \<times> variables" where
  "new_variable st = (var_next st, st\<lparr>var_next := Suc (var_next st)\<rparr>)"

definition assign :: "address \<Rightarrow> Machine \<Rightarrow> variables \<Rightarrow> variables" where
  "assign a m st = st\<lparr>var_value := (var_value st)(a \<mapsto> m)\<rparr>"

text \<open>The rounds \<open>i, v := range machines\<close> with the body \<open>conditionGetters[i] = &v\<close>.\<close>

fun getter_loop ::
  "address \<Rightarrow> nat \<Rightarrow> Machine list \<Rightarrow> address option list \<Rightarrow> variables \<Rightarrow> address option list \<times> variables" where
  "getter_loop v i [] conditionGetters st = (conditionGetters, st)"
| "getter_loop v i (machine # machines) conditionGetters st =
     (let st = assign v machine st in getter_loop v (Suc i) machines (conditionGetters[i := Some v]) st)"

definition getter_slots :: "Machine list \<Rightarrow> variables \<Rightarrow> address option list \<times> variables" where
  "getter_slots machines st =
     (let (v, st) = new_variable st
      in getter_loop v 0 machines (replicate (length machines) None) st)"

text \<open>\<open>SetAggregate\<close> follows the addresses when the loop is over.\<close>

definition condition_getters :: "Machine list \<Rightarrow> Machine list" where
  "condition_getters machines =
     (let (conditionGetters, st) = getter_slots machines \<lparr>var_value = Map.empty, var_next = 0\<rparr>
      in List.map_filter (\<lambda>g. Option.bind g (var_value st)) conditionGetters)"

text \<open>The loop over the phases: errors are aggregated, of the results the lowest is kept.\<close>

fun run_phases ::
  "'w env \<Rightarrow> Machine list \<Rightarrow> ('w env \<Rightarrow> Machine list \<Rightarrow> ('w st, reply outcome) state) list
    \<Rightarrow> Result \<Rightarrow> error option \<Rightarrow> ('w st, reply outcome) state" where
  "run_phases E machines [] res errs = return (Ret (res, errs))"
| "run_phases E machines (phase # phases) res errs = do {
     r \<leftarrow> phase E machines;
     unless_panic r (\<lambda>(phaseResult, err).
       run_phases E machines phases (util_LowestNonZeroResult E res phaseResult)
         (if err \<noteq> None then kerrors_NewAggregate E [errs, err] else errs)) }"

definition reconcile :: "'w env \<Rightarrow> ('w st, reply outcome) state" where
  "reconcile E = do {
     tcp \<leftarrow> gets mcp;
     e \<leftarrow> reconcileExternalReference E (sp_InfrastructureTemplate (mcp_Spec tcp));
     case e of Some err \<Rightarrow> return (Ret (no_requeue, Some err)) | None \<Rightarrow> do {
     c \<leftarrow> gets cluster;
     if \<not> endpoint_IsValid E (cl_ControlPlaneEndpoint c) then return (Ret (no_requeue, None))
     else do {
     tcp \<leftarrow> gets mcp;
     r \<leftarrow> getControlPlaneMachinesForCluster E (ObjectKey_of (cl_Meta c)) (om_Name (mcp_Meta tcp));
     case r of Inl err \<Rightarrow> return (Ret (no_requeue, Some err)) | Inr ownedMachines \<Rightarrow> do {
     modify (with_conditions
       (conditions_SetAggregate E MachinesReadyCondition (condition_getters ownedMachines)));
     r \<leftarrow> run_phases E ownedMachines [reconcileNodeHealth, reconcileConditions, reconcileMachines]
            no_requeue None;
     unless_panic r (\<lambda>(res, errs). do {
       (if \<not> Requeue res then
          modify (cluster_update (\<lambda>c. c\<lparr>cl_Conditions :=
            conditions_MarkTrue E (clusterv1_ControlPlaneInitializedCondition E) (cl_Conditions c)\<rparr>))
        else return ());
       return (Ret (res, errs)) }) } } } }"

subsection \<open>The deferred part\<close>

definition summary_conditions :: "ConditionType list" where
  "summary_conditions = [MachinesCreatedCondition, ResizedCondition, MachinesReadyCondition,
     AvailableCondition, MachinesBootstrapped]"

definition owned_conditions :: "'w env \<Rightarrow> ConditionType list" where
  "owned_conditions E = [MachinesCreatedCondition, clusterv1_ReadyCondition E, ResizedCondition,
     MachinesReadyCondition, AvailableCondition, MachinesBootstrapped]"

text \<open>The patch helper remembers the object it was created from, here \<open>before\<close>.\<close>

definition patchMicroK8sControlPlane ::
  "'w env \<Rightarrow> MicroK8sControlPlane \<Rightarrow> patch_option list \<Rightarrow> ('w st, error option) state" where
  "patchMicroK8sControlPlane E before opts = do {
     modify (with_conditions (conditions_SetSummary E summary_conditions));
     tcp \<leftarrow> gets mcp;
     patch_mcp E before tcp (opts @ [WithOwnedConditions (owned_conditions E)]) }"

definition update_and_patch :: "'w env \<Rightarrow> MicroK8sControlPlane \<Rightarrow> ('w st, unit outcome) state" where
  "update_and_patch E before = do {
     r \<leftarrow> updateStatus E;
     unless_panic r (\<lambda>_. do {
       _ \<leftarrow> patchMicroK8sControlPlane E before [WithStatusObservedGeneration];
       return (Ret ()) }) }"

subsection \<open>The entry point\<close>

text \<open>
  From the finalizer check on. The deferred function runs after a panic too, a panic of its own takes
  the place of the first, and without one it replaces the result and keeps the error.
\<close>

definition after_deferred :: "unit outcome \<Rightarrow> reply outcome \<Rightarrow> reply outcome" where
  "after_deferred d r =
     (case d of
        Panic p \<Rightarrow> Panic p
      | Ret _ \<Rightarrow> (case r of
          Panic p \<Rightarrow> Panic p
        | Ret (_, reterr) \<Rightarrow> Ret (requeue_after (30 * Second), reterr)))"

definition reconcile_with_finalizer ::
  "'w env \<Rightarrow> MicroK8sControlPlane \<Rightarrow> ('w st, reply outcome) state" where
  "reconcile_with_finalizer E before = do {
     m \<leftarrow> gets mcp;
     r \<leftarrow> (if \<not> IsZero (om_DeletionTimestamp (mcp_Meta m)) then do {
              rep \<leftarrow> reconcileDelete E;
              return (Ret rep) }
           else reconcile E);
     d \<leftarrow> update_and_patch E before;
     return (after_deferred d r) }"

definition add_finalizer :: "'w env \<Rightarrow> MicroK8sControlPlane \<Rightarrow> ('w st, reply outcome) state" where
  "add_finalizer E before = do {
     modify (mcp_update (\<lambda>m. m\<lparr>mcp_Meta :=
       controllerutil_AddFinalizer E (mcp_Meta m) MicroK8sControlPlaneFinalizer\<rparr>));
     e \<leftarrow> patchMicroK8sControlPlane E before [WithStatusObservedGeneration];
     case e of
       Some err \<Rightarrow> return (Ret (no_requeue, Some err))
     | None \<Rightarrow> return (Ret (no_requeue, None)) }"

definition Reconcile :: "'w env \<Rightarrow> ObjectKey \<Rightarrow> ('w st, reply outcome) state" where
  "Reconcile E key = do {
     r \<leftarrow> get_mcp E key;
     case r of
       Inl err \<Rightarrow>
         (if apierrors_IsNotFound E err then return (Ret (no_requeue, None))
          else return (Ret (requeue_now, None)))
     | Inr m \<Rightarrow> do {
     modify (mcp_update (\<lambda>_. m));
     r \<leftarrow> get_owner_cluster E (mcp_Meta m);
     case r of
       Inl err \<Rightarrow>
         (if \<not> apierrors_IsNotFound E err then return (Ret (no_requeue, Some err))
          else return (Ret (requeue_after (20 * Second), None)))
     | Inr None \<Rightarrow> return (Ret (requeue_now, None))
     | Inr (Some c) \<Rightarrow> do {
     modify (cluster_update (\<lambda>_. c));
     if annotations_IsPaused E c m then return (Ret (requeue_now, None))
     else if \<not> cl_InfrastructureReady c then return (Ret (requeue_now, None))
     else do {
     h \<leftarrow> new_patch_helper E m;
     case h of Some err \<Rightarrow> return (Ret (requeue_now, None)) | None \<Rightarrow>
     if \<not> controllerutil_ContainsFinalizer E (mcp_Meta m) MicroK8sControlPlaneFinalizer
     then add_finalizer E m
     else reconcile_with_finalizer E m } } } }"

text \<open>The requests a watched object gives rise to; only clusters are mapped.\<close>

definition ClusterToMicroK8sControlPlane :: "object \<Rightarrow> ObjectKey list" where
  "ClusterToMicroK8sControlPlane obj =
     (case obj of
        OCluster c \<Rightarrow>
          (case cl_ControlPlaneRef c of
             Some ref \<Rightarrow>
               (if ref_Kind ref = ''MicroK8sControlPlane''
                then [\<lparr>key_Namespace = ref_Namespace ref, key_Name = ref_Name ref\<rparr>] else [])
           | None \<Rightarrow> [])
      | _ \<Rightarrow> [])"

subsection \<open>The aliased condition getters\<close>

lemma getter_loop_slots:
  "length getters = i + length ms \<Longrightarrow>
   getter_loop v i ms getters st =
     (take i getters @ replicate (length ms) (Some v),
      if ms = [] then st else st\<lparr>var_value := (var_value st)(v \<mapsto> last ms)\<rparr>)"
proof (induction v i ms getters st rule: getter_loop.induct)
  case (2 v i m ms getters st)
  then have "take (Suc i) (getters[i := Some v]) = take i getters @ [Some v]"
    by (simp add: take_Suc_conv_app_nth)
  with 2 show ?case by (simp add: assign_def replicate_append_same)
qed simp

text \<open>Every slot holds the one address, and behind it is the machine of the last round.\<close>

lemma getter_slots_shared:
  "getter_slots ms st =
     (replicate (length ms) (Some (var_next st)),
      if ms = [] then st\<lparr>var_next := Suc (var_next st)\<rparr>
      else st\<lparr>var_value := (var_value st)(var_next st \<mapsto> last ms), var_next := Suc (var_next st)\<rparr>)"
  by (simp add: getter_slots_def new_variable_def getter_loop_slots)

lemma map_filter_replicate:
  "List.map_filter f (replicate n x) = (case f x of None \<Rightarrow> [] | Some y \<Rightarrow> replicate n y)"
  by (induction n) (auto simp: map_filter_simps split: option.splits)

lemma condition_getters_last: "condition_getters ms = replicate (length ms) (last ms)"
  by (simp add: condition_getters_def getter_slots_shared map_filter_replicate)

subsection \<open>Phases that only touch conditions\<close>

locale quiet_phase =
  fixes phase :: "'w env \<Rightarrow> Machine list \<Rightarrow> ('w st, reply outcome) state"
  assumes quiet: "wp (phase E ms) (\<lambda>r es s'. (\<exists>rep. r = Ret rep) \<and> es = [] \<and> only_conditions s s') s"
begin

text \<open>A quiet phase in front changes neither the calls nor the object of the phases that follow.\<close>

lemma run_phases_wp:
  assumes "\<And>s' res' errs'. only_conditions s s' \<Longrightarrow> wp (run_phases E ms phases res' errs') Q s'"
  shows "wp (run_phases E ms (phase # phases) res errs) Q s"
  unfolding run_phases.simps
  by (intro wp wp_conseq [OF quiet]) (auto intro: assms)

end

interpretation node_health: quiet_phase reconcileNodeHealth
  by unfold_locales (rule wp_conseq [OF reconcileNodeHealth_wp], simp)

interpretation initial_conditions: quiet_phase reconcileConditions
  by unfold_locales (rule wp_conseq [OF reconcileConditions_wp], simp)

subsection \<open>Effects of a reconciliation\<close>

text \<open>A list of machines the management cluster gave for this cluster.\<close>

definition listed :: "'w env \<Rightarrow> 'w st \<Rightarrow> Machine list \<Rightarrow> bool" where
  "listed E s ms \<longleftrightarrow>
     (\<exists>w w'. Client_List_machines E (om_Namespace (cl_Meta (cluster s)))
        (control_plane_labels E (om_Name (cl_Meta (cluster s)))) w = (Inr ms, w'))"

definition machine_event :: "event \<Rightarrow> bool" where
  "machine_event e \<longleftrightarrow> creates_machine e \<or> deletes_machine e \<or> updates_machine e"

text \<open>
  Either no machine object is written, or what is written is what the phase over some listed machines
  allows.
\<close>

definition reconcile_effects :: "'w env \<Rightarrow> 'w st \<Rightarrow> event list \<Rightarrow> bool" where
  "reconcile_effects E s es \<longleftrightarrow>
     mset (opened es) = mset (closed es) \<and>
     ((\<forall>e \<in> set es. \<not> machine_event e) \<or>
      (\<exists>ms. listed E s ms \<and> updates_to (sp_Version (mcp_Spec (mcp s))) es \<and>
         machine_effects E ms s (may_create E s ms) (may_delete s ms) es))"

definition cluster_upto_conditions :: "'w st \<Rightarrow> 'w st \<Rightarrow> bool" where
  "cluster_upto_conditions s s' \<longleftrightarrow>
     mcp_Spec (mcp s') = mcp_Spec (mcp s) \<and> mcp_Meta (mcp s') = mcp_Meta (mcp s) \<and>
     (\<exists>cs. cluster s' = (cluster s)\<lparr>cl_Conditions := cs\<rparr>)"

lemma same_target_upto: "same_target s s' \<Longrightarrow> cluster_upto_conditions s s'"
  unfolding same_target_def cluster_upto_conditions_def by (auto intro!: exI [of _ "cl_Conditions (cluster s)"])

lemma guards_same_target:
  assumes "same_target s t"
  shows "may_create E t ms = may_create E s ms" and "may_delete t ms = may_delete s ms"
    and "listed E t ms = listed E s ms" and "mcp_Spec (mcp t) = mcp_Spec (mcp s)"
  using assms
  by (simp_all add: same_target_def may_create_def may_delete_def surges_def version_skew_def
      strategy_of_def desired_replicas_def listed_def)

lemma reconcile_phases_wp:
  assumes "conditions_contract E" and "sort_contract E"
  shows "wp (run_phases E ms [reconcileNodeHealth, reconcileConditions, reconcileMachines] res errs)
     (\<lambda>r es s'. same_target s s' \<and> updates_to (sp_Version (mcp_Spec (mcp s))) es \<and>
        machine_effects E ms s (may_create E s ms) (may_delete s ms) es) s"
proof (rule node_health.run_phases_wp, rule initial_conditions.run_phases_wp)
  fix t u res errs
  assume "only_conditions s t" and "only_conditions t u"
  then have st: "same_target s u"
    using only_conditions_trans only_conditions_same_target by blast
  show "wp (run_phases E ms [reconcileMachines] res errs)
     (\<lambda>r es s'. same_target s s' \<and> updates_to (sp_Version (mcp_Spec (mcp s))) es \<and>
        machine_effects E ms s (may_create E s ms) (may_delete s ms) es) u"
    unfolding run_phases.simps
    by (intro wp wp_conseq [OF reconcileMachines_effects [OF assms]])
       (use guards_same_target [OF st] machine_effects_same_target [OF st] same_target_trans [OF st] in auto)
qed

lemma guards_frame [simp]:
  "may_create E (advance s es w) ms = may_create E s ms"
  "may_create E (with_conditions f s) ms = may_create E s ms"
  "may_delete (advance s es w) ms = may_delete s ms"
  "may_delete (with_conditions f s) ms = may_delete s ms"
  "machine_effects E ms (advance s es w) c d = machine_effects E ms s c d"
  "machine_effects E ms (with_conditions f s) c d = machine_effects E ms s c d"
  by (auto simp: may_create_def may_delete_def surges_def version_skew_def strategy_of_def
      desired_replicas_def machine_effects_def owned_machine_def)

lemma cluster_upto_conditions_mark [simp]:
  "cluster_upto_conditions s s' \<Longrightarrow>
   cluster_upto_conditions s (cluster_update (\<lambda>x. x\<lparr>cl_Conditions := g x\<rparr>) s')"
  by (auto simp: cluster_upto_conditions_def)

lemma reconcile_effects_listed:
  assumes "listed E s ms" and "updates_to (sp_Version (mcp_Spec (mcp s))) es"
    and "machine_effects E ms s (may_create E s ms) (may_delete s ms) es"
    and "\<forall>e \<in> set pre. \<not> machine_event e \<and> \<not> connects e \<and> \<not> closes e"
  shows "reconcile_effects E s (pre @ es)"
proof -
  have none: "filter creates_machine pre = []" "filter deletes_machine pre = []"
    "filter updates_machine pre = []" "opened pre = []" "closed pre = []"
    using assms(4) by (auto simp: filter_empty_conv machine_event_def opened_none closed_none)
  have "machine_effects E ms s (may_create E s ms) (may_delete s ms) (pre @ es)"
    using machine_effects_surround [OF assms(3), of pre "[]"] none assms(4) by auto
  moreover have "updates_to (sp_Version (mcp_Spec (mcp s))) (pre @ es)"
    using updates_to_none [OF none(3)] assms(2) by simp
  ultimately show ?thesis
    using assms(1) unfolding reconcile_effects_def by (auto simp: machine_effects_def)
qed

lemma reconcile_wp:
  assumes "conditions_contract E" and "sort_contract E"
  shows "wp (reconcile E)
     (\<lambda>r es s'. cluster_upto_conditions s s' \<and> reconcile_effects E s es) s"
proof -
  have quiet: "reconcile_effects E s es"
    if "\<forall>e \<in> set es. \<not> machine_event e \<and> \<not> connects e \<and> \<not> closes e" for es
    using that by (simp add: reconcile_effects_def opened_none closed_none)
  have after: "reconcile_effects E s (Read a # Patched (OExternal x) (OExternal y) q # Read b # es)"
    if "Client_List_machines E (om_Namespace (cl_Meta (cluster s)))
        (control_plane_labels E (om_Name (cl_Meta (cluster s)))) w = (Inr ms, w')"
      and "updates_to (sp_Version (mcp_Spec (mcp s))) es"
      and "machine_effects E ms s (may_create E s ms) (may_delete s ms) es" for a x y q b es ms w w'
    using reconcile_effects_listed [of E s ms es "[Read a, Patched (OExternal x) (OExternal y) q, Read b]"] that
    by (auto simp: listed_def machine_event_def)
  show ?thesis
    unfolding reconcile_def reconcileExternalReference_def getControlPlaneMachinesForCluster_def
      ObjectKey_of_def
    by (intro wp wp_conseq [OF reconcile_phases_wp [OF assms]]; simp add: same_target_upto)
       ((elim conjE, rule after, assumption, assumption, assumption) |
        (rule quiet, simp add: machine_event_def))+
qed

subsection \<open>Effects of a deletion pass\<close>

text \<open>
  A deletion pass lists, asks for the deletion of listed machines not yet being deleted and of the
  cluster's secrets, and updates the control plane object only over an empty list.
\<close>

definition deletion_effects :: "'w env \<Rightarrow> 'w st \<Rightarrow> event list \<Rightarrow> bool" where
  "deletion_effects E s es \<longleftrightarrow>
     es = [Read ''List Machines''] \<or>
     (\<exists>ms. listed E s ms \<and> (\<forall>e \<in> set es. e = Read ''List Machines'' \<or>
        (\<exists>x q. e = Deleted (OMachine x) q \<and> x \<in> set (live ms)) \<or>
        (\<exists>n q. e = Deleted (OSecret (cluster_secret (cluster s) n)) q) \<or>
        (\<exists>x q. e = Updated (OMCP x) q \<and> ms = [])))"

lemma requests_made_live:
  assumes "requests_made E ms r es" and "e \<in> set es"
  shows "\<exists>x q. e = Deleted (OMachine x) q \<and> x \<in> set (live ms)"
proof -
  have sub: "\<exists>x q. e = Deleted (OMachine x) q \<and> x \<in> set (live ms)"
    if "e \<in> set (delete_requests (live ms) qs)" for qs
    using that by (auto simp: delete_requests_def dest: set_zip_leftD)
  show ?thesis
  proof (cases r)
    case None
    with assms obtain qs where "e \<in> set (delete_requests (live ms) qs)"
      unfolding requests_made_def by auto
    then show ?thesis by (rule sub)
  next
    case (Some err)
    with assms obtain qs where "length qs < length (live ms)"
      and "e \<in> set (delete_requests (live ms) qs) \<or> e = Deleted (OMachine (live ms ! length qs)) (Some err)"
      unfolding requests_made_def by auto
    then show ?thesis using sub nth_mem by blast
  qed
qed

lemma secret_requests_secrets:
  "e \<in> set (secret_requests c qs) \<Longrightarrow> \<exists>n q. e = Deleted (OSecret (cluster_secret c n)) q"
  unfolding secret_requests_def set_map by auto

lemma reconcileDelete_effects:
  "wp (reconcileDelete E) (\<lambda>r es s'. cluster s' = cluster s \<and> deletion_effects E s es) s"
proof -
  obtain listing w where l: "Client_List_machines E (om_Namespace (cl_Meta (cluster s)))
      (control_plane_labels E (om_Name (cl_Meta (cluster s)))) (world s) = (listing, w)"
    by fastforce
  have eff: "deletion_effects E s es" if "delete_pass E listing s r es s'" for r es s'
  proof (cases listing)
    case (Inl err)
    with that show ?thesis by (simp add: delete_pass_def deletion_effects_def)
  next
    case (Inr ms)
    with l have listed: "listed E s ms" by (auto simp: listed_def)
    from that Inr consider
      (empty) x q where "ms = []" and "es = [Read ''List Machines'', Updated (OMCP x) q]"
    | (requests) err ds qs where "requests_made E ms err ds"
        and "es = Read ''List Machines'' # ds \<or> es = Read ''List Machines'' # ds @ secret_requests (cluster s) qs"
      by (cases ms) (auto simp: delete_pass_def Let_def)
    then show ?thesis
    proof cases
      case empty
      then show ?thesis using listed unfolding deletion_effects_def by auto
    next
      case requests
      have "e = Read ''List Machines'' \<or> (\<exists>x q. e = Deleted (OMachine x) q \<and> x \<in> set (live ms)) \<or>
          (\<exists>n q. e = Deleted (OSecret (cluster_secret (cluster s) n)) q)" if "e \<in> set es" for e
        using that requests(2) requests_made_live [OF requests(1), of e] secret_requests_secrets [of e "cluster s" qs]
        by auto
      then show ?thesis using listed unfolding deletion_effects_def by blast
    qed
  qed
  show ?thesis
    by (rule wp_conseq [OF reconcileDelete_wp [OF l]]) (blast intro: eff)
qed

subsection \<open>A pass through the open gates\<close>

definition pass_effects :: "'w env \<Rightarrow> 'w st \<Rightarrow> event list \<Rightarrow> bool" where
  "pass_effects E s es \<longleftrightarrow>
     (if IsZero (om_DeletionTimestamp (mcp_Meta (mcp s))) then reconcile_effects E s es
      else deletion_effects E s es)"

text \<open>
  The calls of the deferred function: a status update, and the final patch unless the status
  update panics.
\<close>

definition deferred_effects ::
  "'w env \<Rightarrow> MicroK8sControlPlane \<Rightarrow> unit outcome \<Rightarrow> event list \<Rightarrow> bool" where
  "deferred_effects E before d es \<longleftrightarrow>
     (\<exists>status tail. es = status @ tail \<and> (\<forall>e \<in> set status. status_call E e) \<and>
        mset (opened status) = mset (closed status) \<and>
        (case d of
           Panic p \<Rightarrow> tail = []
         | Ret _ \<Rightarrow> \<exists>after q. tail = [Patched (OMCP before) (OMCP after) q]))"

lemma update_and_patch_wp:
  "wp (update_and_patch E before) (\<lambda>d es s'. deferred_effects E before d es) s"
  unfolding update_and_patch_def patchMicroK8sControlPlane_def deferred_effects_def
  by (intro wp wp_conseq [OF updateStatus_run]) (auto dest: status_run_calls)

lemma after_deferred_Ret:
  "after_deferred d r = Ret rep \<Longrightarrow>
   d = Ret () \<and> (\<exists>res. r = Ret (res, snd rep)) \<and> fst rep = requeue_after (30 * Second)"
  by (auto simp: after_deferred_def split: outcome.splits)

lemma reconcile_with_finalizer_wp:
  assumes "conditions_contract E" and "sort_contract E"
  shows "wp (reconcile_with_finalizer E before)
     (\<lambda>r es s'. \<exists>body tail d r0. es = body @ tail \<and> pass_effects E s body \<and>
        deferred_effects E before d tail \<and> r = after_deferred d r0) s"
  unfolding reconcile_with_finalizer_def pass_effects_def
  by (intro wp wp_conseq [OF reconcileDelete_effects] wp_conseq [OF reconcile_wp [OF assms]]
      wp_conseq [OF update_and_patch_wp])
     (simp_all, blast+)

subsection \<open>The gates\<close>

text \<open>The object, its cluster and the patch helper are there, and nothing holds the pass back.\<close>

definition gates_open ::
  "'w env \<Rightarrow> ObjectKey \<Rightarrow> 'w \<Rightarrow> MicroK8sControlPlane \<Rightarrow> Cluster \<Rightarrow> bool" where
  "gates_open E key w0 m c \<longleftrightarrow>
     (\<exists>w1 w2 w3. APIReader_Get_mcp E key w0 = (Inr m, w1) \<and>
        util_GetOwnerCluster E (mcp_Meta m) w1 = (Inr (Some c), w2) \<and>
        \<not> annotations_IsPaused E c m \<and> cl_InfrastructureReady c \<and>
        patch_NewHelper_mcp E m w2 = (None, w3))"

definition gate_reads :: "event list" where
  "gate_reads = [Read ''Get MicroK8sControlPlane'', Read ''GetOwnerCluster'']"

text \<open>The state the pass works on: the objects that were read.\<close>

definition focus :: "'w st \<Rightarrow> MicroK8sControlPlane \<Rightarrow> Cluster \<Rightarrow> 'w st" where
  "focus s m c = cluster_update (\<lambda>_. c) (mcp_update (\<lambda>_. m) s)"

lemma pass_effects_same_objects:
  "mcp s = mcp t \<Longrightarrow> cluster s = cluster t \<Longrightarrow> pass_effects E s es = pass_effects E t es"
  unfolding pass_effects_def reconcile_effects_def deletion_effects_def machine_effects_def listed_def
    may_create_def may_delete_def surges_def version_skew_def strategy_of_def desired_replicas_def
    owned_machine_def by simp

text \<open>With the finalizer in place an open pass does its work, updates the status and patches.\<close>

lemma Reconcile_pass_wp:
  assumes "conditions_contract E" and "sort_contract E"
    and "gates_open E key (world s) m c"
    and "controllerutil_ContainsFinalizer E (mcp_Meta m) MicroK8sControlPlaneFinalizer"
  shows "wp (Reconcile E key)
     (\<lambda>r es s'. \<exists>body tail d r0. es = gate_reads @ body @ tail \<and> pass_effects E (focus s m c) body \<and>
        deferred_effects E m d tail \<and> r = after_deferred d r0) s"
proof -
  obtain w1 w2 w3 where "APIReader_Get_mcp E key (world s) = (Inr m, w1)"
    and "util_GetOwnerCluster E (mcp_Meta m) w1 = (Inr (Some c), w2)"
    and "\<not> annotations_IsPaused E c m" and "cl_InfrastructureReady c"
    and "patch_NewHelper_mcp E m w2 = (None, w3)"
    using assms(3) unfolding gates_open_def by blast
  moreover have "pass_effects E t es \<Longrightarrow> mcp t = m \<Longrightarrow> cluster t = c \<Longrightarrow> pass_effects E (focus s m c) es"
    for t es using pass_effects_same_objects [of t "focus s m c"] by (simp add: focus_def)
  ultimately show ?thesis
    using assms(4) unfolding Reconcile_def
    by (intro wp wp_conseq [OF reconcile_with_finalizer_wp [OF assms(1,2)]])
       (simp_all add: gate_reads_def, elim exE conjE, intro exI conjI, assumption, fastforce+)
qed

text \<open>The first open pass only adds the finalizer, in one patch of the object that was read.\<close>

definition with_finalizer :: "'w env \<Rightarrow> MicroK8sControlPlane \<Rightarrow> MicroK8sControlPlane" where
  "with_finalizer E m =
     (let m' = m\<lparr>mcp_Meta := controllerutil_AddFinalizer E (mcp_Meta m) MicroK8sControlPlaneFinalizer\<rparr>
      in SetConditions (conditions_SetSummary E summary_conditions (GetConditions m')) m')"

lemma Reconcile_first_wp:
  assumes "gates_open E key (world s) m c"
    and "\<not> controllerutil_ContainsFinalizer E (mcp_Meta m) MicroK8sControlPlaneFinalizer"
  shows "wp (Reconcile E key)
     (\<lambda>r es s'. \<exists>q. es = gate_reads @ [Patched (OMCP m) (OMCP (with_finalizer E m)) q] \<and>
        r = Ret (no_requeue, q) \<and> mcp s' = with_finalizer E m) s"
  using assms unfolding Reconcile_def add_finalizer_def patchMicroK8sControlPlane_def gates_open_def
  by (intro wp) (auto simp: gate_reads_def with_finalizer_def Let_def)

text \<open>A pass that does not find the gates open only reads.\<close>

lemma Reconcile_closed_wp:
  assumes "\<forall>m c. \<not> gates_open E key (world s) m c"
  shows "wp (Reconcile E key)
     (\<lambda>r es s'. es \<in> {[Read ''Get MicroK8sControlPlane''], gate_reads} \<and>
        (\<exists>res err. r = Ret (res, err) \<and>
           res \<in> {no_requeue, requeue_now, requeue_after (20 * Second)} \<and>
           (err \<noteq> None \<longrightarrow> es = gate_reads \<and> res = no_requeue))) s"
  using assms unfolding Reconcile_def gates_open_def
  by (intro wp) (auto simp: gate_reads_def)

subsection \<open>What every reconciliation respects\<close>

text \<open>Every client released.\<close>

definition balanced :: "event list \<Rightarrow> bool" where
  "balanced es \<longleftrightarrow> mset (opened es) = mset (closed es)"

lemma balanced_append: "balanced es \<Longrightarrow> balanced es' \<Longrightarrow> balanced (es @ es')"
  by (simp add: balanced_def)

lemma balanced_quiet: "\<forall>e \<in> set es. \<not> connects e \<and> \<not> closes e \<Longrightarrow> balanced es"
  by (simp add: balanced_def opened_none closed_none)

lemma status_call_quiet:
  assumes "status_call E e"
  shows "\<not> machine_event e"
proof -
  have "\<not> machine_event e" if "secret_only e"
    using that by (cases e rule: secret_only.cases) (auto simp: machine_event_def)
  moreover have "\<not> machine_event e" if "provider_update E ms nodes e" for ms nodes
    using that by (auto simp: provider_update_def machine_event_def)
  ultimately show ?thesis using assms unfolding status_call_def by blast
qed

lemma deletion_effects_quiet:
  assumes "deletion_effects E s es" and "e \<in> set es"
  shows "\<not> connects e" and "\<not> closes e" and "\<not> creates_machine e"
    and "\<not> touches_workload e"
proof -
  from assms have "e = Read ''List Machines'' \<or> (\<exists>x q. e = Deleted (OMachine x) q) \<or>
      (\<exists>x q. e = Deleted (OSecret x) q) \<or> (\<exists>x q. e = Updated (OMCP x) q)"
    unfolding deletion_effects_def by (elim disjE exE conjE) (simp, blast)
  then show "\<not> connects e" and "\<not> closes e" and "\<not> creates_machine e"
    and "\<not> touches_workload e" by auto
qed

lemma pass_effects_balanced:
  assumes "pass_effects E s es"
  shows "balanced es"
proof (cases "IsZero (om_DeletionTimestamp (mcp_Meta (mcp s)))")
  case True
  with assms show ?thesis by (simp add: pass_effects_def reconcile_effects_def balanced_def)
next
  case False
  with assms have "deletion_effects E s es" by (simp add: pass_effects_def)
  then show ?thesis using deletion_effects_quiet by (intro balanced_quiet) blast
qed

lemma deferred_effects_balanced:
  assumes "deferred_effects E m d es"
  shows "balanced es" and "\<forall>e \<in> set es. \<not> machine_event e"
proof -
  obtain status tail where es: "es = status @ tail" and st: "\<forall>e \<in> set status. status_call E e"
    and bal: "mset (opened status) = mset (closed status)"
    and tail: "tail = [] \<or> (\<exists>after q. tail = [Patched (OMCP m) (OMCP after) q])"
    using assms unfolding deferred_effects_def by (cases d) auto
  have "balanced status" using bal by (simp add: balanced_def)
  moreover have "balanced tail" using tail by (auto intro: balanced_quiet)
  ultimately show "balanced es" unfolding es by (rule balanced_append)
  show "\<forall>e \<in> set es. \<not> machine_event e"
    unfolding es using st tail status_call_quiet by (auto simp: machine_event_def)
qed

lemma Reconcile_balanced:
  assumes "conditions_contract E" and "sort_contract E"
  shows "wp (Reconcile E key) (\<lambda>r es s'. balanced es) s"
proof -
  have reads: "balanced gate_reads" by (rule balanced_quiet) (simp add: gate_reads_def)
  show ?thesis
  proof (cases "\<exists>m c. gates_open E key (world s) m c")
    case False
    then have "\<forall>m c. \<not> gates_open E key (world s) m c" by blast
    from Reconcile_closed_wp [OF this] show ?thesis
      by (rule wp_conseq) (auto intro: reads balanced_quiet)
  next
    case True
    then obtain m c where open_gates: "gates_open E key (world s) m c" by blast
    show ?thesis
    proof (cases "controllerutil_ContainsFinalizer E (mcp_Meta m) MicroK8sControlPlaneFinalizer")
      case True
      show ?thesis
        by (rule wp_conseq [OF Reconcile_pass_wp [OF assms open_gates True]])
           (auto intro!: balanced_append reads dest: pass_effects_balanced deferred_effects_balanced(1))
    next
      case False
      show ?thesis
        by (rule wp_conseq [OF Reconcile_first_wp [OF open_gates False]])
           (auto simp: gate_reads_def intro!: balanced_quiet)
    qed
  qed
qed

text \<open>The machine objects a whole reconciliation writes.\<close>

lemma deletion_effects_machines:
  assumes "deletion_effects E s es" and "Deleted (OMachine x) q \<in> set es"
  shows "\<exists>ms. listed E s ms \<and> x \<in> set (live ms)"
  using assms unfolding deletion_effects_def by auto

lemma Reconcile_deleting_wp:
  assumes "conditions_contract E" and "sort_contract E" and "gates_open E key (world s) m c"
    and "controllerutil_ContainsFinalizer E (mcp_Meta m) MicroK8sControlPlaneFinalizer"
    and "\<not> IsZero (om_DeletionTimestamp (mcp_Meta m))"
  shows "wp (Reconcile E key)
     (\<lambda>r es s'. (\<forall>e \<in> set es. \<not> creates_machine e) \<and>
        (\<forall>x q. Deleted (OMachine x) q \<in> set es \<longrightarrow>
           (\<exists>ms. listed E (focus s m c) ms \<and> x \<in> set (live ms)))) s"
proof (rule wp_conseq [OF Reconcile_pass_wp [OF assms(1-4)]], elim exE conjE)
  fix r es s' body tail d r0
  assume es: "es = gate_reads @ body @ tail" and pass: "pass_effects E (focus s m c) body"
    and tail: "deferred_effects E m d tail"
  from pass assms(5) have del: "deletion_effects E (focus s m c) body"
    by (simp add: pass_effects_def focus_def)
  have quiet: "\<forall>e \<in> set (gate_reads @ tail). \<not> machine_event e"
    using deferred_effects_balanced(2) [OF tail] by (simp add: gate_reads_def machine_event_def)
  have split: "e \<in> set es \<Longrightarrow> e \<in> set body \<or> \<not> machine_event e" for e
    using quiet es by auto
  show "(\<forall>e \<in> set es. \<not> creates_machine e) \<and>
      (\<forall>x q. Deleted (OMachine x) q \<in> set es \<longrightarrow>
         (\<exists>ms. listed E (focus s m c) ms \<and> x \<in> set (live ms)))"
  proof (intro conjI ballI allI impI)
    show "\<not> creates_machine e" if "e \<in> set es" for e
      using split [OF that] deletion_effects_quiet(3) [OF del] by (auto simp: machine_event_def)
    show "\<exists>ms. listed E (focus s m c) ms \<and> x \<in> set (live ms)" if "Deleted (OMachine x) q \<in> set es" for x q
      using split [OF that] deletion_effects_machines [OF del] by (auto simp: machine_event_def)
  qed
qed

lemma count_of_zero: "\<forall>e \<in> set es. \<not> P e \<Longrightarrow> filter P es = []"
  by (simp add: filter_empty_conv)

lemma reconcile_effects_counts:
  assumes "reconcile_effects E s es"
  shows "count_of creates_machine es + count_of deletes_machine es \<le> 1"
proof -
  from assms consider "\<forall>e \<in> set es. \<not> machine_event e"
    | ms where "machine_effects E ms s (may_create E s ms) (may_delete s ms) es"
    unfolding reconcile_effects_def by blast
  then show ?thesis
    by cases (simp_all add: machine_event_def count_of_zero machine_effects_def)
qed

text \<open>The machines a whole reconciliation of a living object creates and deletes.\<close>

lemma reconcile_effects_machines:
  assumes "reconcile_effects E s es"
  shows "Created (OMachine x) q \<in> set es \<Longrightarrow> \<exists>ms. listed E s ms \<and> may_create E s ms \<and> owned_machine E s x"
    and "Deleted (OMachine x) q \<in> set es \<Longrightarrow>
      \<exists>ms. listed E s ms \<and> may_delete s ms \<and> settled ms \<and> oldest_of x ms"
  using assms unfolding reconcile_effects_def machine_effects_def by (auto simp: machine_event_def)

lemma Reconcile_living_wp:
  assumes "conditions_contract E" and "sort_contract E" and "gates_open E key (world s) m c"
    and "controllerutil_ContainsFinalizer E (mcp_Meta m) MicroK8sControlPlaneFinalizer"
    and "IsZero (om_DeletionTimestamp (mcp_Meta m))"
  shows "wp (Reconcile E key)
     (\<lambda>r es s'. count_of creates_machine es + count_of deletes_machine es \<le> 1 \<and>
        (\<forall>x q. Created (OMachine x) q \<in> set es \<longrightarrow>
           (\<exists>ms. listed E (focus s m c) ms \<and> may_create E (focus s m c) ms \<and> owned_machine E (focus s m c) x)) \<and>
        (\<forall>x q. Deleted (OMachine x) q \<in> set es \<longrightarrow>
           (\<exists>ms. listed E (focus s m c) ms \<and> may_delete (focus s m c) ms \<and> settled ms \<and> oldest_of x ms))) s"
proof (rule wp_conseq [OF Reconcile_pass_wp [OF assms(1-4)]], elim exE conjE)
  fix r es s' body tail d r0
  assume es: "es = gate_reads @ body @ tail" and pass: "pass_effects E (focus s m c) body"
    and tail: "deferred_effects E m d tail"
  from pass assms(5) have eff: "reconcile_effects E (focus s m c) body"
    by (simp add: pass_effects_def focus_def)
  have quiet: "\<forall>e \<in> set gate_reads. \<not> machine_event e" "\<forall>e \<in> set tail. \<not> machine_event e"
    using deferred_effects_balanced(2) [OF tail] by (simp_all add: gate_reads_def machine_event_def)
  then have "filter creates_machine es = filter creates_machine body"
    and "filter deletes_machine es = filter deletes_machine body"
    by (simp_all add: es machine_event_def count_of_zero)
  with reconcile_effects_counts [OF eff]
  have "count_of creates_machine es + count_of deletes_machine es \<le> 1" by simp
  moreover have "Created (OMachine x) q \<in> set body" if "Created (OMachine x) q \<in> set es" for x q
    using that quiet es by (auto simp: machine_event_def)
  moreover have "Deleted (OMachine x) q \<in> set body" if "Deleted (OMachine x) q \<in> set es" for x q
    using that quiet es by (auto simp: machine_event_def)
  ultimately show "count_of creates_machine es + count_of deletes_machine es \<le> 1 \<and>
      (\<forall>x q. Created (OMachine x) q \<in> set es \<longrightarrow>
         (\<exists>ms. listed E (focus s m c) ms \<and> may_create E (focus s m c) ms \<and> owned_machine E (focus s m c) x)) \<and>
      (\<forall>x q. Deleted (OMachine x) q \<in> set es \<longrightarrow>
         (\<exists>ms. listed E (focus s m c) ms \<and> may_delete (focus s m c) ms \<and> settled ms \<and> oldest_of x ms))"
    using reconcile_effects_machines [OF eff] by blast
qed

end
