(* ===== verification/Machine_Phase.thy ===== *)
theory Machine_Phase
  imports Replicas
begin

text \<open>
  The specification of the machine phase, written without the code's helper functions: which of five
  plans is due, as a table over the replicas, the strategy, the number of machines and the version of
  the oldest machine, and what carrying out each plan may do. \<open>reconcileMachines_run\<close> shows that
  \<open>reconcileMachines\<close> implements it for every answer of the clients.
\<close>

subsection \<open>The plan that is due\<close>

text \<open>The oldest machine runs another minor version than the one the object asks for.\<close>

definition outdated :: "'w env \<Rightarrow> MicroK8sControlPlaneSpec \<Rightarrow> Machine \<Rightarrow> bool" where
  "outdated E spec oldest \<longleftrightarrow>
     (case m_Version oldest of
        None \<Rightarrow> False
      | Some v \<Rightarrow> semver_MajorMinor E v \<noteq> '''' \<and>
          semver_Compare E (semver_MajorMinor E v) (semver_MajorMinor E (sp_Version spec)) \<noteq> 0)"

text \<open>
  The strategies by name: an empty one is smart, and smart means rolling from three machines on and in
  place below. With any other name an outdated control plane is left as it is.
\<close>

definition rolling_due :: "MicroK8sControlPlaneSpec \<Rightarrow> nat \<Rightarrow> bool" where
  "rolling_due spec n \<longleftrightarrow>
     sp_UpgradeStrategy spec = ''RollingUpgrade'' \<or>
     sp_UpgradeStrategy spec \<in> {'''', ''SmartUpgrade''} \<and> 3 \<le> n"

definition in_place_due :: "MicroK8sControlPlaneSpec \<Rightarrow> nat \<Rightarrow> bool" where
  "in_place_due spec n \<longleftrightarrow>
     sp_UpgradeStrategy spec = ''InPlaceUpgrade'' \<or>
     sp_UpgradeStrategy spec \<in> {'''', ''SmartUpgrade''} \<and> n < 3"

definition expected_plan :: "'w env \<Rightarrow> MicroK8sControlPlaneSpec \<Rightarrow> Machine option \<Rightarrow> nat \<Rightarrow> plan" where
  "expected_plan E spec oldest n =
     (case (sp_Replicas spec, oldest) of
        (None, _) \<Rightarrow> Nil_Panic
      | (Some _, None) \<Rightarrow> Adjust
      | (Some d, Some m) \<Rightarrow>
          if m_Version m = None then Nil_Panic
          else if \<not> outdated E spec m then Adjust
          else if rolling_due spec n then (if int n = sint d then Surge else Adjust)
          else if in_place_due spec n then In_Place
          else Adjust)"

definition oldest_machine :: "'w env \<Rightarrow> Machine list \<Rightarrow> Machine option" where
  "oldest_machine E ms = (case sort_machines E ms of [] \<Rightarrow> None | m # _ \<Rightarrow> Some m)"

lemma oldest_machine_oldest:
  assumes "sort_contract E" and "oldest_machine E ms = Some m"
  shows "oldest_of m ms"
proof -
  from assms(2) obtain rest where "sort_machines E ms = m # rest"
    by (auto simp: oldest_machine_def split: list.splits)
  then show ?thesis
    using set_sort_machines [OF assms(1), of ms] sorted_sort_machines [OF assms(1), of ms]
    by (auto simp: oldest_of_def)
qed

lemma oldest_machine_None: "sort_contract E \<Longrightarrow> oldest_machine E ms = None \<longleftrightarrow> ms = []"
  using length_sort_machines [of E ms] by (auto simp: oldest_machine_def split: list.splits)

text \<open>The code's own conditions decide for exactly this plan.\<close>

lemma strategy_due:
  "rolls_over (strategy_of s) (int n) \<longleftrightarrow> rolling_due (mcp_Spec (mcp s)) n"
  "\<not> rolling_due (mcp_Spec (mcp s)) n \<Longrightarrow>
     upgrades_in_place (strategy_of s) (int n) \<longleftrightarrow> in_place_due (mcp_Spec (mcp s)) n"
  by (auto simp: rolls_over_def upgrades_in_place_def strategy_of_def selected_strategy_def
      rolling_due_def in_place_due_def upgrade_strategy_defs)

lemma version_skew_outdated:
  "version_skew E s ms \<longleftrightarrow>
     (case oldest_machine E ms of None \<Rightarrow> False | Some m \<Rightarrow> outdated E (mcp_Spec (mcp s)) m)"
  by (auto simp: version_skew_def versions_def oldest_machine_def outdated_def
      split: list.splits option.splits)

lemma expected_plan_of:
  assumes "sort_contract E"
  shows "expected_plan E (mcp_Spec (mcp s)) (oldest_machine E ms) (length ms) = plan_of E s ms"
proof (cases "oldest_machine E ms")
  case None
  then have "ms = []" using oldest_machine_None [OF assms] by blast
  moreover from this None have "\<not> version_skew E s []" by (simp add: version_skew_outdated)
  ultimately show ?thesis
    by (auto simp: expected_plan_def oldest_machine_def plan_of_def surges_def upgrades_nodes_def
        split: option.splits)
next
  case (Some m)
  then have "ms \<noteq> []" and hd: "sort_machines E ms ! 0 = m"
    using oldest_machine_None [OF assms, of ms] by (auto simp: oldest_machine_def split: list.splits)
  moreover have skew: "version_skew E s ms \<longleftrightarrow> outdated E (mcp_Spec (mcp s)) m"
    by (simp add: version_skew_outdated Some)
  ultimately show ?thesis
    unfolding Some expected_plan_def plan_of_def surges_def upgrades_nodes_def strategy_due(1)
    by (auto simp: desired_replicas_def strategy_due(2) split: option.splits)
qed

subsection \<open>Carrying out a plan\<close>

text \<open>
  An in-place upgrade over the machines in order of age: without a client it stops at once, with the
  error of the connection; otherwise the nodes are upgraded one after the other, an early end is
  the end of the phase, and only after the last node the number of machines is adjusted. The client
  is released last, on each of these ways.
\<close>

inductive in_place_run ::
  "'w env \<Rightarrow> Machine list \<Rightarrow> replica_action \<Rightarrow> 'w st \<Rightarrow> reply outcome \<Rightarrow> event list \<Rightarrow> 'w st \<Rightarrow> bool"
  for E :: "'w env" and machines :: "Machine list" and a :: replica_action and s :: "'w st" where
  no_client:
    "connecting (Inl err) es \<Longrightarrow> mcp s' = mcp s \<Longrightarrow> cluster s' = cluster s \<Longrightarrow>
     in_place_run E machines a s (Ret (requeue_after (20 * Second), Some err)) es s'"
| upgrade_stopped:
    "connecting (Inr kc) es \<Longrightarrow> mcp s' = mcp s \<Longrightarrow> cluster s' = cluster s \<Longrightarrow>
     upgrade_run E kc (sp_Version (mcp_Spec (mcp s))) (om_Namespace (cl_Meta (cluster s))) machines
       (Ret (Some rep)) es1 \<Longrightarrow>
     in_place_run E machines a s (Ret rep) (es @ es1 @ [Closed kc]) s'"
| upgrade_panicked:
    "connecting (Inr kc) es \<Longrightarrow> mcp s' = mcp s \<Longrightarrow> cluster s' = cluster s \<Longrightarrow>
     upgrade_run E kc (sp_Version (mcp_Spec (mcp s))) (om_Namespace (cl_Meta (cluster s))) machines
       (Panic p) es1 \<Longrightarrow>
     in_place_run E machines a s (Panic p) (es @ es1 @ [Closed kc]) s'"
| all_upgraded:
    "connecting (Inr kc) es \<Longrightarrow> mcp t = mcp s \<Longrightarrow> cluster t = cluster s \<Longrightarrow>
     upgrade_run E kc (sp_Version (mcp_Spec (mcp s))) (om_Namespace (cl_Meta (cluster s))) machines
       (Ret None) es1 \<Longrightarrow>
     carries_out E machines a t r es2 t' \<Longrightarrow> mcp s' = mcp t' \<Longrightarrow> cluster s' = cluster t' \<Longrightarrow>
     in_place_run E machines a s r (es @ es1 @ es2 @ [Closed kc]) s'"

lemma in_place_upgrade_run:
  assumes "conditions_contract E"
  shows "wp (in_place_upgrade E (cluster s) d ms machines)
     (in_place_run E machines (replica_action d (int (length ms))) s) s"
  unfolding in_place_upgrade_def
proof (rule kube.with_client_wp, goal_cases)
  case (1 e es s')
  then show ?case by (intro wp) (auto intro: no_client)
next
  case (2 kc es s')
  note objects = 2(2,3)
  show ?case
  proof (rule wp_bind, rule wp_conseq [OF upgrade_machines_run], rule wp_unless_panic, goal_cases)
    case (1 r es1 t early)
    then have t: "mcp t = mcp s" "cluster t = cluster s"
      and run: "upgrade_run E kc (sp_Version (mcp_Spec (mcp s))) (om_Namespace (cl_Meta (cluster s)))
        machines (Ret early) es1"
      using objects by auto
    show ?case
    proof (cases early)
      case None
      show ?thesis unfolding None option.case
        by (rule wp_conseq [OF reconcile_replicas_wp [OF assms]])
           (use all_upgraded [OF 2(1) t run [unfolded None]] in auto)
    next
      case (Some rep)
      then show ?thesis
        using upgrade_stopped [OF 2(1) _ _ run [unfolded Some]] t by (auto intro!: wp_return)
    qed
  next
    case (2 r es1 t p)
    with objects have "mcp t = mcp s" "cluster t = cluster s"
      and "upgrade_run E kc (sp_Version (mcp_Spec (mcp s))) (om_Namespace (cl_Meta (cluster s)))
        machines (Panic p) es1" by auto
    then show ?case
      by (auto intro: upgrade_panicked [OF \<open>connecting (Inr kc) es\<close>])
  qed
qed

definition phase_run ::
  "'w env \<Rightarrow> Machine list \<Rightarrow> 'w st \<Rightarrow> reply outcome \<Rightarrow> event list \<Rightarrow> 'w st \<Rightarrow> bool" where
  "phase_run E ms s r es s' \<longleftrightarrow>
     (let spec = mcp_Spec (mcp s);
          action = replica_action (case sp_Replicas spec of None \<Rightarrow> 0 | Some d \<Rightarrow> sint d) (int (length ms))
      in case expected_plan E spec (oldest_machine E ms) (length ms) of
        Nil_Panic \<Rightarrow> r = Panic NilDereference \<and> es = [] \<and> s' = s
      | Surge \<Rightarrow> carries_out E (sort_machines E ms) Create_Machine s r es s'
      | In_Place \<Rightarrow> in_place_run E (sort_machines E ms) action s r es s'
      | Adjust \<Rightarrow> carries_out E (sort_machines E ms) action s r es s')"

lemma reconcileMachines_run:
  assumes "conditions_contract E" and "sort_contract E"
  shows "wp (reconcileMachines E ms) (phase_run E ms s) s"
proof -
  have action: "(case sp_Replicas (mcp_Spec (mcp s)) of None \<Rightarrow> 0 | Some d \<Rightarrow> sint d) = desired_replicas s"
    by (simp add: desired_replicas_def)
  note [simp] = wp_cong [OF reconcileMachines_plan [OF assms(2)]]
  show ?thesis
  proof (cases "plan_of E s ms")
    case Nil_Panic
    then show ?thesis
      by (auto simp: phase_run_def expected_plan_of [OF assms(2)] intro!: wp_return)
  next
    case Surge
    then show ?thesis
      by (auto simp: phase_run_def expected_plan_of [OF assms(2)]
          intro!: wp_conseq [OF scale_up_wp [OF assms(1), of _ _ "sort_machines E ms"]])
  next
    case In_Place
    then show ?thesis
      by (auto simp: phase_run_def expected_plan_of [OF assms(2)] action
          intro!: wp_conseq [OF in_place_upgrade_run [OF assms(1)]])
  next
    case Adjust
    then show ?thesis
      by (auto simp: phase_run_def expected_plan_of [OF assms(2)] action
          intro!: wp_conseq [OF reconcile_replicas_wp [OF assms(1)]])
  qed
qed

end
