(* ===== verification/Pass_Spec.thy ===== *)
theory Pass_Spec
  imports Reconciler Machine_Phase
begin

text \<open>
  What one reconciliation behind its gates does, from both sides: every call it issues is one that
  the specification names, and every call the specification names for the answers that were given is
  issued. The parts are the specifications of the components: the plan of the machine phase, the pass
  over an object in deletion, the update of the status, and the final patch.
\<close>

subsection \<open>An object that is not being deleted\<close>

text \<open>The owner reference on the infrastructure template.\<close>

inductive reference_run :: "'w env \<Rightarrow> 'w st \<Rightarrow> error option \<Rightarrow> event list \<Rightarrow> bool"
  for E :: "'w env" and s :: "'w st" where
  template_unread:
    "external_Get E (sp_InfrastructureTemplate (mcp_Spec (mcp s))) (om_Namespace (cl_Meta (cluster s))) w =
       (Inl err, w') \<Longrightarrow>
     reference_run E s (Some err) [Read ''Get external object'']"
| helper_refused:
    "external_Get E (sp_InfrastructureTemplate (mcp_Spec (mcp s))) (om_Namespace (cl_Meta (cluster s))) w =
       (Inr obj, w') \<Longrightarrow>
     patch_NewHelper_external E obj w' = (Some err, w'') \<Longrightarrow>
     reference_run E s (Some err) [Read ''Get external object'']"
| owner_patched:
    "external_Get E (sp_InfrastructureTemplate (mcp_Spec (mcp s))) (om_Namespace (cl_Meta (cluster s))) w =
       (Inr obj, w') \<Longrightarrow>
     reference_run E s q
       [Read ''Get external object'',
        Patched (OExternal obj)
          (OExternal (obj\<lparr>ext_OwnerReferences :=
             util_EnsureOwnerRef E (ext_OwnerReferences obj) (cluster_owner E (cluster s))\<rparr>)) q]"

lemma reconcileExternalReference_wp:
  "wp (reconcileExternalReference E (sp_InfrastructureTemplate (mcp_Spec (mcp s))))
     (\<lambda>r es s'. mcp s' = mcp s \<and> cluster s' = cluster s \<and> reference_run E s r es) s"
  unfolding reconcileExternalReference_def
  by (intro wp) (auto intro: reference_run.intros)

text \<open>
  The reply of the three phases: the first two ask for nothing and report nothing, so an error is that
  of the machine phase.
\<close>

definition phases_reply :: "'w env \<Rightarrow> reply outcome \<Rightarrow> reply outcome" where
  "phases_reply E r =
     (case r of
        Panic p \<Rightarrow> Panic p
      | Ret (res, err) \<Rightarrow>
          Ret (util_LowestNonZeroResult E
                 (util_LowestNonZeroResult E (util_LowestNonZeroResult E no_requeue no_requeue) no_requeue) res,
               if err = None then None else kerrors_NewAggregate E [None, err]))"

lemma run_phases_run:
  assumes "conditions_contract E" and "sort_contract E"
  shows "wp (run_phases E ms [reconcileNodeHealth, reconcileConditions, reconcileMachines] no_requeue None)
     (\<lambda>r es s'. \<exists>t r0. only_conditions s t \<and> phase_run E ms t r0 es s' \<and> r = phases_reply E r0) s"
  unfolding run_phases.simps
  by (intro wp wp_conseq [OF reconcileNodeHealth_wp] wp_conseq [OF reconcileConditions_wp]
      wp_conseq [OF reconcileMachines_run [OF assms]])
     (clarsimp split del: if_split; intro exI conjI, erule (1) only_conditions_trans, assumption, simp add: phases_reply_def)+

text \<open>
  The ways of \<open>reconcile\<close>: it stops without the owner reference, without an endpoint or without a
  list of the machines, and otherwise runs the machine phase over the machines listed.
\<close>

inductive reconcile_run :: "'w env \<Rightarrow> 'w st \<Rightarrow> reply outcome \<Rightarrow> event list \<Rightarrow> 'w st \<Rightarrow> bool"
  for E :: "'w env" and s :: "'w st" where
  reference_failed:
    "reference_run E s (Some err) es \<Longrightarrow> mcp s' = mcp s \<Longrightarrow> cluster s' = cluster s \<Longrightarrow>
     reconcile_run E s (Ret (no_requeue, Some err)) es s'"
| no_endpoint:
    "reference_run E s None es \<Longrightarrow> \<not> endpoint_IsValid E (cl_ControlPlaneEndpoint (cluster s)) \<Longrightarrow>
     mcp s' = mcp s \<Longrightarrow> cluster s' = cluster s \<Longrightarrow>
     reconcile_run E s (Ret (no_requeue, None)) es s'"
| machines_not_listed:
    "reference_run E s None es \<Longrightarrow> endpoint_IsValid E (cl_ControlPlaneEndpoint (cluster s)) \<Longrightarrow>
     Client_List_machines E (om_Namespace (cl_Meta (cluster s)))
       (control_plane_labels E (om_Name (cl_Meta (cluster s)))) w = (Inl err, w') \<Longrightarrow>
     mcp s' = mcp s \<Longrightarrow> cluster s' = cluster s \<Longrightarrow>
     reconcile_run E s (Ret (no_requeue, Some err)) (es @ [Read ''List Machines'']) s'"
| phases_run:
    "reference_run E s None es \<Longrightarrow> endpoint_IsValid E (cl_ControlPlaneEndpoint (cluster s)) \<Longrightarrow>
     Client_List_machines E (om_Namespace (cl_Meta (cluster s)))
       (control_plane_labels E (om_Name (cl_Meta (cluster s)))) w = (Inr ms, w') \<Longrightarrow>
     only_conditions s t \<Longrightarrow> phase_run E ms t r es' t' \<Longrightarrow> mcp s' = mcp t' \<Longrightarrow>
     reconcile_run E s (phases_reply E r) (es @ [Read ''List Machines''] @ es') s'"

lemma reconcile_reconciles:
  assumes "conditions_contract E" and "sort_contract E"
  shows "wp (reconcile E) (reconcile_run E s) s"
proof -
  have run: "reconcile_run E s (phases_reply E r) (es @ Read ''List Machines'' # es') s'"
    if "reference_run E s None es" and "endpoint_IsValid E (cl_ControlPlaneEndpoint (cluster s))"
      and "Client_List_machines E (om_Namespace (cl_Meta (cluster s)))
        (control_plane_labels E (om_Name (cl_Meta (cluster s)))) w = (Inr ms, w')"
      and "mcp u = mcp s" and "cluster u = cluster s" and "only_conditions u t"
      and "phase_run E ms t r es' t'" and "mcp s' = mcp t'"
    for r es es' s' w ms w' t t' u
  proof -
    from that(4-6) have "only_conditions s t" by (simp add: only_conditions_def)
    from phases_run [OF that(1-3) this that(7,8)] show ?thesis by simp
  qed
  show ?thesis
    unfolding reconcile_def getControlPlaneMachinesForCluster_def ObjectKey_of_def
    by (intro wp wp_conseq [OF reconcileExternalReference_wp] wp_conseq [OF run_phases_run [OF assms]])
       (auto simp: reference_failed no_endpoint machines_not_listed intro!: run)
qed

subsection \<open>The pass and what follows it\<close>

definition pass_run :: "'w env \<Rightarrow> 'w st \<Rightarrow> reply outcome \<Rightarrow> event list \<Rightarrow> 'w st \<Rightarrow> bool" where
  "pass_run E s r es s' \<longleftrightarrow>
     (if IsZero (om_DeletionTimestamp (mcp_Meta (mcp s))) then reconcile_run E s r es s'
      else \<exists>rep listing w w'. Client_List_machines E (om_Namespace (cl_Meta (cluster s)))
          (control_plane_labels E (om_Name (cl_Meta (cluster s)))) w = (listing, w') \<and>
        r = Ret rep \<and> delete_pass E listing s rep es s')"

text \<open>
  The deferred function: the status is updated, and the object as it then is, with the summary of its
  conditions, is written in one patch against \<open>before\<close>. Only a panic of the status update leaves the
  patch out.
\<close>

definition summarised :: "'w env \<Rightarrow> MicroK8sControlPlane \<Rightarrow> MicroK8sControlPlane" where
  "summarised E m =
     SetConditions (conditions_SetSummary E
       [MachinesCreatedCondition, ResizedCondition, MachinesReadyCondition, AvailableCondition,
        MachinesBootstrapped] (GetConditions m)) m"

definition deferred_run ::
  "'w env \<Rightarrow> MicroK8sControlPlane \<Rightarrow> 'w st \<Rightarrow> unit outcome \<Rightarrow> event list \<Rightarrow> 'w st \<Rightarrow> bool" where
  "deferred_run E before s d es s' \<longleftrightarrow>
     (\<exists>r es' t. same_target s t \<and> status_run E s r es' t \<and>
        (case r of
           Panic p \<Rightarrow> d = Panic p \<and> es = es' \<and> mcp s' = mcp t
         | Ret _ \<Rightarrow> d = Ret () \<and> mcp s' = summarised E (mcp t) \<and>
             (\<exists>q. es = es' @ [Patched (OMCP before) (OMCP (summarised E (mcp t))) q])))"

lemma update_and_patch_run:
  "wp (update_and_patch E before) (deferred_run E before s) s"
  unfolding update_and_patch_def patchMicroK8sControlPlane_def summary_conditions_def deferred_run_def
  by (intro wp wp_conseq [OF updateStatus_run]) (fastforce simp: summarised_def)+

lemma reconcileDelete_runs:
  assumes "\<not> IsZero (om_DeletionTimestamp (mcp_Meta (mcp s)))"
  shows "wp (reconcileDelete E) (\<lambda>rep es s'. pass_run E s (Ret rep) es s') s"
proof -
  obtain listing w where l: "Client_List_machines E (om_Namespace (cl_Meta (cluster s)))
      (control_plane_labels E (om_Name (cl_Meta (cluster s)))) (world s) = (listing, w)"
    by fastforce
  have "pass_run E s (Ret rep) es s'" if "delete_pass E listing s rep es s'" for rep es s'
    unfolding pass_run_def if_not_P [OF assms] using l that by blast
  then show ?thesis
    by (intro wp_conseq [OF reconcileDelete_wp [OF l]]) simp
qed

lemma reconcile_with_finalizer_run:
  assumes "conditions_contract E" and "sort_contract E"
  shows "wp (reconcile_with_finalizer E before)
     (\<lambda>r es s'. \<exists>body tail d r0 t. es = body @ tail \<and> pass_run E s r0 body t \<and>
        deferred_run E before t d tail s' \<and> r = after_deferred d r0) s"
proof -
  have living: "pass_run E s r es t" if "reconcile_run E s r es t"
    and "IsZero (om_DeletionTimestamp (mcp_Meta (mcp s)))" for r es t
    using that by (simp add: pass_run_def)
  show ?thesis
    unfolding reconcile_with_finalizer_def
    by (intro wp wp_conseq [OF reconcileDelete_runs] wp_conseq [OF reconcile_reconciles [OF assms]]
        wp_conseq [OF update_and_patch_run])
       (simp_all, (blast dest: living)+)
qed

text \<open>The state the pass starts from holds the two objects that were read.\<close>

lemma Reconcile_run:
  assumes "conditions_contract E" and "sort_contract E"
    and "gates_open E key (world s) m c"
    and "controllerutil_ContainsFinalizer E (mcp_Meta m) MicroK8sControlPlaneFinalizer"
  shows "wp (Reconcile E key)
     (\<lambda>r es s'. \<exists>t t' body tail d r0. mcp t = m \<and> cluster t = c \<and> es = gate_reads @ body @ tail \<and>
        pass_run E t r0 body t' \<and> deferred_run E m t' d tail s' \<and> r = after_deferred d r0) s"
proof -
  obtain w1 w2 w3 where "APIReader_Get_mcp E key (world s) = (Inr m, w1)"
    and "util_GetOwnerCluster E (mcp_Meta m) w1 = (Inr (Some c), w2)"
    and "\<not> annotations_IsPaused E c m" and "cl_InfrastructureReady c"
    and "patch_NewHelper_mcp E m w2 = (None, w3)"
    using assms(3) unfolding gates_open_def by blast
  moreover have "\<exists>t t' body tail d r0. mcp t = m \<and> cluster t = c \<and> es = gate_reads @ body @ tail \<and>
      pass_run E t r0 body t' \<and> deferred_run E m t' d tail s' \<and> r = after_deferred d r0"
    if "\<exists>body tail. es' = body @ tail \<and> (\<exists>d r0 t'. pass_run E t r0 body t' \<and>
        deferred_run E m t' d tail s' \<and> r = after_deferred d r0)"
      and "mcp t = m" and "cluster t = c" and "es = gate_reads @ es'" for es es' r s' t
    using that by blast
  ultimately show ?thesis
    using assms(4) unfolding Reconcile_def
    by (intro wp wp_conseq [OF reconcile_with_finalizer_run [OF assms(1,2)]])
       (simp_all add: gate_reads_def)
qed

end
