(* ===== verification/Reference.thy ===== *)
theory Reference
  imports Pass_Spec
begin

text \<open>
  A concrete environment: an in-memory management cluster and workload cluster behind the client
  interfaces, with the documented behaviour of the utilities. It shows that the hypotheses of the
  properties can hold together, and it is what the witnesses of the properties run on.
\<close>

subsection \<open>The world\<close>

record ref_world =
  rw_mcp :: MicroK8sControlPlane
  rw_cluster :: Cluster
  rw_machines :: "Machine list"
  rw_nodes :: "Node list"
  rw_secrets :: "Secret list"
  rw_clock :: time
  rw_names :: nat

definition not_found :: "string \<Rightarrow> error" where
  "not_found n = Foreign ''NotFound'' n"

definition named :: "string \<Rightarrow> ObjectMeta \<Rightarrow> bool" where
  "named n m \<longleftrightarrow> om_Name m = n"

definition find_named :: "('a \<Rightarrow> ObjectMeta) \<Rightarrow> string \<Rightarrow> 'a list \<Rightarrow> error + 'a" where
  "find_named meta n xs =
     (case find (\<lambda>x. named n (meta x)) xs of None \<Rightarrow> Inl (not_found n) | Some x \<Rightarrow> Inr x)"

definition drop_named :: "('a \<Rightarrow> ObjectMeta) \<Rightarrow> string \<Rightarrow> 'a list \<Rightarrow> 'a list" where
  "drop_named meta n xs = filter (\<lambda>x. \<not> named n (meta x)) xs"

definition put_named :: "('a \<Rightarrow> ObjectMeta) \<Rightarrow> 'a \<Rightarrow> 'a list \<Rightarrow> 'a list" where
  "put_named meta x xs = map (\<lambda>y. if named (om_Name (meta x)) (meta y) then x else y) xs"

definition delete_named ::
  "('a \<Rightarrow> ObjectMeta) \<Rightarrow> string \<Rightarrow> 'a list \<Rightarrow> error option \<times> 'a list" where
  "delete_named meta n xs =
     (if list_ex (\<lambda>x. named n (meta x)) xs then (None, drop_named meta n xs)
      else (Some (not_found n), xs))"

subsection \<open>Conditions\<close>

definition set_condition :: "Condition \<Rightarrow> Conditions \<Rightarrow> Conditions" where
  "set_condition c cs = c # filter (\<lambda>d. c_Type d \<noteq> c_Type c) cs"

lemma find_set_condition:
  "find_condition t (set_condition c cs) = (if t = c_Type c then Some c else find_condition t cs)"
proof -
  have "find (\<lambda>d. c_Type d = t) (filter (\<lambda>d. c_Type d \<noteq> u) cs) = find (\<lambda>d. c_Type d = t) cs" if "t \<noteq> u" for u
    using that by (induction cs) auto
  then show ?thesis by (auto simp: find_condition_def set_condition_def)
qed

definition ref_MarkTrue :: "ConditionType \<Rightarrow> Conditions \<Rightarrow> Conditions" where
  "ref_MarkTrue t = set_condition
     \<lparr>c_Type = t, c_Status = ConditionTrue, c_Severity = SeverityNone, c_Reason = [], c_Message = []\<rparr>"

definition ref_MarkFalse ::
  "ConditionType \<Rightarrow> string \<Rightarrow> ConditionSeverity \<Rightarrow> string \<Rightarrow> int list \<Rightarrow> Conditions \<Rightarrow> Conditions" where
  "ref_MarkFalse t reason sev fmt args = set_condition
     \<lparr>c_Type = t, c_Status = ConditionFalse, c_Severity = sev, c_Reason = reason, c_Message = fmt\<rparr>"

definition ref_aggregate :: "ConditionType \<Rightarrow> bool \<Rightarrow> Conditions \<Rightarrow> Conditions" where
  "ref_aggregate t ok =
     (if ok then ref_MarkTrue t else ref_MarkFalse t ''NotReady'' SeverityInfo [] [])"

definition is_true :: "ConditionType \<Rightarrow> Conditions \<Rightarrow> bool" where
  "is_true t cs =
     (case find_condition t cs of None \<Rightarrow> False | Some c \<Rightarrow> c_Status c = ConditionTrue)"

subsection \<open>Versions\<close>

text \<open>\<open>v1.27.3\<close> becomes \<open>v1.27\<close>: what comes before the second dot.\<close>

definition ref_MajorMinor :: "string \<Rightarrow> string" where
  "ref_MajorMinor v =
     takeWhile (\<lambda>c. c \<noteq> CHR ''.'') v @
     (case dropWhile (\<lambda>c. c \<noteq> CHR ''.'') v of
        [] \<Rightarrow> [] | d # r \<Rightarrow> d # takeWhile (\<lambda>c. c \<noteq> CHR ''.'') r)"

fun compare_codes :: "nat list \<Rightarrow> nat list \<Rightarrow> int" where
  "compare_codes [] [] = 0"
| "compare_codes [] (y # ys) = -1"
| "compare_codes (x # xs) [] = 1"
| "compare_codes (x # xs) (y # ys) = (if x < y then -1 else if y < x then 1 else compare_codes xs ys)"

definition ref_Compare :: "string \<Rightarrow> string \<Rightarrow> int" where
  "ref_Compare v w = (if length v < length w then -1 else if length w < length v then 1
     else compare_codes (map (\<lambda>c. index_of c ''.0123456789v'') v) (map (\<lambda>c. index_of c ''.0123456789v'') w))"

subsection \<open>The environment\<close>

definition ref_env :: "ref_world env" where
  "ref_env = \<lparr>
     APIReader_Get_mcp = (\<lambda>k w. (Inr (rw_mcp w), w)),
     util_GetOwnerCluster = (\<lambda>m w. (Inr (Some (rw_cluster w)), w)),
     Client_List_machines = (\<lambda>ns sel w. (Inr (rw_machines w), w)),
     Client_Get_machine = (\<lambda>k w.
       (case find_named m_Meta (key_Name k) (rw_machines w) of
          Inl e \<Rightarrow> (Some e, \<lparr>m_Meta = empty_meta, m_ClusterName = [], m_Version = None,
            m_InfrastructureRef = \<lparr>ref_APIVersion = [], ref_Kind = [], ref_Name = [], ref_Namespace = [],
              ref_UID = []\<rparr>, m_BootstrapConfigRef = None, m_FailureDomain = None, m_ProviderID = None,
            m_NodeRef = None, m_Addresses = [], m_Conditions = []\<rparr>)
        | Inr x \<Rightarrow> (None, x), w)),
     Client_Create_machine = (\<lambda>x w.
       (None, w\<lparr>rw_machines := rw_machines w @
          [x\<lparr>m_Meta := (m_Meta x)\<lparr>om_CreationTimestamp := rw_clock w\<rparr>\<rparr>]\<rparr>)),
     Client_Update_machine = (\<lambda>x w. (None, w\<lparr>rw_machines := put_named m_Meta x (rw_machines w)\<rparr>)),
     Client_Delete_machine = (\<lambda>x w.
       (case delete_named m_Meta (om_Name (m_Meta x)) (rw_machines w) of
          (e, ms) \<Rightarrow> (e, w\<lparr>rw_machines := ms\<rparr>))),
     Client_Create_config = (\<lambda>c w. (Inr c, w)),
     Client_List_secrets = (\<lambda>w. (Inr (rw_secrets w), w)),
     Client_Get_secret = (\<lambda>k w. (find_named sec_Meta (key_Name k) (rw_secrets w), w)),
     Client_Create_secret = (\<lambda>x w. (None, w\<lparr>rw_secrets := rw_secrets w @ [x]\<rparr>)),
     Client_Delete_secret = (\<lambda>x w.
       (case delete_named sec_Meta (om_Name (sec_Meta x)) (rw_secrets w) of
          (e, xs) \<Rightarrow> (e, w\<lparr>rw_secrets := xs\<rparr>))),
     Client_Get_cluster = (\<lambda>k w. (Inr (rw_cluster w), w)),
     Client_Update_mcp = (\<lambda>m w. ((None, m), w\<lparr>rw_mcp := m\<rparr>)),
     patch_NewHelper_mcp = (\<lambda>m w. (None, w)),
     patch_Patch_mcp = (\<lambda>b a opts w. (None, w\<lparr>rw_mcp := a\<rparr>)),
     patch_NewHelper_external = (\<lambda>x w. (None, w)),
     patch_Patch_external = (\<lambda>b a w. (None, w)),
     external_Get = (\<lambda>r ns w. (Inr \<lparr>ext_OwnerReferences = [], ext_Rest = ref_Name r\<rparr>, w)),
     external_CloneTemplate = (\<lambda>i w. (Inr (cti_TemplateRef i), w)),
     names_GenerateName = (\<lambda>b w.
       (b @ replicate (Suc (rw_names w)) CHR ''x'', w\<lparr>rw_names := Suc (rw_names w)\<rparr>)),
     clientcmd_RESTConfigFromKubeConfig = (\<lambda>b. Inr (RestConfig b)),
     connrotation_NewDialer = (\<lambda>w. (1, w)),
     kubernetes_NewForConfig = (\<lambda>c d w. (Inr 1, w)),
     dialer_CloseAll = (\<lambda>d w. ((), w)),
     Nodes_Get = (\<lambda>cs n w. (find_named n_Meta n (rw_nodes w), w)),
     Nodes_List = (\<lambda>cs sel w. (Inr (rw_nodes w), w)),
     Nodes_Update = (\<lambda>cs n w. (None, w\<lparr>rw_nodes := put_named n_Meta n (rw_nodes w)\<rparr>)),
     Nodes_Delete = (\<lambda>cs n w.
       (case delete_named n_Meta n (rw_nodes w) of (e, ns) \<Rightarrow> (e, w\<lparr>rw_nodes := ns\<rparr>))),
     Pods_Create = (\<lambda>cs ns p w. (Inr p, w)),
     Pods_Delete = (\<lambda>cs ns n g w. (None, w)),
     time_Sleep = (\<lambda>d w. ((), w\<lparr>rw_clock := rw_clock w + d\<rparr>)),
     time_Now = (\<lambda>w. (rw_clock w, w)),
     range_map = (\<lambda>ks w. (ks, w)),
     rand_Intn = (\<lambda>n w. (0, w)),
     pem_Decode = (\<lambda>b. if b = [] then None else Some
       \<lparr>pem_Type = (if hd b = CHR ''K'' then ''RSA PRIVATE KEY'' else ''CERTIFICATE''), pem_Bytes = b\<rparr>),
     pem_Encode = (\<lambda>b. Inr (pem_Bytes b)),
     x509_ParseCertificate = (\<lambda>b. Inr (Certificate b)),
     x509_ParsePKCS1PrivateKey = (\<lambda>b. Inr (PrivateKey (length b))),
     x509_MarshalPKCS1PrivateKey = (\<lambda>k. case k of PrivateKey n \<Rightarrow> replicate n CHR ''k''),
     rsa_GenerateKey = (\<lambda>n w. (Inr (PrivateKey n), w)),
     x509_CreateCertificate = (\<lambda>t ca k cak w. (Inr ''cert'', w)),
     time_AddDate = (\<lambda>y m d t. t + (y * 365 + m * 30 + d) * 24 * 3600 * Second),
     clusterv1_ClusterLabelName = ''cluster.x-k8s.io/cluster-name'',
     clusterv1_MachineControlPlaneLabelName = ''cluster.x-k8s.io/control-plane'',
     clusterv1_GroupVersion_String = ''cluster.x-k8s.io/v1beta1'',
     clusterv1_ReadyCondition = ''Ready'',
     clusterv1_ControlPlaneInitializedCondition = ''ControlPlaneInitialized'',
     clusterv1_DeletingReason = ''Deleting'',
     clusterv1_MachineInternalIP = ''InternalIP'',
     bootstrapv1beta1_GroupVersion_String = ''bootstrap.cluster.x-k8s.io/v1beta1'',
     schema_GroupVersion_String = (\<lambda>(g, v). g @ ''/'' @ v),
     metav1_NewControllerRef = (\<lambda>m gv k. \<lparr>or_APIVersion = fst gv @ ''/'' @ snd gv, or_Kind = k,
       or_Name = om_Name m, or_UID = om_UID m, or_Controller = Some True,
       or_BlockOwnerDeletion = Some True\<rparr>),
     apierrors_IsNotFound = (\<lambda>e. case e of Foreign r t \<Rightarrow> r = ''NotFound'' | _ \<Rightarrow> False),
     foreign_Error_text = (\<lambda>e. case e of Foreign r t \<Rightarrow> r @ '': '' @ t | Errorf f as \<Rightarrow> f
       | ErrNew t \<Rightarrow> t | Wrapped e t \<Rightarrow> t | errServiceUnhealthy x y \<Rightarrow> y),
     kerrors_NewAggregate = (\<lambda>es. case filter (\<lambda>e. e \<noteq> None) es of [] \<Rightarrow> None | e # _ \<Rightarrow> e),
     endpoint_IsValid = (\<lambda>ep. ep_Host ep \<noteq> []),
     annotations_IsPaused = (\<lambda>c m. cl_Paused c),
     controllerutil_ContainsFinalizer = (\<lambda>m f. f \<in> set (om_Finalizers m)),
     controllerutil_AddFinalizer = (\<lambda>m f. m\<lparr>om_Finalizers := List.insert f (om_Finalizers m)\<rparr>),
     controllerutil_RemoveFinalizer = (\<lambda>m f. m\<lparr>om_Finalizers := removeAll f (om_Finalizers m)\<rparr>),
     util_EnsureOwnerRef = (\<lambda>rs r. List.insert r rs),
     util_IsNodeReady = (\<lambda>n. (''Ready'', ''True'') \<in> set (n_Conditions n)),
     util_LowestNonZeroResult = (\<lambda>i j.
       if i = no_requeue then j else if j = no_requeue then i
       else if Requeue i then i else if Requeue j then j
       else if RequeueAfter i < RequeueAfter j then i else j),
     semver_MajorMinor = ref_MajorMinor,
     semver_Compare = ref_Compare,
     label_selector_String = (\<lambda>ls. Inr (concat (map (\<lambda>(k, v). k @ ''='' @ v @ '','') ls))),
     exists_selector_String = Inr,
     conditions_Has = (\<lambda>t cs. find_condition t cs \<noteq> None),
     conditions_MarkTrue = ref_MarkTrue,
     conditions_MarkFalse = ref_MarkFalse,
     conditions_SetAggregate = (\<lambda>t ms. ref_aggregate t (list_all (\<lambda>m. is_true ''Ready'' (m_Conditions m)) ms)),
     conditions_SetSummary = (\<lambda>ts cs. ref_aggregate ''Ready'' (list_all (\<lambda>t. is_true t cs) ts) cs),
     sort_pdqsort = sort_key creation\<rparr>"

lemma ref_conditions:
  "conditions_MarkTrue ref_env = ref_MarkTrue" "conditions_MarkFalse ref_env = ref_MarkFalse"
  "conditions_Has ref_env t cs \<longleftrightarrow> find_condition t cs \<noteq> None"
  "sort_pdqsort ref_env = sort_key creation"
  by (simp_all add: ref_env_def)

lemma ref_conditions_contract: "conditions_contract ref_env"
  by (simp add: conditions_contract_def ref_conditions ref_MarkTrue_def ref_MarkFalse_def
      find_set_condition)

lemma ref_sort_contract: "sort_contract ref_env"
  by (simp add: sort_contract_def ref_conditions)

subsection \<open>Objects\<close>

definition ref_template :: ObjectReference where
  "ref_template = \<lparr>ref_APIVersion = ''v1'', ref_Kind = ''AWSMachineTemplate'', ref_Name = ''template'',
     ref_Namespace = ''default'', ref_UID = []\<rparr>"

definition ref_node_ref :: "string \<Rightarrow> ObjectReference" where
  "ref_node_ref n = \<lparr>ref_APIVersion = ''v1'', ref_Kind = ''Node'', ref_Name = n, ref_Namespace = [],
     ref_UID = []\<rparr>"

text \<open>A machine with its name, age, version, node and address, and the node that belongs to it.\<close>

definition ref_machine :: "string \<Rightarrow> time \<Rightarrow> string \<Rightarrow> Machine" where
  "ref_machine n t v = \<lparr>m_Meta = empty_meta\<lparr>om_Name := n, om_Namespace := ''default'', om_CreationTimestamp := t\<rparr>,
     m_ClusterName = ''demo'', m_Version = Some v, m_InfrastructureRef = ref_template,
     m_BootstrapConfigRef = Some ref_template, m_FailureDomain = None, m_ProviderID = Some (''aws:'' @ n),
     m_NodeRef = Some (ref_node_ref n), m_Addresses = [(''InternalIP'', n)], m_Conditions = []\<rparr>"

definition ref_node :: "string \<Rightarrow> string \<Rightarrow> Node" where
  "ref_node n v = \<lparr>n_Meta = empty_meta\<lparr>om_Name := n, om_Annotations := [(''cluster.x-k8s.io/machine'', n)]\<rparr>,
     n_ProviderID = [], n_KubeletVersion = v, n_Addresses = [(''InternalIP'', n)],
     n_Conditions = [(''Ready'', ''True'')]\<rparr>"

definition ref_cluster :: Cluster where
  "ref_cluster = \<lparr>cl_Meta = empty_meta\<lparr>om_Name := ''demo'', om_Namespace := ''default'', om_UID := ''u1''\<rparr>,
     cl_Paused = False, cl_ControlPlaneEndpoint = \<lparr>ep_Host = ''10.0.0.1'', ep_Port = 6443\<rparr>,
     cl_ControlPlaneRef = Some \<lparr>ref_APIVersion = ''v1beta1'', ref_Kind = ''MicroK8sControlPlane'',
       ref_Name = ''cp'', ref_Namespace = ''default'', ref_UID = []\<rparr>,
     cl_InfrastructureReady = True, cl_FailureDomains = None, cl_Conditions = []\<rparr>"

definition ref_control_plane :: "int32 \<Rightarrow> string \<Rightarrow> UpgradeStrategyType \<Rightarrow> MicroK8sControlPlane" where
  "ref_control_plane replicas v strategy =
     \<lparr>mcp_Meta = empty_meta\<lparr>om_Name := ''cp'', om_Namespace := ''default'',
        om_Finalizers := [MicroK8sControlPlaneFinalizer]\<rparr>,
      mcp_Spec = \<lparr>sp_Replicas = Some replicas, sp_Version = v, sp_InfrastructureTemplate = ref_template,
        sp_UpgradeStrategy = strategy, sp_ControlPlaneConfig = MicroK8sConfigSpec ''config''\<rparr>,
      mcp_Status = \<lparr>st_Selector = [], st_Replicas = 0, st_ReadyReplicas = 0, st_UnavailableReplicas = 0,
        st_Initialized = False, st_Ready = False, st_Bootstrapped = False, st_ObservedGeneration = 0,
        st_Conditions = []\<rparr>\<rparr>"

definition ref_secrets :: "Secret list" where
  "ref_secrets =
     [\<lparr>sec_Meta = empty_meta\<lparr>om_Name := ''demo-kubeconfig'', om_Namespace := ''default''\<rparr>,
       sec_Data = [(''value'', ''config'')]\<rparr>,
      \<lparr>sec_Meta = empty_meta\<lparr>om_Name := ''demo-ca'', om_Namespace := ''default''\<rparr>,
       sec_Data = [(''crt'', ''C''), (''key'', ''K'')]\<rparr>]"

text \<open>The state with a control plane of these machines, before a reconciliation.\<close>

definition ref_state :: "MicroK8sControlPlane \<Rightarrow> Machine list \<Rightarrow> Node list \<Rightarrow> ref_world st" where
  "ref_state m ms ns =
     \<lparr>trace = [], world = \<lparr>rw_mcp = m, rw_cluster = ref_cluster, rw_machines = ms, rw_nodes = ns,
        rw_secrets = ref_secrets, rw_clock = 100, rw_names = 0\<rparr>,
      mcp = m, cluster = ref_cluster\<rparr>"

text \<open>Machines of ages 1, 2, ... in this order of the list.\<close>

definition ref_machines :: "string list \<Rightarrow> string \<Rightarrow> Machine list" where
  "ref_machines ns v = map (\<lambda>(i, n). ref_machine n (int i + 1) v) (enumerate 0 ns)"

definition ref_nodes :: "string list \<Rightarrow> string \<Rightarrow> Node list" where
  "ref_nodes ns v = map (\<lambda>n. ref_node n v) ns"

text \<open>Control planes of one, three and four machines on version 1.27, and their states.\<close>

definition one_machine :: "Machine list" where
  "one_machine = ref_machines [''a''] ''v1.27.1''"

definition three_machines :: "Machine list" where
  "three_machines = ref_machines [''a'', ''b'', ''c''] ''v1.27.1''"

definition four_machines :: "Machine list" where
  "four_machines = ref_machines [''a'', ''b'', ''c'', ''d''] ''v1.27.1''"

definition state_of :: "int32 \<Rightarrow> string \<Rightarrow> UpgradeStrategyType \<Rightarrow> Machine list \<Rightarrow> ref_world st" where
  "state_of replicas v strategy ms =
     ref_state (ref_control_plane replicas v strategy) ms
       (ref_nodes (map (\<lambda>m. om_Name (m_Meta m)) ms) ''v1.27.1'')"

lemma one_machine_eq: "one_machine = [ref_machine ''a'' 1 ''v1.27.1'']"
  by (simp add: one_machine_def ref_machines_def)

lemma state_of_sel [simp]:
  "mcp (state_of r v st ms) = ref_control_plane r v st"
  "cluster (state_of r v st ms) = ref_cluster"
  "rw_machines (world (state_of r v st ms)) = ms"
  "trace (state_of r v st ms) = []"
  by (simp_all add: state_of_def ref_state_def)

lemma node_of_one_machine:
  "find_named n_Meta ''a'' (rw_nodes (world (state_of r v st one_machine))) = Inr (ref_node ''a'' ''v1.27.1'')"
  by (simp add: one_machine_eq state_of_def ref_state_def ref_nodes_def find_named_def named_def
      ref_node_def ref_machine_def empty_meta_def)

end
