(* ===== verification/Scaling_Properties.thy ===== *)
theory Scaling_Properties
  imports Reference
begin

text \<open>
  The properties of the machine phase: which machines may be created and deleted, that the phase
  carries out the decision its numbers call for, and what a boot and a scale-down do.
\<close>

text \<open>
  C5: the phase asks for the deletion of a machine only when there are more machines than desired,
  at least four of them, every machine has a node and none is being deleted already; and the
  machine is one of the oldest.
\<close>

theorem machine_deletion_guard:
  assumes "conditions_contract E" and "sort_contract E"
    and "Deleted (OMachine x) q \<in> set (events (reconcileMachines E ms) s)"
  shows "desired_replicas s < int (length ms) \<and> 4 \<le> length ms \<and> settled ms \<and> oldest_of x ms"
  using wpD [OF reconcileMachines_effects [OF assms(1,2), of ms s]] assms(3)
  by (auto simp: machine_effects_def may_delete_def)

theorem machine_deletion_guard_witness:
  "desired_replicas (state_of 3 ''v1.27.1'' [] four_machines) < int (length four_machines) \<and>
   4 \<le> length four_machines \<and> settled four_machines \<and> oldest_of (hd four_machines) four_machines"
  by (rule machine_deletion_guard [OF ref_conditions_contract ref_sort_contract, where q = None]) code_simp

text \<open>
  C6: one run of the phase creates and deletes at most one machine together, whatever the clients
  answer.
\<close>

theorem one_machine_at_a_time:
  assumes "conditions_contract E" and "sort_contract E"
  shows "count_of creates_machine (events (reconcileMachines E ms) s) +
         count_of deletes_machine (events (reconcileMachines E ms) s) \<le> 1"
  using wpD [OF reconcileMachines_effects [OF assms, of ms s]] by (auto simp: machine_effects_def)

theorem one_machine_at_a_time_witness:
  "count_of creates_machine (events (reconcileMachines ref_env one_machine) (state_of 3 ''v1.27.1'' [] one_machine)) +
   count_of deletes_machine (events (reconcileMachines ref_env one_machine) (state_of 3 ''v1.27.1'' [] one_machine)) \<le> 1"
  by (rule one_machine_at_a_time [OF ref_conditions_contract ref_sort_contract])

text \<open>
  C7: the phase creates a machine only when machines are missing, or to start a rolling upgrade from
  exactly the desired number; and the machine is in the control plane's namespace, carries the labels
  the listing selects and an owner reference to the object, and has its version and a
  permitted failure domain.
\<close>

theorem machine_creation_guard:
  assumes "conditions_contract E" and "sort_contract E"
    and "Created (OMachine x) q \<in> set (events (reconcileMachines E ms) s)"
  shows "(int (length ms) < desired_replicas s \<or> surges E s ms) \<and> owned_machine E s x"
  using wpD [OF reconcileMachines_effects [OF assms(1,2), of ms s]] assms(3)
  by (auto simp: machine_effects_def may_create_def)

text \<open>The machine a rolling upgrade of the three machines adds.\<close>

definition surge_machine :: Machine where
  "surge_machine =
     new_machine ref_env (ref_control_plane 3 ''v1.28.0'' []) ref_cluster ''cp-xx'' ref_template
       \<lparr>ref_APIVersion = ''bootstrap.cluster.x-k8s.io/v1beta1'', ref_Kind = ''MicroK8sConfig'',
        ref_Name = ''cp-x'', ref_Namespace = ''default'', ref_UID = []\<rparr> None"

theorem machine_creation_guard_witness:
  "(int (length three_machines) < desired_replicas (state_of 3 ''v1.28.0'' [] three_machines) \<or>
    surges ref_env (state_of 3 ''v1.28.0'' [] three_machines) three_machines) \<and>
   owned_machine ref_env (state_of 3 ''v1.28.0'' [] three_machines) surge_machine"
  by (rule machine_creation_guard [OF ref_conditions_contract ref_sort_contract, where q = None]) code_simp

text \<open>
  C8: the phase carries out the plan that a table over the replicas, the strategy, the number of
  machines and the version of the oldest one names. Without replicas, or without a version on the oldest
  machine, it panics before any call. An outdated control plane is rolled (strategy
  \<open>RollingUpgrade\<close>, or an empty or smart one from three machines on) by creating one machine at exactly the
  desired number, or upgraded in place (\<open>InPlaceUpgrade\<close>, or an empty or smart one below three): then the
  nodes are upgraded one after the other behind a client that is always released, and the
  number of machines is adjusted only after the last. In every other case the number is adjusted.
\<close>

theorem phase_refines_plan:
  assumes "conditions_contract E" and "sort_contract E"
  shows "phase_run E ms s (result (reconcileMachines E ms) s) (events (reconcileMachines E ms) s)
      (final (reconcileMachines E ms) s) \<and>
    (\<forall>m. oldest_machine E ms = Some m \<longrightarrow> oldest_of m ms)"
  using wpD [OF reconcileMachines_run [OF assms, of ms s]] oldest_machine_oldest [OF assms(2)] by blast

text \<open>
  Three machines of an older version are rolled, two of them are upgraded in place, under the same
  strategy.
\<close>

theorem phase_refines_plan_witness:
  "carries_out ref_env three_machines Create_Machine (state_of 3 ''v1.28.0'' [] three_machines)
     (result (reconcileMachines ref_env three_machines) (state_of 3 ''v1.28.0'' [] three_machines))
     (events (reconcileMachines ref_env three_machines) (state_of 3 ''v1.28.0'' [] three_machines))
     (final (reconcileMachines ref_env three_machines) (state_of 3 ''v1.28.0'' [] three_machines)) \<and>
   in_place_run ref_env (take 2 three_machines) Leave_Machines (state_of 2 ''v1.28.0'' [] (take 2 three_machines))
     (result (reconcileMachines ref_env (take 2 three_machines)) (state_of 2 ''v1.28.0'' [] (take 2 three_machines)))
     (events (reconcileMachines ref_env (take 2 three_machines)) (state_of 2 ''v1.28.0'' [] (take 2 three_machines)))
     (final (reconcileMachines ref_env (take 2 three_machines)) (state_of 2 ''v1.28.0'' [] (take 2 three_machines)))"
proof -
  let ?s = "state_of 3 ''v1.28.0'' [] three_machines" and ?two = "take 2 three_machines"
  let ?t = "state_of 2 ''v1.28.0'' [] ?two"
  have "expected_plan ref_env (mcp_Spec (mcp ?s)) (oldest_machine ref_env three_machines) (length three_machines) = Surge"
    and "sort_machines ref_env three_machines = three_machines" by code_simp+
  moreover have "expected_plan ref_env (mcp_Spec (mcp ?t)) (oldest_machine ref_env ?two) (length ?two) = In_Place"
    and "sort_machines ref_env ?two = ?two"
    and "replica_action (case sp_Replicas (mcp_Spec (mcp ?t)) of None \<Rightarrow> 0 | Some d \<Rightarrow> sint d) (int (length ?two)) =
      Leave_Machines" by code_simp+
  ultimately show ?thesis
    using phase_refines_plan [OF ref_conditions_contract ref_sort_contract, of three_machines ?s]
      phase_refines_plan [OF ref_conditions_contract ref_sort_contract, of ?two ?t]
    unfolding phase_run_def Let_def by (simp only: plan.case)
qed

text \<open>
  C9: the adjustment carries out the decision the two numbers call for: create one machine, remove
  one, refuse to go below three, or leave the machines alone; each with its calls, its result and
  its effect on the object.
\<close>

theorem adjustment_refines_decision:
  assumes "conditions_contract E" and "0 \<le> n"
  shows "carries_out E ms (replica_action d n) s (result (reconcile_replicas E d n ms) s)
     (events (reconcile_replicas E d n ms) s) (final (reconcile_replicas E d n ms) s)"
  by (rule wpD [OF reconcile_replicas_wp [OF assms]])

theorem adjustment_refines_decision_witness:
  "carries_out ref_env four_machines Remove_Machine (state_of 3 ''v1.27.1'' [] four_machines)
     (result (reconcile_replicas ref_env 3 4 four_machines) (state_of 3 ''v1.27.1'' [] four_machines))
     (events (reconcile_replicas ref_env 3 4 four_machines) (state_of 3 ''v1.27.1'' [] four_machines))
     (final (reconcile_replicas ref_env 3 4 four_machines) (state_of 3 ''v1.27.1'' [] four_machines))"
  using adjustment_refines_decision [OF ref_conditions_contract, of 4 four_machines 3
      "state_of 3 ''v1.27.1'' [] four_machines"]
  by (simp add: replica_action_def)

text \<open>
  C10: a scale-down ends in one of the ways of the relation, each with its calls and its reply. Without
  machines there is no call; without a client the error of the connection is returned. Behind the
  last machine that is in deletion or has no node all are settled: of a machine in deletion the node is
  read, a node that is gone is no error, one that cannot be read is one, and the node that was read is
  deleted under its own name with the error of that deletion returned; a machine without a node is
  waited for. Only over settled machines one is removed, the last among the oldest, and after it its node.
  The client is released on every one of these ways.
\<close>

theorem scale_down_refines_run:
  "scale_down_run E ms (result (scaleDownControlPlane E k cpName ms) s)
     (events (scaleDownControlPlane E k cpName ms) s)"
  using wpD [OF scaleDownControlPlane_wp [of E k cpName ms s]] by blast

text \<open>
  C11: a scale-down of settled machines that obtains a client makes progress: it asks for the deletion
  of one of the oldest machines.
\<close>

theorem scale_down_progress:
  assumes "settled ms" and "ms \<noteq> []"
    and "Connected kc \<in> set (events (scaleDownControlPlane E k cpName ms) s)"
  shows "\<exists>x q. oldest_of x ms \<and> Deleted (OMachine x) q \<in> set (events (scaleDownControlPlane E k cpName ms) s)"
  using wpD [OF scaleDownControlPlane_wp [of E k cpName ms s]] assms by (blast intro: scale_down_run_progress)

theorem scale_down_progress_witness:
  "\<exists>x q. oldest_of x four_machines \<and> Deleted (OMachine x) q \<in>
     set (events (scaleDownControlPlane ref_env (ObjectKey_of (cl_Meta ref_cluster)) ''cp'' four_machines)
       (state_of 3 ''v1.27.1'' [] four_machines))"
  by (rule scale_down_progress [where kc = "\<lparr>kc_Clientset = 1, kc_dialer = 1\<rparr>"]) code_simp+

text \<open>
  C12: over settled machines a node is removed only after the deletion of the oldest machine it belongs
  to was accepted.
\<close>

theorem node_follows_machine:
  assumes "settled ms" and "NodeDeleted n q \<in> set (events (scaleDownControlPlane E k cpName ms) s)"
  shows "\<exists>x ref pre post. events (scaleDownControlPlane E k cpName ms) s =
       pre @ [Deleted (OMachine x) None, NodeDeleted n q] @ post \<and>
     oldest_of x ms \<and> m_NodeRef x = Some ref \<and> ref_Name ref = n"
  using wpD [OF scaleDownControlPlane_wp [of E k cpName ms s]] assms by (blast intro: scale_down_run_order)

theorem node_follows_machine_witness:
  "\<exists>x ref pre post.
     events (scaleDownControlPlane ref_env (ObjectKey_of (cl_Meta ref_cluster)) ''cp'' four_machines)
       (state_of 3 ''v1.27.1'' [] four_machines) =
       pre @ [Deleted (OMachine x) None, NodeDeleted ''a'' None] @ post \<and>
     oldest_of x four_machines \<and> m_NodeRef x = Some ref \<and> ref_Name ref = ''a''"
  by (rule node_follows_machine) code_simp+

text \<open>
  C13: a rolling upgrade of fewer than three replicas does not come to its end. Once the additional
  machine is there the phase refuses to remove any machine, whatever versions they run: it
  issues no call at all, asks for no requeue, and leaves the object as it was up to its conditions,
  so the next run over the same machines does the same.
\<close>

theorem small_rolling_upgrade_is_stuck:
  assumes "sort_contract E" and "plan_of E s ms \<noteq> Nil_Panic"
    and "rolls_over (strategy_of s) (int (length ms))"
    and "int (length ms) = desired_replicas s + 1" and "length ms < 4"
  shows "events (reconcileMachines E ms) s = [] \<and>
    result (reconcileMachines E ms) s = Ret (no_requeue, None) \<and>
    only_conditions s (final (reconcileMachines E ms) s)"
proof -
  have "plan_of E s ms = Adjust"
    using assms(2-4) by (auto simp: plan_of_def surges_def upgrades_nodes_def split: if_splits)
  then have "run_state (reconcileMachines E ms) s =
      run_state (scale_down E (desired_replicas s) (int (length ms)) (sort_machines E ms)) s"
    using reconcileMachines_plan [OF assms(1), of ms s] assms(4) by (simp add: reconcile_replicas_def)
  then have "wp (reconcileMachines E ms)
      (carries_out E (sort_machines E ms) (replica_action (desired_replicas s) (int (length ms))) s) s"
    using scale_down_wp [of "desired_replicas s" "int (length ms)"] assms(4) by (simp cong: wp_cong)
  moreover have "replica_action (desired_replicas s) (int (length ms)) = Refuse_Removal"
    using assms(4,5) by (simp add: replica_action_def)
  ultimately show ?thesis using wpD by fastforce
qed

theorem small_rolling_upgrade_is_stuck_witness:
  "events (reconcileMachines ref_env three_machines) (state_of 2 ''v1.28.0'' ''RollingUpgrade'' three_machines) = [] \<and>
   result (reconcileMachines ref_env three_machines) (state_of 2 ''v1.28.0'' ''RollingUpgrade'' three_machines) =
     Ret (no_requeue, None) \<and>
   only_conditions (state_of 2 ''v1.28.0'' ''RollingUpgrade'' three_machines)
     (final (reconcileMachines ref_env three_machines) (state_of 2 ''v1.28.0'' ''RollingUpgrade'' three_machines))"
  by (rule small_rolling_upgrade_is_stuck [OF ref_sort_contract]) code_simp+

text \<open>
  C14: a boot ends in one of its four ways: the infrastructure template, the bootstrap configuration or
  the machine is refused, each with its reason on the object and no requeue, or all three are
  accepted and the reply asks for a requeue. The calls are issued in this order and stop at the
  first refusal.
\<close>

theorem boot_refines_run:
  assumes "conditions_contract E"
  shows "boot_run E s (result (bootControlPlane E first) s) (events (bootControlPlane E first) s)
     (final (bootControlPlane E first) s)"
  by (rule wpD [OF bootControlPlane_run [OF assms]])

theorem boot_refines_run_witness:
  "boot_run ref_env (state_of 1 ''v1.27.1'' [] []) (result (bootControlPlane ref_env True) (state_of 1 ''v1.27.1'' [] []))
     (events (bootControlPlane ref_env True) (state_of 1 ''v1.27.1'' [] []))
     (final (bootControlPlane ref_env True) (state_of 1 ''v1.27.1'' [] []))"
  by (rule boot_refines_run [OF ref_conditions_contract])

text \<open>
  C15: up to twelve machines the sort by creation timestamp, carried out by Go's insertion sort
  through the three methods of the interface, is the stable sort: machines of one age keep
  their order.
\<close>

theorem machines_sorted_stably:
  assumes "length ms \<le> 12"
  shows "sort_machines E ms = sort_key creation ms"
  by (rule sort_machines_small [OF assms])

theorem machines_sorted_stably_witness:
  "sort_machines ref_env (rev three_machines) = sort_key creation (rev three_machines)"
  by (rule machines_sorted_stably) code_simp

end
