(* ===== verification/Roll_Step.thy ===== *)
theory Roll_Step
  imports Replicas
begin

text \<open>
  The abstract view of the machine phase over time: a step over the versions of the machines, oldest
  first. The locale \<open>converging\<close> is the argument every liveness property here rests on: a step that
  decreases a measure until a goal is reached, and keeps the goal. It is interpreted on the step
  for rolling upgrades and for plain scaling.
\<close>

subsection \<open>Reaching a goal\<close>

locale converging =
  fixes step :: "'s \<Rightarrow> 's" and good :: "'s \<Rightarrow> bool" and goal :: "'s \<Rightarrow> bool" and distance :: "'s \<Rightarrow> nat"
  assumes good_step: "good x \<Longrightarrow> good (step x)"
    and progress: "good x \<Longrightarrow> \<not> goal x \<Longrightarrow> distance (step x) < distance x"
    and stays: "good x \<Longrightarrow> goal x \<Longrightarrow> goal (step x)"
begin

lemma good_iterate: "good x \<Longrightarrow> good ((step ^^ n) x)"
  by (induction n) (simp_all add: good_step)

lemma goal_iterate: "good x \<Longrightarrow> goal x \<Longrightarrow> goal ((step ^^ n) x)"
  by (induction n) (simp_all add: stays good_iterate)

lemma reaches: "good x \<Longrightarrow> distance x \<le> n \<Longrightarrow> goal ((step ^^ n) x)"
proof (induction n arbitrary: x)
  case 0
  then show ?case using progress by fastforce
next
  case (Suc n x)
  show ?case
  proof (cases "goal x")
    case True
    then show ?thesis using goal_iterate [OF Suc.prems(1)] by blast
  next
    case False
    with progress [OF Suc.prems(1)] Suc.prems(2) have "distance (step x) \<le> n" by simp
    from Suc.IH [OF good_step [OF Suc.prems(1)] this] show ?thesis
      by (simp add: funpow_swap1)
  qed
qed

end

subsection \<open>The abstract step\<close>

text \<open>
  One pass over the versions of the machines, oldest first: a machine of the new version is added
  when one is missing, or when the oldest is outdated at exactly the desired number; the oldest goes
  when there are too many and at least four.
\<close>

fun act_on :: "replica_action \<Rightarrow> 'v \<Rightarrow> 'v list \<Rightarrow> 'v list" where
  "act_on Create_Machine new vs = vs @ [new]"
| "act_on Remove_Machine new vs = tl vs"
| "act_on Refuse_Removal new vs = vs"
| "act_on Leave_Machines new vs = vs"

definition roll_step :: "('v \<Rightarrow> bool) \<Rightarrow> 'v \<Rightarrow> nat \<Rightarrow> 'v list \<Rightarrow> 'v list" where
  "roll_step old new d vs =
     (if vs \<noteq> [] \<and> old (hd vs) \<and> length vs = d then vs @ [new]
      else act_on (replica_action (int d) (int (length vs))) new vs)"

text \<open>Outdated machines come before current ones.\<close>

definition old_first :: "('v \<Rightarrow> bool) \<Rightarrow> 'v list \<Rightarrow> bool" where
  "old_first old = sorted_wrt (\<lambda>v w. old w \<longrightarrow> old v)"

fun outdated :: "('v \<Rightarrow> bool) \<Rightarrow> 'v list \<Rightarrow> nat" where
  "outdated old [] = 0"
| "outdated old (v # vs) = (if old v then Suc (outdated old vs) else outdated old vs)"

definition upgraded :: "('v \<Rightarrow> bool) \<Rightarrow> nat \<Rightarrow> 'v list \<Rightarrow> bool" where
  "upgraded old d vs \<longleftrightarrow> length vs = d \<and> (\<forall>v \<in> set vs. \<not> old v)"

text \<open>How many passes are left: those that fix the number, and two for every outdated machine.\<close>

definition passes_left :: "('v \<Rightarrow> bool) \<Rightarrow> nat \<Rightarrow> 'v list \<Rightarrow> nat" where
  "passes_left old d vs =
     (if length vs \<le> d then (d - length vs) + 2 * outdated old vs
      else (length vs - d) + 2 * (outdated old vs - (length vs - d)))"

lemma outdated_append [simp]: "outdated old (vs @ ws) = outdated old vs + outdated old ws"
  by (induction vs) auto

lemma outdated_0: "outdated old vs = 0 \<longleftrightarrow> (\<forall>v \<in> set vs. \<not> old v)"
  by (induction vs) auto

lemma old_first_Cons:
  "old_first old (v # vs) \<longleftrightarrow> old_first old vs \<and> (old v \<or> (\<forall>w \<in> set vs. \<not> old w))"
  by (auto simp: old_first_def)

lemma old_first_Nil [simp]: "old_first old []"
  by (simp add: old_first_def)

lemma old_first_tl: "old_first old vs \<Longrightarrow> old_first old (tl vs)"
  by (cases vs) (simp_all add: old_first_Cons)

lemma old_first_snoc: "\<not> old v \<Longrightarrow> old_first old vs \<Longrightarrow> old_first old (vs @ [v])"
  by (induction vs) (auto simp: old_first_Cons)

lemma outdated_tl:
  "old_first old vs \<Longrightarrow> outdated old (tl vs) = outdated old vs - 1"
  by (cases vs) (auto simp: old_first_Cons simp flip: outdated_0)

lemma outdated_hd:
  "old_first old vs \<Longrightarrow> vs \<noteq> [] \<Longrightarrow> old (hd vs) \<longleftrightarrow> 0 < outdated old vs"
  by (cases vs) (auto simp: old_first_Cons simp flip: outdated_0)

lemma outdated_le: "outdated old vs \<le> length vs"
  by (induction vs) auto

lemma roll_step_cases:
  obtains (surge) "vs \<noteq> []" "old (hd vs)" "length vs = d" "roll_step old new d vs = vs @ [new]"
  | (create) "length vs < d" "roll_step old new d vs = vs @ [new]"
  | (remove) "length vs > d" "4 \<le> length vs" "roll_step old new d vs = tl vs"
  | (refuse) "length vs > d" "length vs < 4" "roll_step old new d vs = vs"
  | (leave) "length vs = d" "vs = [] \<or> \<not> old (hd vs)" "roll_step old new d vs = vs"
proof (cases "vs \<noteq> [] \<and> old (hd vs) \<and> length vs = d")
  case True
  with surge show ?thesis by (simp add: roll_step_def)
next
  case False
  then have step: "roll_step old new d vs = act_on (replica_action (int d) (int (length vs))) new vs"
    unfolding roll_step_def by (rule if_not_P)
  consider "length vs < d" | "length vs > d" "4 \<le> length vs" | "length vs > d" "length vs < 4" | "length vs = d"
    by linarith
  then show ?thesis
    by cases (use False that step in \<open>auto simp: replica_action_def\<close>)
qed

text \<open>From three replicas on the abstract step completes every rolling upgrade.\<close>

interpretation rolling: converging "roll_step old new d"
  "\<lambda>vs. old_first old vs \<and> \<not> old new \<and> 3 \<le> d" "upgraded old d" "passes_left old d"
proof (unfold_locales, goal_cases)
  case (1 vs)
  then show ?case
    by (cases rule: roll_step_cases [of vs old d new]) (simp_all add: old_first_snoc old_first_tl)
next
  case (2 vs)
  then have first: "old_first old vs" and new: "\<not> old new" and d: "3 \<le> d" by simp_all
  show ?case
  proof (cases rule: roll_step_cases [of vs old d new])
    case surge
    with first new show ?thesis by (simp add: passes_left_def outdated_hd)
  next
    case create
    with new show ?thesis by (simp add: passes_left_def)
  next
    case remove
    with outdated_tl [OF first] show ?thesis by (auto simp: passes_left_def)
  next
    case refuse
    with d show ?thesis by simp
  next
    case leave
    with d first have "vs \<noteq> []" and "\<not> old (hd vs)" by auto
    then have "outdated old vs = 0" using outdated_hd [OF first] by simp
    with leave 2 show ?thesis by (simp add: upgraded_def outdated_0)
  qed
next
  case (3 vs)
  then show ?case
    by (cases rule: roll_step_cases [of vs old d new]) (auto simp: upgraded_def)
qed

subsection \<open>Scaling\<close>

text \<open>
  Without outdated machines the step only scales. From below it reaches the desired number; from
  above it stops at the desired number or at three, whatever is more.
\<close>

definition scaled :: "nat \<Rightarrow> 'v list \<Rightarrow> bool" where
  "scaled d vs \<longleftrightarrow> length vs = d \<or> (d < length vs \<and> length vs \<le> 3)"

definition scaling_left :: "nat \<Rightarrow> 'v list \<Rightarrow> nat" where
  "scaling_left d vs = (if length vs \<le> d then d - length vs else length vs - max d 3)"

definition none_outdated :: "('v \<Rightarrow> bool) \<Rightarrow> 'v list \<Rightarrow> bool" where
  "none_outdated old vs \<longleftrightarrow> (\<forall>v \<in> set vs. \<not> old v)"

lemma set_tl: "v \<in> set (tl vs) \<Longrightarrow> v \<in> set vs"
  by (cases vs) auto

lemma none_outdated_step:
  assumes "none_outdated old vs" and "\<not> old new"
  shows "none_outdated old (roll_step old new d vs)"
  using assms
  by (cases rule: roll_step_cases [of vs old d new]) (auto simp: none_outdated_def dest: set_tl)

interpretation scaling: converging "roll_step old new d"
  "\<lambda>vs. none_outdated old vs \<and> \<not> old new" "scaled d" "scaling_left d"
proof (unfold_locales, goal_cases)
  case (1 vs)
  then show ?case by (simp add: none_outdated_step)
next
  case (2 vs)
  then show ?case
    by (cases rule: roll_step_cases [of vs old d new])
       (auto simp: none_outdated_def scaled_def scaling_left_def)
next
  case (3 vs)
  then show ?case
    by (cases rule: roll_step_cases [of vs old d new])
       (auto simp: none_outdated_def scaled_def)
qed

end
