(* ===== verification/Convergence.thy ===== *)
theory Convergence
  imports Roll_Step
begin

text \<open>
  The machine phase over many passes. A simulation lemma shows that a pass of \<open>reconcileMachines\<close>
  either changes no machine or takes the abstract step of \<open>Roll_Step\<close> on the versions of the
  machines; histories of passes then inherit what the step converges to.
\<close>

subsection \<open>The machines of the next pass\<close>

text \<open>
  What a pass changes about the machines: the versions of the accepted new ones, and the machines
  whose deletion was accepted.
\<close>

fun adds :: "event \<Rightarrow> string option list" where
  "adds (Created (OMachine m) None) = [m_Version m]"
| "adds e = []"

fun removes :: "event \<Rightarrow> Machine list" where
  "removes (Deleted (OMachine m) None) = [m]"
| "removes e = []"

definition added :: "event list \<Rightarrow> string option list" where
  "added es = concat (map adds es)"

definition removed :: "event list \<Rightarrow> Machine list" where
  "removed es = concat (map removes es)"

lemma added_simps [simp]: "added [] = []" "added (e # es) = adds e @ added es"
    "added (es @ es') = added es @ added es'"
  by (simp_all add: added_def)

lemma removed_simps [simp]: "removed [] = []" "removed (e # es) = removes e @ removed es"
    "removed (es @ es') = removed es @ removed es'"
  by (simp_all add: removed_def)

lemma added_none: "filter creates_machine es = [] \<Longrightarrow> added es = []"
proof (induction es)
  case (Cons e es)
  then show ?case by (cases e rule: adds.cases) (auto split: if_splits)
qed simp

lemma removed_none: "filter deletes_machine es = [] \<Longrightarrow> removed es = []"
proof (induction es)
  case (Cons e es)
  then show ?case by (cases e rule: removes.cases) (auto split: if_splits)
qed simp

text \<open>
  What identifies a machine over time here; everything else about it (its node, its addresses, its
  conditions) may change between two passes.
\<close>

definition stamp :: "Machine \<Rightarrow> time \<times> string option" where
  "stamp m = (creation m, m_Version m)"

text \<open>
  \<open>next_machines ts es ms ms'\<close>: after the calls \<open>es\<close> of a pass over \<open>ms\<close>, the next pass
  finds the machines \<open>ms'\<close>; the ones the pass added were created at the times \<open>ts\<close>. Here
  ``the next pass'' is the next one that finds what the calls have led to: a machine whose deletion was
  accepted is gone from its list. A real machine keeps its place in the list, with a deletion timestamp,
  until its finalizers are gone. While it does, \<open>scaleDownControlPlane\<close> deletes no machine
  (\<open>only_settled_after\<close> of \<open>Scale_Down\<close>); these passes are left out of a history.
\<close>

definition next_machines :: "time list \<Rightarrow> event list \<Rightarrow> Machine list \<Rightarrow> Machine list \<Rightarrow> bool" where
  "next_machines ts es ms ms' \<longleftrightarrow>
     length ts = length (added es) \<and> distinct ts \<and> (\<forall>t \<in> set ts. \<forall>m \<in> set ms. creation m < t) \<and>
     mset (map stamp ms') =
       mset (map stamp (filter (\<lambda>m. m \<notin> set (removed es)) ms)) + mset (zip ts (added es))"

definition by_age :: "'w env \<Rightarrow> Machine list \<Rightarrow> string option list" where
  "by_age E ms = map m_Version (sort_machines E ms)"

text \<open>Stamps with distinct times have one ascending order.\<close>

lemma stamps_unique:
  assumes "mset xs = mset ys" and "sorted (map fst xs)" and "sorted (map fst ys)"
    and "distinct (map fst (xs :: (time \<times> 'a) list))"
  shows "xs = ys"
proof -
  have "mset (map fst xs) = mset (map fst ys)" and set: "set xs = set ys"
    using assms(1) by (simp, metis set_mset_mset)
  then have "distinct (map fst ys)" using assms(4) mset_eq_imp_distinct_iff by metis
  moreover have "inj_on fst (set xs \<union> set ys)"
    using assms(4) unfolding set [symmetric] by (simp add: distinct_map)
  ultimately show ?thesis
    using map_sorted_distinct_set_unique [of fst xs ys, OF _ assms(2,4,3) _ set] by blast
qed

lemma map_fst_stamp [simp]: "map fst (map stamp ms) = map creation ms"
    "map snd (map stamp ms) = map m_Version ms"
  by (simp_all add: stamp_def)

lemma mset_map_sort_machines:
  "sort_contract E \<Longrightarrow> mset (map f (sort_machines E ms)) = mset (map f ms)"
  by (simp add: mset_sort_machines)

lemma stamps_sorted_eqI:
  assumes "sort_contract E" and "mset (map stamp ms') = mset xs" and "sorted (map fst xs)"
    and "distinct (map fst xs)"
  shows "map stamp (sort_machines E ms') = xs"
proof (rule stamps_unique [symmetric])
  show "mset xs = mset (map stamp (sort_machines E ms'))"
    using assms(2) mset_map_sort_machines [OF assms(1), of stamp ms'] by simp
  show "sorted (map fst (map stamp (sort_machines E ms')))"
    using sorted_sort_machines [OF assms(1)] by (simp add: stamp_def comp_def)
qed (use assms in simp_all)

definition aged :: "Machine list \<Rightarrow> bool" where
  "aged ms \<longleftrightarrow> distinct (map creation ms) \<and> (\<forall>m \<in> set ms. m_Version m \<noteq> None)"

lemma aged_stamps:
  "aged ms \<longleftrightarrow> distinct (map fst (map stamp ms)) \<and> None \<notin> snd ` set (map stamp ms)"
  unfolding aged_def by (auto simp: stamp_def comp_def image_image) (metis image_eqI option.exhaust)

lemma aged_mset: "mset (map stamp ms') = mset xs \<Longrightarrow>
    aged ms' \<longleftrightarrow> distinct (map fst xs) \<and> None \<notin> snd ` set xs"
  unfolding aged_stamps
  by (metis list.set_map mset_eq_imp_distinct_iff mset_map set_mset_mset)

lemma by_age_stamps: "by_age E ms = map snd (map stamp (sort_machines E ms))"
  by (simp add: by_age_def stamp_def)

lemma sorted_stamps: "sort_contract E \<Longrightarrow> sorted (map fst (map stamp (sort_machines E ms)))"
  using sorted_sort_machines by (simp add: stamp_def comp_def)

lemma aged_sorted: "sort_contract E \<Longrightarrow> aged (sort_machines E ms) = aged ms"
  using mset_map_sort_machines [of E stamp ms] aged_mset aged_stamps by metis

lemma next_added:
  assumes "sort_contract E" and "aged ms" and "next_machines ts es ms ms'"
    and "added es = [v]" and "removed es = []" and "v \<noteq> None"
  shows "by_age E ms' = by_age E ms @ [v] \<and> aged ms'"
proof -
  let ?xs = "map stamp (sort_machines E ms)"
  from assms(3-5) obtain t where t: "ts = [t]" and newer: "\<forall>m \<in> set ms. creation m < t"
    and ms': "mset (map stamp ms') = mset (map stamp ms) + mset [(t, v)]"
    by (auto simp: next_machines_def length_Suc_conv)
  have eq: "mset (map stamp ms') = mset (?xs @ [(t, v)])"
    using ms' mset_map_sort_machines [OF assms(1), of stamp ms] by simp
  have lt: "\<forall>u \<in> set (map fst ?xs). u < t"
    using newer by (auto simp: stamp_def set_sort_machines [OF assms(1)])
  have "aged (sort_machines E ms)" using assms(1,2) by (simp add: aged_sorted)
  then have dist: "distinct (map fst (?xs @ [(t, v)]))" and some: "None \<notin> snd ` set (?xs @ [(t, v)])"
    using lt assms(6) unfolding aged_stamps by auto
  have "sorted (map fst (?xs @ [(t, v)]))"
    using sorted_stamps [OF assms(1), of ms] lt by (auto simp: sorted_append intro: less_imp_le)
  from stamps_sorted_eqI [OF assms(1) eq this dist]
  have "by_age E ms' = map snd (?xs @ [(t, v)])" unfolding by_age_stamps by (rule arg_cong)
  then show ?thesis using aged_mset [OF eq] dist some by (simp add: by_age_stamps)
qed

lemma next_removed:
  assumes "sort_contract E" and "aged ms" and "next_machines ts es ms ms'"
    and "added es = []" and "removed es = [hd (sort_machines E ms)]" and "ms \<noteq> []"
  shows "by_age E ms' = tl (by_age E ms) \<and> aged ms'"
proof -
  let ?ms = "sort_machines E ms"
  let ?xs = "map stamp (tl ?ms)"
  have "?ms \<noteq> []" using length_sort_machines [OF assms(1), of ms] assms(6) by auto
  then obtain x xs where x: "?ms = x # xs" by (cases ?ms) auto
  have aged: "aged ?ms" using assms(1,2) by (simp add: aged_sorted)
  then have "x \<notin> set xs" unfolding x aged_def by auto
  then have "filter (\<lambda>m. m \<noteq> x) ?ms = tl ?ms" unfolding x by (auto simp: filter_id_conv)
  moreover have "mset (filter (\<lambda>m. m \<noteq> x) ms) = mset (filter (\<lambda>m. m \<noteq> x) ?ms)"
    using mset_sort_machines [OF assms(1), of ms] by simp
  ultimately have "mset (filter (\<lambda>m. m \<noteq> x) ms) = mset (tl ?ms)" by simp
  moreover have "mset (map stamp ms') = image_mset stamp (mset (filter (\<lambda>m. m \<noteq> x) ms))"
    using assms(3-5) unfolding next_machines_def x by simp
  ultimately have eq: "mset (map stamp ms') = mset ?xs" by simp
  have dist: "distinct (map fst ?xs)" and some: "None \<notin> snd ` set ?xs"
    using aged unfolding aged_stamps x by auto
  have "sorted (map fst ?xs)" using sorted_stamps [OF assms(1), of ms] unfolding x by simp
  from stamps_sorted_eqI [OF assms(1) eq this dist]
  have "by_age E ms' = map snd ?xs" unfolding by_age_stamps by (rule arg_cong)
  then show ?thesis using aged_mset [OF eq] dist some by (simp add: by_age_stamps x)
qed

lemma next_unchanged:
  assumes "sort_contract E" and "aged ms" and "next_machines ts es ms ms'"
    and "added es = []" and "removed es = []"
  shows "by_age E ms' = by_age E ms \<and> aged ms'"
proof -
  let ?xs = "map stamp (sort_machines E ms)"
  have eq: "mset (map stamp ms') = mset ?xs"
    using assms(3-5) mset_map_sort_machines [OF assms(1), of stamp ms] by (simp add: next_machines_def)
  have dist: "distinct (map fst ?xs)" and some: "None \<notin> snd ` set ?xs"
    using aged_sorted [OF assms(1), of ms] assms(2) unfolding aged_stamps by auto
  from stamps_sorted_eqI [OF assms(1) eq sorted_stamps [OF assms(1)] dist]
  have "by_age E ms' = map snd ?xs" unfolding by_age_stamps by (rule arg_cong)
  then show ?thesis using aged_mset [OF eq] dist some by (simp add: by_age_stamps)
qed

subsection \<open>A pass takes the abstract step\<close>

abbreviation target_version :: "'w st \<Rightarrow> string" where
  "target_version s \<equiv> sp_Version (mcp_Spec (mcp s))"

text \<open>A machine of version \<open>v\<close> has to be replaced when \<open>target\<close> is asked for.\<close>

definition stale :: "'w env \<Rightarrow> string \<Rightarrow> string option \<Rightarrow> bool" where
  "stale E target v \<longleftrightarrow>
     (case v of None \<Rightarrow> False
      | Some w \<Rightarrow> semver_MajorMinor E w \<noteq> [] \<and>
          semver_Compare E (semver_MajorMinor E w) (semver_MajorMinor E target) \<noteq> 0)"

fun accepted :: "event \<Rightarrow> bool" where
  "accepted (Created (OSecret x) q) \<longleftrightarrow> True"
| "accepted (Created b q) \<longleftrightarrow> q = None"
| "accepted (Deleted b q) \<longleftrightarrow> q = None"
| "accepted (Cloned i q) \<longleftrightarrow> q = None"
| "accepted e \<longleftrightarrow> True"

text \<open>
  Nothing got in the way of the pass: its creations and deletions were accepted (those of secrets
  aside), and if it had a machine to remove, all machines had their nodes and a client was obtained.
\<close>

definition undisturbed :: "'w st \<Rightarrow> Machine list \<Rightarrow> event list \<Rightarrow> bool" where
  "undisturbed s ms es \<longleftrightarrow>
     list_all accepted es \<and> (may_delete s ms \<longrightarrow> settled ms \<and> opened es \<noteq> [])"

lemma version_skew_stale:
  assumes "sort_contract E" and "aged ms"
  shows "version_skew E s ms \<longleftrightarrow>
    by_age E ms \<noteq> [] \<and> stale E (sp_Version (mcp_Spec (mcp s))) (hd (by_age E ms))"
proof (cases "sort_machines E ms")
  case (Cons x xs)
  then show ?thesis
    using assms aged_sorted [OF assms(1), of ms]
    by (cases "m_Version x")
       (simp_all add: version_skew_def versions_def by_age_def stale_def aged_def)
qed (simp add: version_skew_def versions_def by_age_def)

lemma length_by_age: "sort_contract E \<Longrightarrow> length (by_age E ms) = length ms"
  by (simp add: by_age_def length_sort_machines)

lemma set_by_age: "sort_contract E \<Longrightarrow> set (by_age E ms) = m_Version ` set ms"
  by (simp add: by_age_def set_sort_machines)

lemma hd_by_age: "sort_contract E \<Longrightarrow> by_age E ms \<noteq> [] \<Longrightarrow> hd (by_age E ms) \<in> m_Version ` set ms"
  using set_by_age hd_in_set by metis

lemma boot_run_accepted:
  assumes "boot_run E t rep es s'" and "list_all accepted es"
  shows "added es = [Some (sp_Version (mcp_Spec (mcp t)))]" and "removed es = []"
  using assms by (auto elim!: boot_runE simp: boots_machine_def new_machine_def)

lemma hd_unique_oldest:
  assumes "sorted (map creation ms)" and "distinct (map creation ms)" and "oldest_of x ms"
  shows "x = hd ms"
proof -
  from assms(3) obtain y ys where ms: "ms = y # ys" by (cases ms) (auto simp: oldest_of_def)
  have "x \<notin> set ys"
  proof
    assume x: "x \<in> set ys"
    with assms(1,3) have "creation x = creation y" unfolding ms oldest_of_def by force
    then have "creation y \<in> creation ` set ys" using image_eqI [of "creation y" creation x] x by simp
    with assms(2) show False unfolding ms by simp
  qed
  with assms(3) show ?thesis unfolding ms by (simp add: oldest_of_def)
qed

lemma connecting_changes: "connecting r es \<Longrightarrow> added es = [] \<and> removed es = []"
  by (simp add: added_none removed_none)

lemma connecting_no_client: "connecting (Inl err) es \<Longrightarrow> opened es = []"
  by (simp add: connecting_opened)

lemma scale_down_run_accepted:
  assumes "scale_down_run E ms r es" and "settled ms" and "ms \<noteq> []"
    and "list_all accepted es" and "opened es \<noteq> []"
  shows "added es = []" and "\<exists>x. oldest_of x ms \<and> removed es = [x]"
proof -
  have "added es = [] \<and> (\<exists>x. victim_of ms x \<and> removed es = [x])"
    using assms by (cases rule: scale_down_run.cases)
      (auto simp: connecting_changes dest: connecting_no_client only_settled_after_not_settled)
  then show "added es = []" and "\<exists>x. oldest_of x ms \<and> removed es = [x]"
    using victim_ofD(2) by auto
qed

lemma sorted_machines_simps:
  assumes "sort_contract E"
  shows "sort_machines E ms = [] \<longleftrightarrow> ms = []" and "settled (sort_machines E ms) = settled ms"
  using length_sort_machines [OF assms, of ms]
  by (auto simp: settled_def set_sort_machines [OF assms] simp flip: length_0_conv)

text \<open>What carrying out a decision changes, over the machines in order of age.\<close>

lemma carries_out_step:
  assumes "carries_out E (sort_machines E ms) a s r es s'" and "sort_contract E" and "aged ms"
    and "list_all accepted es" and "next_machines ts es ms ms'"
    and "a = Remove_Machine \<longrightarrow> settled ms \<and> opened es \<noteq> [] \<and> ms \<noteq> []"
  shows "by_age E ms' = act_on a (Some (target_version s)) (by_age E ms) \<and> aged ms'"
proof (cases a)
  case Create_Machine
  then obtain t rep where t: "only_conditions s t" and b: "boot_run E t rep es s'"
    using assms(1) by auto
  have "mcp_Spec (mcp t) = mcp_Spec (mcp s)"
    using only_conditions_same_target [OF t] by (simp add: same_target_def)
  with next_added [OF assms(2,3,5)] boot_run_accepted [OF b assms(4)] show ?thesis
    by (simp add: Create_Machine)
next
  case Remove_Machine
  let ?ms = "sort_machines E ms"
  have eq: "set ?ms = set ms" by (rule set_sort_machines [OF assms(2)])
  from Remove_Machine assms(6) have "settled ?ms" and "?ms \<noteq> []" and op: "opened es \<noteq> []"
    using eq by (auto simp: settled_def)
  moreover obtain q where "scale_down_run E ?ms q es" using assms(1) Remove_Machine by auto
  ultimately have added: "added es = []" and "\<exists>x. oldest_of x ?ms \<and> removed es = [x]"
    using scale_down_run_accepted [of E ?ms q es] assms(4) by auto
  then have "removed es = [hd ?ms]"
    using hd_unique_oldest [OF sorted_sort_machines [OF assms(2)]] assms(3) aged_sorted [OF assms(2), of ms]
    by (auto simp: aged_def)
  with next_removed [OF assms(2,3,5) added] assms(6) Remove_Machine show ?thesis by simp
next
  case Refuse_Removal
  with next_unchanged [OF assms(2,3,5)] assms(1) show ?thesis by simp
next
  case Leave_Machines
  with next_unchanged [OF assms(2,3,5)] assms(1) show ?thesis by simp
qed

lemma roll_step_action:
  assumes "\<not> (vs \<noteq> [] \<and> old (hd vs) \<and> length vs = d)"
  shows "roll_step old new d vs =
    act_on (replica_action (int d) (int (length vs))) new vs"
  unfolding roll_step_def by (rule if_not_P [OF assms])

lemma undisturbedD:
  "undisturbed s ms es \<Longrightarrow> list_all accepted es"
  "undisturbed s ms es \<Longrightarrow> may_delete s ms \<Longrightarrow> settled ms \<and> opened es \<noteq> [] \<and> ms \<noteq> []"
  by (auto simp: undisturbed_def may_delete_def)

text \<open>A decision that was not carried out to its end has changed no machine.\<close>

lemma connecting_accepted: "connecting r es \<Longrightarrow> list_all accepted es"
proof -
  have "accepted e" if "secret_only e \<or> connects e" for e
    using that by (cases e rule: secret_only.cases) auto
  then show "connecting r es \<Longrightarrow> list_all accepted es"
    by (auto simp: connecting_def list_all_iff split: sum.splits)
qed

lemma carries_out_or_idle:
  assumes "carries_out E ms a s r es s'"
  shows "(added es = [] \<and> removed es = []) \<or>
    (list_all accepted es \<and> (a = Remove_Machine \<longrightarrow> settled ms \<and> opened es \<noteq> [] \<and> ms \<noteq> []))"
proof (cases a)
  case Create_Machine
  then show ?thesis using assms by (auto elim!: boot_runE)
next
  case Remove_Machine
  then obtain q where run: "scale_down_run E ms q es" using assms by auto
  have cleanup: "added es' = [] \<and> removed es' = []"
    if "cleanup_run E kc m q' es'" for kc m q' es'
    using cleanup_filter [OF that] added_none removed_none by blast
  from run show ?thesis
    by (cases rule: scale_down_run.cases)
       (auto simp: connecting_changes connecting_accepted connecting_opened cleanup dest: victim_ofD)
qed (use assms in simp_all)

text \<open>
  The machines are replaced and not upgraded in place, because the strategy says so or because none of
  them is outdated. Then the decision a pass carries out is the one the abstract step takes.
\<close>

definition rolling :: "'w env \<Rightarrow> nat \<Rightarrow> MicroK8sControlPlaneSpec \<Rightarrow> Machine list \<Rightarrow> bool" where
  "rolling E d spec ms \<longleftrightarrow> aged ms \<and> map_option sint (sp_Replicas spec) = Some (int d) \<and>
     (rolls_over (selected_strategy (sp_UpgradeStrategy spec)) (int (length ms)) \<or>
      none_outdated (stale E (sp_Version spec)) (map m_Version ms))"

abbreviation roll ::
  "'w env \<Rightarrow> MicroK8sControlPlaneSpec \<Rightarrow> nat \<Rightarrow> string option list \<Rightarrow> string option list" where
  "roll E spec \<equiv> roll_step (stale E (sp_Version spec)) (Some (sp_Version spec))"

lemma pass_decision:
  assumes "conditions_contract E" and "sort_contract E" and "rolling E d (mcp_Spec (mcp s)) ms"
  obtains a where
    "carries_out E (sort_machines E ms) a s (result (reconcileMachines E ms) s)
       (events (reconcileMachines E ms) s) (final (reconcileMachines E ms) s)"
    and "roll E (mcp_Spec (mcp s)) d (by_age E ms) = act_on a (Some (target_version s)) (by_age E ms)"
    and "a = Remove_Machine \<longrightarrow> may_delete s ms"
proof -
  let ?ms = "sort_machines E ms"
  from assms(3) have aged: "aged ms" and w: "sp_Replicas (mcp_Spec (mcp s)) \<noteq> None"
    and d: "desired_replicas s = int d"
    by (auto simp: rolling_def desired_replicas_def)
  have len: "length (by_age E ms) = length ms" by (rule length_by_age [OF assms(2)])
  have "?ms ! 0 \<in> set ?ms" if "ms \<noteq> []"
    using that length_sort_machines [OF assms(2), of ms] by (auto intro: nth_mem)
  then have "\<not> (ms \<noteq> [] \<and> m_Version (?ms ! 0) = None)"
    using aged aged_sorted [OF assms(2), of ms] by (auto simp: aged_def)
  moreover have roll: "rolls_over (strategy_of s) (int (length ms)) \<or> \<not> version_skew E s ms"
    using assms(3) hd_by_age [OF assms(2), of ms]
    by (auto simp: rolling_def strategy_of_def version_skew_stale [OF assms(2) aged] none_outdated_def)
  ultimately have plan: "plan_of E s ms = (if surges E s ms then Surge else Adjust)"
    using w by (auto simp: plan_of_def upgrades_nodes_def)
  have surges: "surges E s ms \<longleftrightarrow> by_age E ms \<noteq> [] \<and> stale E (target_version s) (hd (by_age E ms)) \<and>
      length (by_age E ms) = d"
    using roll unfolding version_skew_stale [OF assms(2) aged] by (auto simp: surges_def version_skew_stale [OF assms(2) aged] d len)
  note run = reconcileMachines_plan [OF assms(2), of ms s, unfolded plan d]
  show ?thesis
  proof (cases "surges E s ms")
    case True
    then have "wp (reconcileMachines E ms) (carries_out E ?ms Create_Machine s) s"
      using scale_up_wp [OF assms(1)] run by (simp del: carries_out.simps cong: wp_cong)
    from that [OF wpD [OF this]] True show ?thesis unfolding surges by (simp add: roll_step_def)
  next
    case False
    then have run: "run_state (reconcileMachines E ms) s =
        run_state (reconcile_replicas E (int d) (int (length ms)) ?ms) s" using run by simp
    have "wp (reconcileMachines E ms)
        (carries_out E ?ms (replica_action (int d) (int (length ms))) s) s"
      unfolding wp_cong [OF run] by (rule reconcile_replicas_wp [OF assms(1)]) simp
    from that [OF wpD [OF this]] show ?thesis
      using roll_step_action [of "by_age E ms" "stale E (target_version s)" d] False
      unfolding surges len by (simp add: replica_action_iff may_delete_def d)
  qed
qed

lemma pass_takes_step:
  assumes "conditions_contract E" and "sort_contract E" and "rolling E d (mcp_Spec (mcp s)) ms"
    and "undisturbed s ms (events (reconcileMachines E ms) s)"
    and "next_machines ts (events (reconcileMachines E ms) s) ms ms'"
  shows "by_age E ms' = roll E (mcp_Spec (mcp s)) d (by_age E ms) \<and> aged ms'"
proof -
  from assms(3) have aged: "aged ms" by (simp add: rolling_def)
  obtain a where a: "carries_out E (sort_machines E ms) a s (result (reconcileMachines E ms) s)
       (events (reconcileMachines E ms) s) (final (reconcileMachines E ms) s)"
    and roll: "roll E (mcp_Spec (mcp s)) d (by_age E ms) = act_on a (Some (target_version s)) (by_age E ms)"
    and del: "a = Remove_Machine \<longrightarrow> may_delete s ms"
    using pass_decision [OF assms(1-3)] .
  show ?thesis
    unfolding roll
    by (rule carries_out_step [OF a assms(2) aged undisturbedD(1) [OF assms(4)] assms(5)])
       (use del undisturbedD(2) [OF assms(4)] in blast)
qed

text \<open>Whatever the clients answer, a pass takes the step or leaves the versions as they were.\<close>

lemma pass_step_or_idle:
  assumes "conditions_contract E" and "sort_contract E" and "rolling E d (mcp_Spec (mcp s)) ms"
    and "next_machines ts (events (reconcileMachines E ms) s) ms ms'"
  shows "by_age E ms' \<in> {by_age E ms, roll E (mcp_Spec (mcp s)) d (by_age E ms)} \<and> aged ms'"
proof -
  let ?es = "events (reconcileMachines E ms) s"
  from assms(3) have aged: "aged ms" by (simp add: rolling_def)
  obtain a where a: "carries_out E (sort_machines E ms) a s (result (reconcileMachines E ms) s) ?es
        (final (reconcileMachines E ms) s)"
    and roll: "roll E (mcp_Spec (mcp s)) d (by_age E ms) = act_on a (Some (target_version s)) (by_age E ms)"
    using pass_decision [OF assms(1-3)] .
  from carries_out_or_idle [OF a] show ?thesis
  proof (elim disjE conjE)
    assume "added ?es = []" and "removed ?es = []"
    with next_unchanged [OF assms(2) aged assms(4)] show ?thesis by simp
  next
    assume acc: "list_all accepted ?es"
      and "a = Remove_Machine \<longrightarrow> settled (sort_machines E ms) \<and> opened ?es \<noteq> [] \<and> sort_machines E ms \<noteq> []"
    from carries_out_step [OF a assms(2) aged acc assms(4) this(2) [unfolded sorted_machines_simps [OF assms(2)]]]
    show ?thesis unfolding roll by simp
  qed
qed

subsection \<open>Rolling out a version\<close>

text \<open>The documented reflexivity of \<open>semver.Compare\<close>.\<close>

definition semver_contract :: "'w env \<Rightarrow> bool" where
  "semver_contract E \<longleftrightarrow> (\<forall>v. semver_Compare E v v = 0)"

text \<open>
  A history of passes over one specification, with the machines each pass finds; it counts the
  undisturbed ones. The other passes are those in which no machine was created or deleted: by
  \<open>pass_step_or_idle\<close> there is no third kind.
\<close>

inductive rollout :: "'w env \<Rightarrow> MicroK8sControlPlaneSpec \<Rightarrow> Machine list \<Rightarrow> nat \<Rightarrow> Machine list \<Rightarrow> bool"
  for E :: "'w env" and spec :: MicroK8sControlPlaneSpec and ms0 :: "Machine list" where
  start: "rollout E spec ms0 0 ms0"
| pass: "rollout E spec ms0 n ms \<Longrightarrow> mcp_Spec (mcp s) = spec \<Longrightarrow>
    undisturbed s ms (events (reconcileMachines E ms) s) \<Longrightarrow>
    next_machines ts (events (reconcileMachines E ms) s) ms ms' \<Longrightarrow> rollout E spec ms0 (Suc n) ms'"
| idle: "rollout E spec ms0 n ms \<Longrightarrow> mcp_Spec (mcp s) = spec \<Longrightarrow>
    added (events (reconcileMachines E ms) s) = [] \<Longrightarrow> removed (events (reconcileMachines E ms) s) = [] \<Longrightarrow>
    next_machines ts (events (reconcileMachines E ms) s) ms ms' \<Longrightarrow> rollout E spec ms0 n ms'"

lemma rolls_over_mono:
  "rolls_over st (int n) \<Longrightarrow> (3 \<le> n \<Longrightarrow> 3 \<le> n') \<Longrightarrow> rolls_over st (int n')"
  by (auto simp: rolls_over_def)

lemma roll_step_keeps_three: "3 \<le> length vs \<Longrightarrow> 3 \<le> length (roll_step old new d vs)"
  by (cases rule: roll_step_cases [of vs old d new]) simp_all

lemma stale_target: "semver_contract E \<Longrightarrow> \<not> stale E v (Some v)"
  by (simp add: stale_def semver_contract_def)

lemma none_outdated_by_age:
  "sort_contract E \<Longrightarrow> none_outdated old (by_age E ms) = none_outdated old (map m_Version ms)"
  by (simp add: none_outdated_def set_by_age)

lemma rolling_next:
  assumes "sort_contract E" and "semver_contract E" and "rolling E d spec ms" and "aged ms'"
    and "by_age E ms' = by_age E ms \<or> by_age E ms' = roll E spec d (by_age E ms)"
  shows "rolling E d spec ms'"
proof -
  have "3 \<le> length ms'" if "3 \<le> length ms"
    using that assms(5) roll_step_keeps_three [of "by_age E ms"]
    unfolding length_by_age [OF assms(1), symmetric] by auto
  moreover have "none_outdated (stale E (sp_Version spec)) (map m_Version ms')"
    if "none_outdated (stale E (sp_Version spec)) (map m_Version ms)"
    using that assms(5) stale_target [OF assms(2)]
      none_outdated_step [of "stale E (sp_Version spec)" _ "Some (sp_Version spec)"]
    unfolding none_outdated_by_age [OF assms(1), symmetric] by auto
  ultimately show ?thesis using assms(3,4) by (auto simp: rolling_def elim: rolls_over_mono)
qed

lemma rollout_iterates:
  assumes "conditions_contract E" and "sort_contract E" and "semver_contract E" and "rolling E d spec ms0"
    and "rollout E spec ms0 n ms"
  shows "rolling E d spec ms \<and> by_age E ms = (roll E spec d ^^ n) (by_age E ms0)"
  using assms(5)
proof (induction rule: rollout.induct)
  case start
  then show ?case using assms(4) by simp
next
  case (pass n ms s ts ms')
  then have r: "rolling E d (mcp_Spec (mcp s)) ms" by simp
  from pass_takes_step [OF assms(1,2) r pass.hyps(3,4)] show ?case
    using rolling_next [OF assms(2,3) r] pass by simp
next
  case (idle n ms s ts ms')
  then have r: "rolling E d (mcp_Spec (mcp s)) ms" by simp
  then have "aged ms" by (simp add: rolling_def)
  from next_unchanged [OF assms(2) this idle.hyps(5,3,4)] show ?case
    using rolling_next [OF assms(2,3) r] idle by simp
qed

lemma rollout_completes:
  assumes "conditions_contract E" and "sort_contract E" and "semver_contract E"
    and "rolling E d spec ms0" and "3 \<le> d" and "old_first (stale E (sp_Version spec)) (by_age E ms0)"
    and "rollout E spec ms0 n ms" and "passes_left (stale E (sp_Version spec)) d (by_age E ms0) \<le> n"
  shows "length ms = d \<and> (\<forall>m \<in> set ms. \<not> stale E (sp_Version spec) (m_Version m))"
proof -
  have "upgraded (stale E (sp_Version spec)) d ((roll E spec d ^^ n) (by_age E ms0))"
    using assms(5,6,8) stale_target [OF assms(3)] by (intro rolling.reaches) auto
  then have "upgraded (stale E (sp_Version spec)) d (by_age E ms)"
    using rollout_iterates [OF assms(1-4,7)] by simp
  then show ?thesis
    using length_by_age [OF assms(2), of ms] set_by_age [OF assms(2), of ms] by (simp add: upgraded_def)
qed

lemma rollout_scales:
  assumes "conditions_contract E" and "sort_contract E" and "semver_contract E"
    and "rolling E d spec ms0" and "none_outdated (stale E (sp_Version spec)) (map m_Version ms0)"
    and "rollout E spec ms0 n ms" and "scaling_left d ms0 \<le> n"
  shows "scaled d ms"
proof -
  have "scaling_left d (by_age E ms0) \<le> n"
    using assms(7) by (auto simp: scaling_left_def length_by_age [OF assms(2)] split: if_splits)
  then have "scaled d ((roll E spec d ^^ n) (by_age E ms0))"
    using assms(5) stale_target [OF assms(3)]
    by (intro scaling.reaches) (simp_all add: none_outdated_by_age [OF assms(2)])
  then have "scaled d (by_age E ms)"
    using rollout_iterates [OF assms(1-4,6)] by simp
  then show ?thesis by (simp add: scaled_def length_by_age [OF assms(2)])
qed

end
