(* ===== verification/Convergence_Properties.thy ===== *)
theory Convergence_Properties
  imports Reference Convergence
begin

text \<open>
  The properties of the machine phase over many passes: a pass refines the abstract step, enough
  passes complete a rolling upgrade, and an in-place upgrade that was interrupted is not resumed.
\<close>

text \<open>
  C3: while machines are replaced and not upgraded in place, and whatever the clients answer, the
  machines the next pass finds run, in order of age, the versions they ran before or those the abstract
  step makes of them: one machine of the new version added at the end, or the oldest one gone.
\<close>

theorem pass_refines_step:
  assumes "conditions_contract E" and "sort_contract E" and "rolling E d (mcp_Spec (mcp s)) ms"
    and "next_machines ts (events (reconcileMachines E ms) s) ms ms'"
  shows "by_age E ms' \<in> {by_age E ms,
    roll_step (stale E (target_version s)) (Some (target_version s)) d (by_age E ms)} \<and> aged ms'"
  by (rule pass_step_or_idle [OF assms])

subsection \<open>A rolling upgrade of three machines\<close>

text \<open>
  Two of the three machines run the new version; the pass over them adds a machine, which has
  its node when the next pass removes the oldest one.
\<close>

definition before_surge :: "Machine list" where
  "before_surge = [ref_machine ''a'' 1 ''v1.27.1'', ref_machine ''b'' 2 ''v1.28.0'', ref_machine ''c'' 3 ''v1.28.0'']"

definition after_surge :: "Machine list" where
  "after_surge = before_surge @ [ref_machine ''d'' 100 ''v1.28.0'']"

definition after_removal :: "Machine list" where
  "after_removal = tl after_surge"

definition rolling_state :: "Machine list \<Rightarrow> ref_world st" where
  "rolling_state ms = state_of 3 ''v1.28.0'' ''RollingUpgrade'' ms"

text \<open>In the in-memory environment a boot succeeds.\<close>

lemma ref_boot_answers:
  "external_CloneTemplate ref_env i w = (Inr (cti_TemplateRef i), w)"
  "Client_Create_config ref_env cfg w = (Inr cfg, w)"
  "fst (Client_Create_machine ref_env x w) = None"
  by (simp_all add: ref_env_def)

lemma ref_boot:
  "wp (bootControlPlane ref_env first)
     (\<lambda>r es s'. list_all accepted es \<and> added es = [Some (target_version s)] \<and> removed es = []) s"
  unfolding bootControlPlane_def generateMicroK8sConfig_def getFailureDomain_def
  by (intro wp) (auto simp: ref_boot_answers new_machine_def dest: arg_cong [where f = fst])

lemma ref_creating_pass:
  defines "es s ms \<equiv> events (reconcileMachines ref_env ms) s"
  assumes "plan_of ref_env s ms = Surge \<or>
     (plan_of ref_env s ms = Adjust \<and> int (length ms) < desired_replicas s)"
  shows "undisturbed s ms (es s ms)" and "added (es s ms) = [Some (target_version s)]"
    and "removed (es s ms) = []"
proof -
  note run = wp_cong [OF reconcileMachines_plan [OF ref_sort_contract]]
  have boot: "wp (scale_up ref_env d n)
     (\<lambda>r es s'. list_all accepted es \<and> added es = [Some (target_version s)] \<and> removed es = []) s" for d n
    unfolding scale_up_def by (intro wp wp_conseq [OF ref_boot]) (simp_all add: with_conditions_def)
  have "wp (reconcileMachines ref_env ms)
     (\<lambda>r es s'. list_all accepted es \<and> added es = [Some (target_version s)] \<and> removed es = []) s"
    using assms(2)
  proof (elim disjE conjE)
    assume "plan_of ref_env s ms = Surge"
    then show ?thesis unfolding run by (simp add: boot)
  next
    assume "plan_of ref_env s ms = Adjust" and "int (length ms) < desired_replicas s"
    then show ?thesis
      unfolding run reconcile_replicas_def by (auto simp: boot intro!: wp wp_conseq [OF ref_boot])
  qed
  moreover have "\<not> may_delete s ms"
    using assms(2) by (auto simp: may_delete_def plan_of_def surges_def split: if_splits)
  ultimately show "undisturbed s ms (es s ms)" and "added (es s ms) = [Some (target_version s)]"
    and "removed (es s ms) = []"
    unfolding es_def undisturbed_def by (auto dest: wpD)
qed

lemma surge_pass:
  defines "es \<equiv> events (reconcileMachines ref_env before_surge) (rolling_state before_surge)"
  shows "undisturbed (rolling_state before_surge) before_surge es"
    and "added es = [Some ''v1.28.0'']" and "removed es = []"
proof -
  have "plan_of ref_env (rolling_state before_surge) before_surge = Surge" by code_simp
  with ref_creating_pass [of "rolling_state before_surge" before_surge]
  show "undisturbed (rolling_state before_surge) before_surge es"
    and "added es = [Some ''v1.28.0'']" and "removed es = []"
    by (simp_all add: es_def rolling_state_def ref_control_plane_def)
qed

lemma removal_pass:
  defines "es \<equiv> events (reconcileMachines ref_env after_surge) (rolling_state after_surge)"
  shows "undisturbed (rolling_state after_surge) after_surge es"
    and "added es = []" and "removed es = [hd after_surge]"
  unfolding es_def by code_simp+

text \<open>The next listing, given the changes of the pass.\<close>

lemma next_machinesI:
  assumes "added es = vs" and "removed es = xs" and "length ts = length vs" and "distinct ts"
    and "\<forall>t \<in> set ts. \<forall>m \<in> set ms. creation m < t"
    and "mset (map stamp ms') = mset (map stamp (filter (\<lambda>m. m \<notin> set xs) ms)) + mset (zip ts vs)"
  shows "next_machines ts es ms ms'"
  using assms by (simp add: next_machines_def)

abbreviation rolling_spec :: MicroK8sControlPlaneSpec where
  "rolling_spec \<equiv> mcp_Spec (ref_control_plane 3 ''v1.28.0'' ''RollingUpgrade'')"

lemmas ref_rollout_defs = after_removal_def after_surge_def before_surge_def stamp_def ref_machine_def
  empty_meta_def

lemma ref_rollout: "rollout ref_env rolling_spec before_surge 2 after_removal"
proof -
  have spec: "mcp_Spec (mcp (rolling_state ms)) = rolling_spec" for ms by (simp add: rolling_state_def)
  have "rollout ref_env rolling_spec before_surge (Suc 0) after_surge"
    by (rule rollout.pass [OF rollout.start spec surge_pass(1)],
        rule next_machinesI [OF surge_pass(2,3), of "[100]"]) (simp_all add: ref_rollout_defs)
  from rollout.pass [OF this spec removal_pass(1), of "[]" after_removal]
  have "rollout ref_env rolling_spec before_surge (Suc (Suc 0)) after_removal"
    by (rule meta_mp) (rule next_machinesI [OF removal_pass(2,3)], simp_all add: ref_rollout_defs)
  then show ?thesis by (simp add: numeral_2_eq_2)
qed

lemma ref_semver_contract: "semver_contract ref_env"
proof -
  have "compare_codes xs xs = 0" for xs by (induction xs) simp_all
  then show ?thesis by (simp add: semver_contract_def ref_env_def ref_Compare_def)
qed

theorem pass_refines_step_witness:
  "by_age ref_env after_surge \<in> {by_age ref_env before_surge,
     roll_step (stale ref_env ''v1.28.0'') (Some ''v1.28.0'') 3 (by_age ref_env before_surge)} \<and> aged after_surge"
proof -
  have "next_machines [100] (events (reconcileMachines ref_env before_surge) (rolling_state before_surge))
      before_surge after_surge"
    by (rule next_machinesI [OF surge_pass(2,3)]) (simp_all add: ref_rollout_defs)
  moreover have "rolling ref_env 3 (mcp_Spec (mcp (rolling_state before_surge))) before_surge" by code_simp
  ultimately show ?thesis
    using pass_refines_step [OF ref_conditions_contract ref_sort_contract, of 3 "rolling_state before_surge"
        before_surge "[100]" after_surge]
    by (simp add: rolling_state_def ref_control_plane_def)
qed

text \<open>
  C1: from three replicas on, a rolling upgrade comes to its end. Take any history of passes over one
  specification whose outdated machines are older than the current ones. After \<open>passes_left\<close>
  undisturbed passes, two for every outdated machine and one for every machine too many or too few,
  with any number of disturbed ones in between, there are exactly the desired number of machines
  and none is outdated.
\<close>

theorem rolling_upgrade_completes:
  assumes "conditions_contract E" and "sort_contract E" and "semver_contract E"
    and "rolling E d spec ms0" and "3 \<le> d" and "old_first (stale E (sp_Version spec)) (by_age E ms0)"
    and "rollout E spec ms0 n ms" and "passes_left (stale E (sp_Version spec)) d (by_age E ms0) \<le> n"
  shows "length ms = d \<and> (\<forall>m \<in> set ms. \<not> stale E (sp_Version spec) (m_Version m))"
  by (rule rollout_completes [OF assms])

theorem rolling_upgrade_completes_witness:
  "length after_removal = 3 \<and>
   list_all (\<lambda>m. \<not> stale ref_env (sp_Version rolling_spec) (m_Version m)) after_removal"
proof -
  have "rolling ref_env 3 rolling_spec before_surge" by code_simp
  moreover have "old_first (stale ref_env (sp_Version rolling_spec)) (by_age ref_env before_surge)" by code_simp
  moreover have "passes_left (stale ref_env (sp_Version rolling_spec)) 3 (by_age ref_env before_surge) \<le> 2"
    by code_simp
  ultimately show ?thesis
    using rolling_upgrade_completes [OF ref_conditions_contract ref_sort_contract ref_semver_contract
        _ _ _ ref_rollout, of 3] by (simp add: list_all_iff)
qed

subsection \<open>Scaling\<close>

text \<open>
  C2: with no machine outdated, and so also from an empty control plane on, the phase scales under
  every strategy. After as many undisturbed passes as there are machines missing or too many, the
  number is the desired one, or the control plane was to go below three machines and has at most three.
\<close>

theorem scaling_completes:
  assumes "conditions_contract E" and "sort_contract E" and "semver_contract E"
    and "rolling E d spec ms0" and "none_outdated (stale E (sp_Version spec)) (map m_Version ms0)"
    and "rollout E spec ms0 n ms" and "scaling_left d ms0 \<le> n"
  shows "length ms = d \<or> (d < length ms \<and> length ms \<le> 3)"
  using rollout_scales [OF assms] by (simp add: scaled_def)

text \<open>The first two machines of a control plane under the default strategy.\<close>

definition first_machines :: "nat \<Rightarrow> Machine list" where
  "first_machines n = take n [ref_machine ''a'' 10 ''v1.28.0'', ref_machine ''b'' 20 ''v1.28.0'']"

lemma first_rollout: "rollout ref_env (mcp_Spec (ref_control_plane 2 ''v1.28.0'' [])) [] 2 (first_machines 2)"
proof -
  let ?s = "state_of 2 ''v1.28.0'' []"
  have spec: "mcp_Spec (mcp (?s ms)) = mcp_Spec (ref_control_plane 2 ''v1.28.0'' [])" for ms by simp
  have "plan_of ref_env (?s []) [] = Adjust" by code_simp
  moreover have d: "desired_replicas (?s ms) = 2" for ms
    by (simp add: desired_replicas_def ref_control_plane_def)
  ultimately have p0: "plan_of ref_env (?s []) [] = Surge \<or>
      (plan_of ref_env (?s []) [] = Adjust \<and> int (length ([] :: Machine list)) < desired_replicas (?s []))" by simp
  note first = ref_creating_pass [OF p0]
  have "plan_of ref_env (?s (first_machines 1)) (first_machines 1) = Adjust" by code_simp
  then have p1: "plan_of ref_env (?s (first_machines 1)) (first_machines 1) = Surge \<or>
      (plan_of ref_env (?s (first_machines 1)) (first_machines 1) = Adjust \<and>
       int (length (first_machines 1)) < desired_replicas (?s (first_machines 1)))"
    by (simp add: d first_machines_def)
  note second = ref_creating_pass [OF p1]
  have "rollout ref_env (mcp_Spec (ref_control_plane 2 ''v1.28.0'' [])) [] (Suc 0) (first_machines 1)"
    by (rule rollout.pass [OF rollout.start spec first(1)], rule next_machinesI [OF first(2,3), of "[10]"])
       (simp_all add: first_machines_def ref_rollout_defs ref_control_plane_def)
  from rollout.pass [OF this spec second(1), of "[20]" "first_machines 2"]
  have "rollout ref_env (mcp_Spec (ref_control_plane 2 ''v1.28.0'' [])) [] (Suc (Suc 0)) (first_machines 2)"
    by (rule meta_mp) (rule next_machinesI [OF second(2,3)],
      simp_all add: first_machines_def ref_rollout_defs ref_control_plane_def)
  then show ?thesis by (simp add: numeral_2_eq_2)
qed

theorem scaling_completes_witness:
  "length (first_machines 2) = 2 \<or> (2 < length (first_machines 2) \<and> length (first_machines 2) \<le> 3)"
  by (rule scaling_completes [OF ref_conditions_contract ref_sort_contract ref_semver_contract
        _ _ first_rollout]) code_simp+

subsection \<open>An interrupted upgrade\<close>

text \<open>
  C16: only the oldest machine's version is looked at. With the desired number of machines and the
  oldest one up to date, the phase issues no call and reports no error, whatever the versions of the
  other machines: an in-place upgrade that stopped after its first machine is not resumed.
\<close>

theorem interrupted_upgrade_abandoned:
  assumes "conditions_contract E" and "sort_contract E" and "desired_replicas s = int (length ms)"
    and "plan_of E s ms \<noteq> Nil_Panic"
    and "m_Version (sort_machines E ms ! 0) = Some v" and "\<not> stale E (target_version s) (Some v)"
  shows "events (reconcileMachines E ms) s = [] \<and> (\<exists>res. result (reconcileMachines E ms) s = Ret (res, None))"
proof -
  have "\<not> version_skew E s ms"
    using assms(5,6) by (auto simp: version_skew_def versions_def stale_def)
  then have plan: "plan_of E s ms = Adjust"
    using assms(4) by (auto simp: plan_of_def surges_def upgrades_nodes_def split: if_splits)
  have "wp (reconcileMachines E ms) (carries_out E (sort_machines E ms) Leave_Machines s) s"
    unfolding wp_cong [OF reconcileMachines_plan [OF assms(2)]] plan plan.case
    using reconcile_replicas_wp [OF assms(1), of "int (length ms)" "int (length ms)" "sort_machines E ms" s]
    by (simp add: assms(3) replica_action_def)
  from wpD [OF this] show ?thesis by simp
qed

text \<open>Two machines under an in-place upgrade, of which the first is done.\<close>

definition half_upgraded :: "Machine list" where
  "half_upgraded = [ref_machine ''a'' 1 ''v1.28.0'', ref_machine ''b'' 2 ''v1.27.1'']"

theorem interrupted_upgrade_abandoned_witness:
  "events (reconcileMachines ref_env half_upgraded) (state_of 2 ''v1.28.0'' ''InPlaceUpgrade'' half_upgraded) = [] \<and>
   (\<exists>res. result (reconcileMachines ref_env half_upgraded)
      (state_of 2 ''v1.28.0'' ''InPlaceUpgrade'' half_upgraded) = Ret (res, None))"
  by (rule interrupted_upgrade_abandoned [OF ref_conditions_contract ref_sort_contract, where v = "''v1.28.0''"])
     code_simp+

end
