(* ===== verification/Upgrade_Properties.thy ===== *)
theory Upgrade_Properties
  imports Reference
begin

text \<open>
  The properties of the in-place upgrade: what it writes, how long it waits, and what happens when a
  step of it fails.
\<close>

subsection \<open>A failing upgrade pod\<close>

text \<open>
  The round over a machine whose upgrade pod cannot be created: the machine object is updated all the
  same, and the nil pod is dereferenced after that.
\<close>

lemma upgrade_machine_no_pod:
  assumes "m_NodeRef machine = Some ref"
    and "Nodes_Get E (kc_Clientset kc) (ref_Name ref) (world s) = (Inr node, w)"
    and "\<And>p w. \<exists>err w'. Pods_Create E (kc_Clientset kc) ''default'' p w = (Inl err, w')"
  shows "wp (upgrade_machine E kc machine)
     (\<lambda>r es s'. r = Panic NilDereference \<and>
        (\<exists>x q. Updated (OMachine x) q \<in> set es \<and> m_Version x = Some (sp_Version (mcp_Spec (mcp s))))) s"
proof -
  have "\<exists>e. r = Inl e" if "Pods_Create E (kc_Clientset kc) ''default'' p w = (r, w')" for r p w w'
    using assms(3) [of p w] that by auto
  then show ?thesis
    unfolding upgrade_machine_def createUpgradePod_def
    by (intro wp wp_conseq [OF waitForNodeUpgrade_wp] wp_conseq [OF waitForPodDeletion_wp])
       (use assms(1,2) in fastforce)+
qed

text \<open>In the in-memory environment the round over a machine whose node is there succeeds.\<close>

lemma ref_upgrade_machine:
  assumes "m_NodeRef machine = Some ref"
    and "find_named n_Meta (ref_Name ref) (rw_nodes (world s)) = Inr node"
  shows "wp (upgrade_machine ref_env kc machine) (\<lambda>r es s'. r = Ret None) s"
  unfolding upgrade_machine_def createUpgradePod_def
  by (intro wp wp_conseq [OF waitForNodeUpgrade_wp] wp_conseq [OF waitForPodDeletion_wp])
     (use assms in \<open>auto simp: ref_env_def\<close>)

lemma ref_upgrade_machines:
  assumes "m_NodeRef machine = Some ref"
    and "find_named n_Meta (ref_Name ref) (rw_nodes (world s)) = Inr node"
  shows "result (upgrade_machines ref_env kc [machine]) s = Ret None"
  by (rule wpD, unfold upgrade_machines.simps)
     (intro wp wp_conseq [OF ref_upgrade_machine [OF assms]], simp_all)

subsection \<open>Properties\<close>

text \<open>
  C17: the upgrade loop is a sequence of rounds, one per machine in the order of the list, up to the first
  that does not come to its end. A round reads the node, creates the upgrade pod for it, waits for at most
  60 reads of the node, and writes the version of the object to the machine that the annotation of the
  node names. So every machine written carries that version; there are at most as many writes as
  machines in the list, and exactly as many when the loop runs to its end, though two nodes that name
  one machine have it written twice. No machine is created or deleted.
\<close>

theorem upgrade_writes_version:
  "upgrade_run E kc (sp_Version (mcp_Spec (mcp s))) (om_Namespace (cl_Meta (cluster s))) ms
     (result (upgrade_machines E kc ms) s) (events (upgrade_machines E kc ms) s) \<and>
   (\<forall>x q. Updated (OMachine x) q \<in> set (events (upgrade_machines E kc ms) s) \<longrightarrow>
      m_Version x = Some (sp_Version (mcp_Spec (mcp s)))) \<and>
   count_of updates_machine (events (upgrade_machines E kc ms) s) \<le> length ms \<and>
   (result (upgrade_machines E kc ms) s = Ret None \<longrightarrow>
      count_of updates_machine (events (upgrade_machines E kc ms) s) = length ms) \<and>
   count_of creates_machine (events (upgrade_machines E kc ms) s) = 0 \<and>
   count_of deletes_machine (events (upgrade_machines E kc ms) s) = 0"
proof -
  have run: "upgrade_run E kc (sp_Version (mcp_Spec (mcp s))) (om_Namespace (cl_Meta (cluster s))) ms
      (result (upgrade_machines E kc ms) s) (events (upgrade_machines E kc ms) s)"
    using wpD [OF upgrade_machines_run [of E kc ms s]] by blast
  note calls = upgrade_run_calls [OF run]
  from upgrading_quiet [OF calls [THEN conjunct1]] run calls show ?thesis by simp
qed

theorem upgrade_writes_version_witness:
  "count_of updates_machine (events (upgrade_machines ref_env \<lparr>kc_Clientset = 1, kc_dialer = 1\<rparr> one_machine)
     (state_of 1 ''v1.27.9'' [] one_machine)) = 1"
proof -
  have "result (upgrade_machines ref_env \<lparr>kc_Clientset = 1, kc_dialer = 1\<rparr> one_machine)
      (state_of 1 ''v1.27.9'' [] one_machine) = Ret None"
    using ref_upgrade_machines [of "ref_machine ''a'' 1 ''v1.27.1''" "ref_node_ref ''a''"
        "state_of 1 ''v1.27.9'' [] one_machine" "ref_node ''a'' ''v1.27.1''"] node_of_one_machine
    by (simp add: one_machine_eq ref_machine_def ref_node_ref_def)
  moreover have "length one_machine = 1" by (simp add: one_machine_eq)
  ultimately show ?thesis
    using upgrade_writes_version [of ref_env "\<lparr>kc_Clientset = 1, kc_dialer = 1\<rparr>"
        "state_of 1 ''v1.27.9'' [] one_machine" one_machine]
    by simp
qed

text \<open>
  C18: waiting for a node to report its new version ends: after at most 60 reads of the node and at
  most 600 seconds of sleep.
\<close>

theorem node_wait_bounded:
  "node_reads (events (waitForNodeUpgrade E kc nodeName v) s) \<le> 60 \<and>
   slept (events (waitForNodeUpgrade E kc nodeName v) s) \<le> 600 * Second \<and>
   waits (events (waitForNodeUpgrade E kc nodeName v) s)"
  using wpD [OF waitForNodeUpgrade_wp [of E kc nodeName v s]] by simp

text \<open>
  C19: a node that keeps answering with another version uses up all 60 attempts and ten minutes, and
  the wait then returns a nil error, as if the upgrade had succeeded.
\<close>

theorem exhausted_wait_reports_success:
  assumes "\<And>w. \<exists>node w'. Nodes_Get E (kc_Clientset kc) nodeName w = (Inr node, w') \<and>
      \<not> strings_HasPrefix (semver_MajorMinor E (n_KubeletVersion node)) (semver_MajorMinor E v)"
    and "\<And>u. semver_MajorMinor E (semver_MajorMinor E u) = semver_MajorMinor E u"
  shows "result (waitForNodeUpgrade E kc nodeName v) s = None \<and>
    node_reads (events (waitForNodeUpgrade E kc nodeName v) s) = 60 \<and>
    slept (events (waitForNodeUpgrade E kc nodeName v) s) = 600 * Second"
  using wpD [OF wait_attempts_exhausted [OF assms, of 60 s]] by (simp add: waitForNodeUpgrade_def)

lemma ref_MajorMinor_idem: "ref_MajorMinor (ref_MajorMinor v) = ref_MajorMinor v"
proof -
  let ?P = "\<lambda>c. c \<noteq> CHR ''.''"
  have stop: "takeWhile ?P (takeWhile ?P v @ CHR ''.'' # r) = takeWhile ?P v"
    "dropWhile ?P (takeWhile ?P v @ CHR ''.'' # r) = CHR ''.'' # r" for r
    by (induction v) auto
  have all: "takeWhile ?P (takeWhile ?P x) = takeWhile ?P x" "dropWhile ?P (takeWhile ?P x) = []" for x
    by (induction x) auto
  show ?thesis
  proof (cases "dropWhile ?P v")
    case Nil
    have "ref_MajorMinor v = takeWhile ?P v"
      unfolding ref_MajorMinor_def Nil by simp
    moreover have "takeWhile ?P v = v" using takeWhile_dropWhile_id [of ?P v] unfolding Nil by simp
    ultimately have "ref_MajorMinor v = v" by (rule trans)
    then show ?thesis by (rule arg_cong)
  next
    case (Cons d r)
    with hd_dropWhile [of ?P v] have d: "dropWhile ?P v = CHR ''.'' # r" by simp
    have "ref_MajorMinor v = takeWhile ?P v @ CHR ''.'' # takeWhile ?P r"
      unfolding ref_MajorMinor_def d by simp
    moreover have "ref_MajorMinor (takeWhile ?P v @ CHR ''.'' # takeWhile ?P r) =
        takeWhile ?P v @ CHR ''.'' # takeWhile ?P r"
      unfolding ref_MajorMinor_def stop by (simp add: all)
    ultimately show ?thesis by (rule subst [where P = "\<lambda>x. ref_MajorMinor x = x", OF sym])
  qed
qed

text \<open>The in-memory environment with a node that never leaves version 1.26.\<close>

definition stale_env :: "ref_world env" where
  "stale_env = ref_env\<lparr>Nodes_Get := (\<lambda>cs n w. (Inr (ref_node n ''v1.26.0''), w))\<rparr>"

theorem exhausted_wait_reports_success_witness:
  "result (waitForNodeUpgrade stale_env \<lparr>kc_Clientset = 1, kc_dialer = 1\<rparr> ''a'' ''v1.28.0'')
     (state_of 1 ''v1.28.0'' [] one_machine) = None \<and>
   node_reads (events (waitForNodeUpgrade stale_env \<lparr>kc_Clientset = 1, kc_dialer = 1\<rparr> ''a'' ''v1.28.0'')
     (state_of 1 ''v1.28.0'' [] one_machine)) = 60 \<and>
   slept (events (waitForNodeUpgrade stale_env \<lparr>kc_Clientset = 1, kc_dialer = 1\<rparr> ''a'' ''v1.28.0'')
     (state_of 1 ''v1.28.0'' [] one_machine)) = 600 * Second"
proof (rule exhausted_wait_reports_success)
  have "\<not> strings_HasPrefix (ref_MajorMinor ''v1.26.0'') (ref_MajorMinor ''v1.28.0'')" by code_simp
  then show "\<exists>node w'. Nodes_Get stale_env (kc_Clientset \<lparr>kc_Clientset = 1, kc_dialer = 1\<rparr>) ''a'' w = (Inr node, w') \<and>
      \<not> strings_HasPrefix (semver_MajorMinor stale_env (n_KubeletVersion node))
        (semver_MajorMinor stale_env ''v1.28.0'')" for w
    by (simp add: stale_env_def ref_env_def ref_node_def)
  show "semver_MajorMinor stale_env (semver_MajorMinor stale_env u) = semver_MajorMinor stale_env u" for u
    by (simp add: stale_env_def ref_env_def ref_MajorMinor_idem)
qed

text \<open>
  Waiting for the upgrade pod to go does not wait for it: whatever the answer, there is one
  deletion request followed by one sleep of ten seconds, and a pod that is already gone is no error.
\<close>

lemma pod_deletion_asked_once:
  "\<exists>e. events (waitForPodDeletion E kc podName) s = [PodDeleted podName e, Slept (10 * Second)] \<and>
     result (waitForPodDeletion E kc podName) s =
       (case e of None \<Rightarrow> None | Some x \<Rightarrow> if apierrors_IsNotFound E x then None else Some x)"
  using wpD [OF waitForPodDeletion_wp [of E kc podName s]] by blast

text \<open>
  C20: when the upgrade pod cannot be created the controller panics, and by then it has already
  recorded the new version on the machine although no upgrade was started.
\<close>

theorem failed_upgrade_pod_panics:
  assumes "m_NodeRef machine = Some ref"
    and "Nodes_Get E (kc_Clientset kc) (ref_Name ref) (world s) = (Inr node, w)"
    and "\<And>p w. \<exists>err w'. Pods_Create E (kc_Clientset kc) ''default'' p w = (Inl err, w')"
  shows "result (upgrade_machine E kc machine) s = Panic NilDereference \<and>
    (\<exists>x q. Updated (OMachine x) q \<in> set (events (upgrade_machine E kc machine) s) \<and>
       m_Version x = Some (sp_Version (mcp_Spec (mcp s))))"
  by (rule wpD [OF upgrade_machine_no_pod [OF assms]])

text \<open>The in-memory environment without permission to create pods.\<close>

definition podless_env :: "ref_world env" where
  "podless_env = ref_env\<lparr>Pods_Create := (\<lambda>cs ns p w. (Inl (Foreign ''Forbidden'' ns), w))\<rparr>"

theorem failed_upgrade_pod_panics_witness:
  "result (upgrade_machine podless_env \<lparr>kc_Clientset = 1, kc_dialer = 1\<rparr> (hd one_machine))
     (state_of 1 ''v1.27.9'' [] one_machine) = Panic NilDereference \<and>
   (\<exists>x q. Updated (OMachine x) q \<in> set (events
        (upgrade_machine podless_env \<lparr>kc_Clientset = 1, kc_dialer = 1\<rparr> (hd one_machine))
        (state_of 1 ''v1.27.9'' [] one_machine)) \<and>
      m_Version x = Some (sp_Version (mcp_Spec (mcp (state_of 1 ''v1.27.9'' [] one_machine)))))"
proof (rule failed_upgrade_pod_panics)
  show "m_NodeRef (hd one_machine) = Some (ref_node_ref ''a'')"
    by (simp add: one_machine_eq ref_machine_def)
  show "Nodes_Get podless_env (kc_Clientset \<lparr>kc_Clientset = 1, kc_dialer = 1\<rparr>) (ref_Name (ref_node_ref ''a''))
      (world (state_of 1 ''v1.27.9'' [] one_machine)) =
    (Inr (ref_node ''a'' ''v1.27.1''), world (state_of 1 ''v1.27.9'' [] one_machine))"
    using node_of_one_machine by (simp add: podless_env_def ref_env_def ref_node_ref_def)
  show "\<exists>err w'. Pods_Create podless_env (kc_Clientset \<lparr>kc_Clientset = 1, kc_dialer = 1\<rparr>) ''default'' p w =
      (Inl err, w')" for p w
    by (simp add: podless_env_def)
qed

end
