(* ===== verification/Object_Properties.thy ===== *)
theory Object_Properties
  imports Reference
begin

text \<open>
  The properties of the parts that look after the control plane object itself: the status, the
  deletion, the initial conditions, and the access to the workload cluster.
\<close>

subsection \<open>Status\<close>

text \<open>The list of machines an update of the status works on, and the selector it stores.\<close>

definition machine_listing :: "'w env \<Rightarrow> 'w st \<Rightarrow> error + Machine list" where
  "machine_listing E s = fst (Client_List_machines E (om_Namespace (cl_Meta (cluster s)))
     (control_plane_labels E (om_Name (cl_Meta (cluster s)))) (world s))"

definition status_selector :: "'w env \<Rightarrow> 'w st \<Rightarrow> error + string" where
  "status_selector E s = label_selector_String E (control_plane_labels E (om_Name (cl_Meta (cluster s))))"

lemma updateStatus_update:
  assumes "status_selector E s = Inr selector"
  shows "status_update E selector (machine_listing E s) s (result (updateStatus E) s)
     (events (updateStatus E) s) (final (updateStatus E) s)"
proof -
  obtain w where "Client_List_machines E (om_Namespace (cl_Meta (cluster s)))
      (control_plane_labels E (om_Name (cl_Meta (cluster s)))) (world s) = (machine_listing E s, w)"
    unfolding machine_listing_def by (metis prod.collapse)
  from wpD [OF updateStatus_wp [OF assms [unfolded status_selector_def] this]] show ?thesis by blast
qed


lemma ref_machine_listing: "machine_listing ref_env s = Inr (rw_machines (world s))"
  by (simp add: machine_listing_def ref_env_def)

text \<open>The in-memory environment with a workload cluster of at most two nodes.\<close>

definition small_env :: "ref_world env" where
  "small_env = ref_env\<lparr>Nodes_List := (\<lambda>cs sel w. (Inr (take 2 (rw_nodes w)), w))\<rparr>"



text \<open>
  C22: the counters of the status are consistent: below the range of the 32 bit fields the replicas are
  the machines listed, the unavailable ones are the replicas less the ready ones (which may be
  negative), a ready control plane is initialised, and being initialised is never taken back.
\<close>

theorem status_counters_consistent:
  assumes "status_selector E s = Inr selector" and "machine_listing E s = Inr ms"
    and "length ms < 2 ^ 31"
    and "\<And>cs sel w nodes w'. Nodes_List E cs sel w = (Inr nodes, w') \<Longrightarrow> length nodes < 2 ^ 31"
  defines "st \<equiv> mcp_Status (mcp s)" and "st' \<equiv> mcp_Status (mcp (final (updateStatus E) s))"
  shows "sint (st_Replicas st') = int (length ms) \<and> 0 \<le> sint (st_ReadyReplicas st') \<and>
    sint (st_UnavailableReplicas st') = sint (st_Replicas st') - sint (st_ReadyReplicas st') \<and>
    (st_Ready st' \<longrightarrow> st_Initialized st') \<and> (st_Initialized st \<longrightarrow> st_Initialized st')"
proof -
  have "\<exists>view. st' = computed_status E selector ms view st \<and>
      (\<forall>nodes. view = Some nodes \<longrightarrow> (\<exists>cs sel w w'. Nodes_List E cs sel w = (Inr nodes, w')))"
    using updateStatus_update [OF assms(1)] assms(2)
    by (auto simp: status_update_def st_def st'_def dest: view_run_seen split: if_splits)
  then obtain view where st': "st' = computed_status E selector ms view st"
    and seen: "\<And>nodes. view = Some nodes \<Longrightarrow> \<exists>cs sel w w'. Nodes_List E cs sel w = (Inr nodes, w')" by blast
  show ?thesis
  proof (cases view)
    case None
    have "sint (of_nat (length ms) :: int32) = int (length ms)"
      using computed_status_counts(1) [OF assms(3), of "[]"] by (simp add: computed_status_def Let_def)
    with None st' show ?thesis by (simp add: computed_status_def Let_def)
  next
    case (Some nodes)
    then have "length nodes < 2 ^ 31" using seen assms(4) by blast
    from computed_status_counts [OF assms(3) this, of E selector st] show ?thesis
      unfolding st' Some by (simp add: computed_status_def Let_def)
  qed
qed

theorem status_counters_consistent_witness:
  "sint (st_Replicas (mcp_Status (mcp (final (updateStatus small_env) (state_of 3 ''v1.27.1'' [] three_machines))))) = 3"
proof -
  obtain sel where sel: "status_selector small_env (state_of 3 ''v1.27.1'' [] three_machines) = Inr sel"
    by (auto simp: status_selector_def small_env_def ref_env_def)
  have l: "machine_listing small_env (state_of 3 ''v1.27.1'' [] three_machines) = Inr three_machines"
    by (simp add: machine_listing_def small_env_def ref_env_def)
  have n: "length three_machines = 3" by (simp add: three_machines_def ref_machines_def)
  show ?thesis
    using status_counters_consistent [OF sel l] by (simp add: n small_env_def split: if_splits)
qed

text \<open>
  C23: setting provider IDs only touches ready nodes that have none. Such a node gets the provider ID of
  its machine: going through the addresses of the node in order, at the first address that any
  machine of the list has, it is the first machine of the list that has it.
\<close>

theorem provider_id_updates_matched:
  assumes "WorkloadUpdated x q \<in> set (events (provider_nodes E kc ms nodes) s)"
  shows "\<exists>node pre a post ms1 m ms2 pid. node \<in> set nodes \<and> util_IsNodeReady E node \<and> n_ProviderID node = [] \<and>
    n_Addresses node = pre @ a # post \<and> ms = ms1 @ m # ms2 \<and>
    (\<forall>b \<in> set pre. \<forall>m' \<in> set ms. snd b \<notin> snd ` set (m_Addresses m')) \<and>
    snd a \<in> snd ` set (m_Addresses m) \<and> (\<forall>m' \<in> set ms1. snd a \<notin> snd ` set (m_Addresses m')) \<and>
    m_ProviderID m = Some pid \<and> x = ONode (node\<lparr>n_ProviderID := pid\<rparr>)"
proof -
  have "provider_run E ms nodes (result (provider_nodes E kc ms nodes) s) (events (provider_nodes E kc ms nodes) s)"
    using wpD [OF provider_nodes_wp [of E kc ms nodes s]] by blast
  from provider_run_updates [OF this] assms have "provider_update E ms nodes (WorkloadUpdated x q)" by blast
  then obtain node m pid where node: "node \<in> set nodes" "util_IsNodeReady E node" "n_ProviderID node = []"
    and m: "machine_of_addresses ms (n_Addresses node) = Some m"
    and x: "m_ProviderID m = Some pid" "x = ONode (node\<lparr>n_ProviderID := pid\<rparr>)"
    unfolding provider_update_def lacks_provider_def by auto
  from machine_of_addresses_first [OF m] node x show ?thesis by blast
qed

theorem provider_id_updates_matched_witness:
  "\<exists>node pre a post ms1 m ms2 pid. node \<in> set (ref_nodes [''a''] ''v1.27.1'') \<and>
    util_IsNodeReady ref_env node \<and> n_ProviderID node = [] \<and>
    n_Addresses node = pre @ a # post \<and> one_machine = ms1 @ m # ms2 \<and>
    (\<forall>b \<in> set pre. \<forall>m' \<in> set one_machine. snd b \<notin> snd ` set (m_Addresses m')) \<and>
    snd a \<in> snd ` set (m_Addresses m) \<and> (\<forall>m' \<in> set ms1. snd a \<notin> snd ` set (m_Addresses m')) \<and>
    m_ProviderID m = Some pid \<and> ONode ((ref_node ''a'' ''v1.27.1'')\<lparr>n_ProviderID := ''aws:a''\<rparr>) =
      ONode (node\<lparr>n_ProviderID := pid\<rparr>)"
  by (rule provider_id_updates_matched [where q = None and kc = "\<lparr>kc_Clientset = 1, kc_dialer = 1\<rparr>"
        and s = "state_of 3 ''v1.27.1'' [] one_machine"])
     (simp add: events_def final_def ref_nodes_def provider_addresses_run one_machine_eq ref_node_def
       ref_machine_def ref_env_def)

text \<open>
  C24: a ready node without a provider ID whose machine has none either makes the status update panic
  when the update reaches it. The nodes before it have been dealt with by then, their updates are not
  taken back; nothing is done for it and the nodes after it, and the object keeps the status it had
  before the nodes were looked at.
\<close>

theorem missing_provider_id_panics:
  assumes "Nodes_List E (kc_Clientset kc) [] (world s) = (Inr (pre @ node # post), w)"
    and "Client_List_machines E (key_Namespace k) [(clusterv1_ClusterLabelName E, key_Name k)] w = (Inr ms, w')"
    and "result (provider_nodes E kc ms pre) (advance s [WorkloadRead ''List Nodes'', Read ''List Machines''] w') =
      Ret None"
    and "util_IsNodeReady E node" and "n_ProviderID node = []"
    and "machine_of_addresses ms (n_Addresses node) = Some m" and "m_ProviderID m = None"
  shows "result (observe_nodes E k replicas kc) s = Panic NilDereference \<and>
    events (observe_nodes E k replicas kc) s = [WorkloadRead ''List Nodes'', Read ''List Machines''] @
      events (provider_nodes E kc ms pre) (advance s [WorkloadRead ''List Nodes'', Read ''List Machines''] w') \<and>
    mcp (final (observe_nodes E k replicas kc) s) = mcp s"
proof -
  let ?t = "advance s [WorkloadRead ''List Nodes'', Read ''List Machines''] w'"
  have pre: "run_state (provider_nodes E kc ms pre) ?t = (Ret None, final (provider_nodes E kc ms pre) ?t)"
    using assms(3) by (simp add: result_def final_def prod_eq_iff)
  have "run_state (provider_nodes E kc ms (pre @ node # post)) ?t =
      (Panic NilDereference, final (provider_nodes E kc ms pre) ?t)"
    using assms(4-7) by (simp add: provider_nodes_append pre provider_addresses_run)
  then have run: "run_state (observe_nodes E k replicas kc) s =
      (Panic NilDereference, final (provider_nodes E kc ms pre) ?t)"
    using assms(1,2) by (simp add: observe_nodes_def updateProviderID_def advance_def)
  have "trace (final (provider_nodes E kc ms pre) ?t) = trace ?t @ events (provider_nodes E kc ms pre) ?t"
    and "mcp (final (provider_nodes E kc ms pre) ?t) = mcp ?t"
    using provider_nodes_wp [of E kc ms pre ?t] unfolding wp_events by blast+
  moreover have "final (observe_nodes E k replicas kc) s = final (provider_nodes E kc ms pre) ?t"
    and "result (observe_nodes E k replicas kc) s = Panic NilDereference"
    using run by (simp_all add: result_def final_def)
  ultimately show ?thesis by (simp add: events_def [of "observe_nodes E k replicas kc" s])
qed

text \<open>Two nodes whose machines are listed, the second one without a provider ID.\<close>

definition unidentified_state :: "ref_world st" where
  "unidentified_state = ref_state (ref_control_plane 3 ''v1.27.1'' [])
     [ref_machine ''a'' 1 ''v1.27.1'', (ref_machine ''b'' 2 ''v1.27.1'')\<lparr>m_ProviderID := None\<rparr>]
     (ref_nodes [''a'', ''b''] ''v1.27.1'')"

theorem missing_provider_id_panics_witness:
  "result (observe_nodes ref_env (ObjectKey_of (cl_Meta ref_cluster)) 2 \<lparr>kc_Clientset = 1, kc_dialer = 1\<rparr>)
     unidentified_state = Panic NilDereference \<and>
   events (observe_nodes ref_env (ObjectKey_of (cl_Meta ref_cluster)) 2 \<lparr>kc_Clientset = 1, kc_dialer = 1\<rparr>)
     unidentified_state =
     [WorkloadRead ''List Nodes'', Read ''List Machines'',
      WorkloadUpdated (ONode ((ref_node ''a'' ''v1.27.1'')\<lparr>n_ProviderID := ''aws:a''\<rparr>)) None]"
proof -
  let ?ms = "[ref_machine ''a'' 1 ''v1.27.1'', (ref_machine ''b'' 2 ''v1.27.1'')\<lparr>m_ProviderID := None\<rparr>]"
  let ?t = "advance unidentified_state [WorkloadRead ''List Nodes'', Read ''List Machines''] (world unidentified_state)"
  have run: "result (provider_nodes ref_env \<lparr>kc_Clientset = 1, kc_dialer = 1\<rparr> ?ms [ref_node ''a'' ''v1.27.1'']) ?t = Ret None"
    "events (provider_nodes ref_env \<lparr>kc_Clientset = 1, kc_dialer = 1\<rparr> ?ms [ref_node ''a'' ''v1.27.1'']) ?t =
      [WorkloadUpdated (ONode ((ref_node ''a'' ''v1.27.1'')\<lparr>n_ProviderID := ''aws:a''\<rparr>)) None]"
    by (simp_all add: result_def events_def final_def provider_addresses_run ref_node_def ref_machine_def ref_env_def)
  have nodes: "Nodes_List ref_env (kc_Clientset \<lparr>kc_Clientset = 1, kc_dialer = 1\<rparr>) [] (world unidentified_state) =
      (Inr ([ref_node ''a'' ''v1.27.1''] @ ref_node ''b'' ''v1.27.1'' # []), world unidentified_state)"
    by (simp add: ref_env_def unidentified_state_def ref_state_def ref_nodes_def)
  have machines: "Client_List_machines ref_env ns sel (world unidentified_state) =
      (Inr ?ms, world unidentified_state)" for ns sel
    by (simp add: ref_env_def unidentified_state_def ref_state_def)
  have second: "util_IsNodeReady ref_env (ref_node ''b'' ''v1.27.1'')" "n_ProviderID (ref_node ''b'' ''v1.27.1'') = []"
    "machine_of_addresses ?ms (n_Addresses (ref_node ''b'' ''v1.27.1'')) = Some (?ms ! 1)"
    "m_ProviderID (?ms ! 1) = None"
    by (simp_all add: ref_env_def ref_node_def ref_machine_def)
  show ?thesis
    using missing_provider_id_panics [OF nodes machines run(1) second, of "ObjectKey_of (cl_Meta ref_cluster)" 2] run(2) by simp
qed

subsection \<open>Deletion\<close>

lemma reconcileDelete_pass:
  "delete_pass E (machine_listing E s) s (result (reconcileDelete E) s) (events (reconcileDelete E) s)
     (final (reconcileDelete E) s)"
proof -
  obtain w where "Client_List_machines E (om_Namespace (cl_Meta (cluster s)))
      (control_plane_labels E (om_Name (cl_Meta (cluster s)))) (world s) = (machine_listing E s, w)"
    unfolding machine_listing_def by (metis prod.collapse)
  from wpD [OF reconcileDelete_wp [OF this]] show ?thesis by blast
qed

text \<open>The state of a control plane object that is being deleted.\<close>

definition deleted_state :: "Machine list \<Rightarrow> ref_world st" where
  "deleted_state ms = mcp_update (\<lambda>m. m\<lparr>mcp_Meta := (mcp_Meta m)\<lparr>om_DeletionTimestamp := Some 50\<rparr>\<rparr>)
     (state_of 3 ''v1.27.1'' [] ms)"

text \<open>
  C25: a deletion pass does what its specification says for the answer to the list call: report the
  error; take the finalizer off and update the object when no machine is left; or ask for
  the deletion of the machines not yet being deleted, in order and up to the first error other than
  not-found, and only then of the three secrets, with a requeue after 30 seconds.
\<close>

theorem deletion_refines_pass:
  "delete_pass E (machine_listing E s) s (result (reconcileDelete E) s) (events (reconcileDelete E) s)
     (final (reconcileDelete E) s)"
  by (rule reconcileDelete_pass)

lemma requests_only_machines:
  "requests_made E ms r es \<Longrightarrow> Updated x q \<notin> set es"
  by (auto simp: requests_made_def delete_requests_def split: option.splits)

lemma secrets_only: "Updated x q \<notin> set (secret_requests c qs)"
  by (auto simp: secret_requests_def)

text \<open>
  C26: a deletion pass that lists the machines takes the finalizer off the object if and only if none is
  left, so the object outlives its machines: then, and only then, the object is updated, to the
  object as it is with exactly its finalizer taken off.
\<close>

theorem finalizer_removed_iff_no_machines:
  assumes "machine_listing E s = Inr ms"
    and "\<And>m f. f \<notin> set (om_Finalizers (controllerutil_RemoveFinalizer E m f))"
  shows "((\<exists>x q. Updated (OMCP x) q \<in> set (events (reconcileDelete E) s) \<and>
        MicroK8sControlPlaneFinalizer \<notin> set (om_Finalizers (mcp_Meta x))) \<longleftrightarrow> ms = []) \<and>
    (\<forall>x q. Updated (OMCP x) q \<in> set (events (reconcileDelete E) s) \<longrightarrow> ms = [] \<and>
       x = (mcp s)\<lparr>mcp_Meta :=
         controllerutil_RemoveFinalizer E (mcp_Meta (mcp s)) MicroK8sControlPlaneFinalizer\<rparr>)"
proof (cases ms)
  case Nil
  with reconcileDelete_pass [of E s] assms(1) have "events (reconcileDelete E) s =
      [Read ''List Machines'', Updated (OMCP ((mcp s)\<lparr>mcp_Meta :=
         controllerutil_RemoveFinalizer E (mcp_Meta (mcp s)) MicroK8sControlPlaneFinalizer\<rparr>))
       (snd (result (reconcileDelete E) s))]"
    by (simp add: delete_pass_def Let_def)
  with Nil assms(2) show ?thesis by simp
next
  case (Cons m rest)
  with reconcileDelete_pass [of E s] assms(1)
  have "Updated (OMCP x) q \<notin> set (events (reconcileDelete E) s)" for x q
    by (auto simp: delete_pass_def requests_only_machines secrets_only)
  with Cons show ?thesis by blast
qed

theorem finalizer_removed_iff_no_machines_witness:
  "(\<exists>x q. Updated (OMCP x) q \<in> set (events (reconcileDelete ref_env) (deleted_state [])) \<and>
      MicroK8sControlPlaneFinalizer \<notin> set (om_Finalizers (mcp_Meta x))) \<and>
   \<not> (\<exists>x q. Updated (OMCP x) q \<in> set (events (reconcileDelete ref_env) (deleted_state one_machine)))"
proof -
  have contract: "f \<notin> set (om_Finalizers (controllerutil_RemoveFinalizer ref_env m f))" for m f
    by (simp add: ref_env_def)
  have listing: "machine_listing ref_env (deleted_state ms) = Inr ms" for ms
    by (simp add: ref_machine_listing deleted_state_def)
  show ?thesis
    using finalizer_removed_iff_no_machines [OF listing contract, of "[]"]
      finalizer_removed_iff_no_machines [OF listing contract, of one_machine]
    by (simp add: one_machine_eq)
qed

text \<open>
  C27: a deletion pass that comes back with its requeue has asked for the deletion of every machine not
  yet being deleted, and each request was accepted or answered with not-found.
\<close>

lemma requests_made_all:
  assumes "requests_made E ms None es" and "m \<in> set (live ms)"
  shows "\<exists>q. Deleted (OMachine m) q \<in> set es \<and> tolerated E q"
proof -
  obtain qs where qs: "\<forall>q \<in> set qs. tolerated E q" "length qs = length (live ms)"
    and es: "es = delete_requests (live ms) qs"
    using assms(1) by (auto simp: requests_made_def)
  obtain i where i: "i < length (live ms)" "m = live ms ! i" using assms(2) by (metis in_set_conv_nth)
  then have "es ! i = Deleted (OMachine m) (qs ! i)" and "i < length es"
    using qs(2) by (simp_all add: es delete_requests_def)
  then have "Deleted (OMachine m) (qs ! i) \<in> set es" by (metis nth_mem)
  moreover have "tolerated E (qs ! i)" using qs i by simp
  ultimately show ?thesis by blast
qed

theorem deletion_reaches_every_machine:
  assumes "machine_listing E s = Inr ms" and "ms \<noteq> []" and "snd (result (reconcileDelete E) s) = None"
    and "m \<in> set ms" and "IsZero (om_DeletionTimestamp (m_Meta m))"
  shows "\<exists>q. Deleted (OMachine m) q \<in> set (events (reconcileDelete E) s) \<and> tolerated E q"
proof -
  from reconcileDelete_pass [of E s] assms(1-3) obtain ds qs where "requests_made E ms None ds"
    and "events (reconcileDelete E) s = Read ''List Machines'' # ds @ secret_requests (cluster s) qs"
    by (cases ms) (auto simp: delete_pass_def)
  moreover have "m \<in> set (live ms)" using assms(4,5) by (simp add: live_def)
  ultimately show ?thesis using requests_made_all by fastforce
qed

theorem deletion_reaches_every_machine_witness:
  "\<exists>q. Deleted (OMachine (hd one_machine)) q \<in> set (events (reconcileDelete ref_env) (deleted_state one_machine)) \<and>
     tolerated ref_env q"
proof (rule deletion_reaches_every_machine)
  show "machine_listing ref_env (deleted_state one_machine) = Inr one_machine"
    by (simp add: ref_machine_listing deleted_state_def)
  show "snd (result (reconcileDelete ref_env) (deleted_state one_machine)) = None" by code_simp
qed (simp_all add: one_machine_eq ref_machine_def empty_meta_def IsZero_def)

subsection \<open>Access to the workload cluster\<close>

text \<open>
  C28: the kubeconfig secret that \<open>kubeconfigForCluster\<close> creates is named after the cluster and labelled with
  it, and holds the kubeconfig of an administrator: with an endpoint host that has no placeholder
  bracket, the template with the four values exactly in their places. The host is the endpoint's; the
  authority is the certificate of the cluster's secret; the client certificate is one issued with the
  certificate and the key of that secret, for a fresh key pair, to an administrator for ten years; and
  the client key is the private key of that pair.
\<close>

theorem stored_kubeconfig_correct:
  assumes "Created (OSecret x) q \<in> set (events (kubeconfigForCluster E k) s)"
    and "\<And>w c w'. Client_Get_cluster E k w = (Inr c, w') \<Longrightarrow>
      CHR ''<'' \<notin> set (ep_Host (cl_ControlPlaneEndpoint c))"
  shows "om_Name (sec_Meta x) = key_Name k @ ''-kubeconfig'' \<and> om_Namespace (sec_Meta x) = key_Namespace k \<and>
    om_Labels (sec_Meta x) = [(clusterv1_ClusterLabelName E, key_Name k)] \<and>
    (\<exists>c w w' ca u u' cert key.
       Client_Get_cluster E k w = (Inr c, w') \<and> endpoint_IsValid E (cl_ControlPlaneEndpoint c) \<and>
       Client_Get_secret E \<lparr>key_Namespace = key_Namespace k, key_Name = key_Name k @ ''-ca''\<rparr> u = (Inr ca, u') \<and>
       issued_with E ca cert key \<and>
       secret_data x ''value'' = kubeconfig_text (ep_Host (cl_ControlPlaneEndpoint c))
         (base64_EncodeToString (secret_data ca ''crt'')) (base64_EncodeToString cert)
         (base64_EncodeToString key))"
proof -
  have "stores_kubeconfig E k x"
    using wpD [OF kubeconfigForCluster_secret [of E k s]] assms(1) by blast
  then obtain c w w' ca u u' cert key where c: "Client_Get_cluster E k w = (Inr c, w')"
    and answers: "endpoint_IsValid E (cl_ControlPlaneEndpoint c)"
      "Client_Get_secret E \<lparr>key_Namespace = key_Namespace k, key_Name = key_Name k @ ''-ca''\<rparr> u = (Inr ca, u')"
      "issued_with E ca cert key"
    and x: "x = kubeconfig_secret E k (fill_template (ep_Host (cl_ControlPlaneEndpoint c))
      (base64_EncodeToString (secret_data ca ''crt'')) (base64_EncodeToString cert) (base64_EncodeToString key))"
    unfolding stores_kubeconfig_def admin_kubeconfig_def by blast
  have "secret_data x ''value'' = kubeconfig_text (ep_Host (cl_ControlPlaneEndpoint c))
      (base64_EncodeToString (secret_data ca ''crt'')) (base64_EncodeToString cert) (base64_EncodeToString key)"
    using fill_template_text [OF assms(2) [OF c] base64_no_bracket base64_no_bracket]
    by (simp add: x kubeconfig_secret_def secret_data_def map_get_def)
  moreover have "om_Name (sec_Meta x) = key_Name k @ ''-kubeconfig''" "om_Namespace (sec_Meta x) = key_Namespace k"
    "om_Labels (sec_Meta x) = [(clusterv1_ClusterLabelName E, key_Name k)]"
    by (simp_all add: x kubeconfig_secret_def kubeconfig_name_def)
  ultimately show ?thesis using c answers by blast
qed

text \<open>A state in which the cluster's certificate authority is there and its kubeconfig is not.\<close>

definition fresh_state :: "ref_world st" where
  "fresh_state = (state_of 1 ''v1.27.1'' [] [])
     \<lparr>world := (world (state_of 1 ''v1.27.1'' [] []))\<lparr>rw_secrets := tl ref_secrets\<rparr>\<rparr>"

text \<open>The in-memory environment with one fixed cluster.\<close>

definition one_cluster_env :: "ref_world env" where
  "one_cluster_env = ref_env\<lparr>Client_Get_cluster := (\<lambda>k w. (Inr ref_cluster, w))\<rparr>"

lemma kubeconfig_created:
  "\<exists>x q. Created (OSecret x) q \<in> set (events (kubeconfigForCluster one_cluster_env
     \<lparr>key_Namespace = ''default'', key_Name = ''demo''\<rparr>) fresh_state)"
proof -
  have "wp (kubeconfigForCluster one_cluster_env \<lparr>key_Namespace = ''default'', key_Name = ''demo''\<rparr>)
      (\<lambda>r es s'. \<exists>x q. Created (OSecret x) q \<in> set es) fresh_state"
    unfolding kubeconfigForCluster_def genarateKubeconfig_def
    by (intro wp wp_conseq [OF client_from_secret_wp])
       (auto simp: one_cluster_env_def ref_env_def fresh_state_def ref_secrets_def kubeconfig_name_def
         find_named_def named_def secret_data_def map_get_def state_of_def ref_state_def ref_cluster_def)
  from wpD [OF this] show ?thesis .
qed

theorem stored_kubeconfig_correct_witness:
  "\<exists>x q. Created (OSecret x) q \<in> set (events (kubeconfigForCluster one_cluster_env
       \<lparr>key_Namespace = ''default'', key_Name = ''demo''\<rparr>) fresh_state) \<and>
     om_Name (sec_Meta x) = ''demo-kubeconfig'' \<and>
     (\<exists>ca cert key. issued_with one_cluster_env ca cert key \<and>
        secret_data x ''value'' = kubeconfig_text ''10.0.0.1'' (base64_EncodeToString (secret_data ca ''crt''))
          (base64_EncodeToString cert) (base64_EncodeToString key))"
proof -
  obtain x q where x: "Created (OSecret x) q \<in> set (events (kubeconfigForCluster one_cluster_env
      \<lparr>key_Namespace = ''default'', key_Name = ''demo''\<rparr>) fresh_state)"
    using kubeconfig_created by blast
  have host: "CHR ''<'' \<notin> set (ep_Host (cl_ControlPlaneEndpoint c))"
    if "Client_Get_cluster one_cluster_env k w = (Inr c, w')" for k w c w'
    using that by (auto simp: one_cluster_env_def ref_cluster_def)
  have cluster: "c = ref_cluster" if "Client_Get_cluster one_cluster_env k w = (Inr c, w')" for k w c w'
    using that by (simp add: one_cluster_env_def)
  have "ep_Host (cl_ControlPlaneEndpoint ref_cluster) = ''10.0.0.1''" by (simp add: ref_cluster_def)
  with x stored_kubeconfig_correct [OF x host] cluster show ?thesis by fastforce
qed

text \<open>
  C29: what a reader takes out of a generated kubeconfig is what went in: the server is the endpoint's
  host, and decoding the certificate authority gives the bytes of the cluster's secret back.
\<close>

theorem kubeconfig_roundtrip:
  assumes "Client_Get_secret E \<lparr>key_Namespace = key_Namespace k, key_Name = key_Name k @ ''-ca''\<rparr> (world s) =
      (Inr sec, w)"
    and "result (genarateKubeconfig E k host) s = Inr config"
    and "CHR ''<'' \<notin> set host" and "CHR 0x0A \<notin> set host"
  shows "config_value ''    server: '' config = ''https://'' @ host @ '':6443'' \<and>
    base64_decode (config_value ''    certificate-authority-data: '' config) = secret_data sec ''crt''"
proof -
  obtain cert key where "config = fill_template host (base64_EncodeToString (secret_data sec ''crt''))
      (base64_EncodeToString cert) (base64_EncodeToString key)"
    using wpD [OF genarateKubeconfig_ca [OF assms(1), of host]] assms(2) by blast
  then have "config = kubeconfig_text host (base64_EncodeToString (secret_data sec ''crt''))
      (base64_EncodeToString cert) (base64_EncodeToString key)"
    using fill_template_text [OF assms(3) base64_no_bracket base64_no_bracket] by simp
  then show ?thesis
    using kubeconfig_values(1,2) [OF assms(4) base64_no_newline base64_no_newline base64_no_newline]
    by (simp add: base64_decode_encode)
qed

lemma ref_kubeconfig_generated:
  "\<exists>config. result (genarateKubeconfig ref_env \<lparr>key_Namespace = ''default'', key_Name = ''demo''\<rparr> ''10.0.0.1'')
     fresh_state = Inr config"
proof -
  have "wp (genarateKubeconfig ref_env \<lparr>key_Namespace = ''default'', key_Name = ''demo''\<rparr> ''10.0.0.1'')
      (\<lambda>r es s'. \<exists>config. r = Inr config) fresh_state"
    unfolding genarateKubeconfig_def
    by (intro wp)
       (auto simp: ref_env_def fresh_state_def ref_secrets_def find_named_def named_def secret_data_def
         map_get_def state_of_def ref_state_def)
  from wpD [OF this] show ?thesis .
qed

theorem kubeconfig_roundtrip_witness:
  "\<exists>config. result (genarateKubeconfig ref_env \<lparr>key_Namespace = ''default'', key_Name = ''demo''\<rparr> ''10.0.0.1'')
       fresh_state = Inr config \<and>
     config_value ''    server: '' config = ''https://10.0.0.1:6443'' \<and>
     base64_decode (config_value ''    certificate-authority-data: '' config) = ''C''"
proof -
  obtain config where config: "result (genarateKubeconfig ref_env
      \<lparr>key_Namespace = ''default'', key_Name = ''demo''\<rparr> ''10.0.0.1'') fresh_state = Inr config"
    using ref_kubeconfig_generated by blast
  have get: "Client_Get_secret ref_env \<lparr>key_Namespace = key_Namespace \<lparr>key_Namespace = ''default'', key_Name = ''demo''\<rparr>,
      key_Name = key_Name \<lparr>key_Namespace = ''default'', key_Name = ''demo''\<rparr> @ ''-ca''\<rparr> (world fresh_state) =
    (Inr (ref_secrets ! 1), world fresh_state)"
    by (simp add: ref_env_def fresh_state_def ref_secrets_def find_named_def named_def)
  have "secret_data (ref_secrets ! 1) ''crt'' = ''C''"
    by (simp add: ref_secrets_def secret_data_def map_get_def)
  with kubeconfig_roundtrip [OF get config] config show ?thesis by auto
qed

text \<open>
  C30: a secret of the kubeconfig's name in any namespace keeps the kubeconfig from being created, since
  the search ignores the namespace.
\<close>

theorem foreign_secret_blocks_kubeconfig:
  assumes "Client_List_secrets E (world s) = (Inr items, w)" and "y \<in> set items"
    and "om_Name (sec_Meta y) = key_Name k @ ''-kubeconfig''"
  shows "Created x q \<notin> set (events (kubeconfigForCluster E k) s)"
  using wpD [OF kubeconfigForCluster_found [OF assms(1,2)]] assms(3) by (simp add: kubeconfig_name_def)

theorem foreign_secret_blocks_kubeconfig_witness:
  "\<forall>x q. Created x q \<notin> set (events (kubeconfigForCluster ref_env \<lparr>key_Namespace = ''other'', key_Name = ''demo''\<rparr>)
     (state_of 1 ''v1.27.1'' [] []))"
  by (intro allI, rule foreign_secret_blocks_kubeconfig [where y = "hd ref_secrets" and items = ref_secrets])
     (simp_all add: ref_env_def state_of_def ref_state_def ref_secrets_def)

end
