(* ===== verification/Deep_Copy.thy ===== *)
theory Deep_Copy
  imports API_Types
begin

text \<open>
  \<open>zz_generated.deepcopy.go\<close>: the deep copies of the API types, over an explicit store. The other
  theories pass these objects by value; this one shows that they may. A struct is a record of the
  words it consists of, in which a pointer or a slice is an address; assigning a struct copies these
  words and shares what they point to. Structs of other packages are opaque: their own
  words, the addresses among them, and deep copies that are parameters with their documented contract.
\<close>

subsection \<open>The store\<close>

type_synonym addr = nat

record foreign =
  f_words :: string
  f_refs :: "addr list"

record MachineTemplate =
  mt_InfrastructureTemplate :: ObjectReference

record spec_struct =
  ss_Replicas :: "addr option"
  ss_Version :: string
  ss_MachineTemplate :: MachineTemplate
  ss_UpgradeStrategy :: UpgradeStrategyType
  ss_ControlPlaneConfig :: foreign

record status_struct =
  sts_Selector :: string
  sts_Replicas :: int32
  sts_ReadyReplicas :: int32
  sts_UnavailableReplicas :: int32
  sts_Initialized :: bool
  sts_Ready :: bool
  sts_Bootstrapped :: bool
  sts_ObservedGeneration :: "64 word"
  sts_Conditions :: "addr option"

record mcp_struct =
  ms_TypeMeta :: "string \<times> string"
  ms_ObjectMeta :: foreign
  ms_Spec :: spec_struct
  ms_Status :: status_struct

record list_struct =
  ls_TypeMeta :: "string \<times> string"
  ls_ListMeta :: foreign
  ls_Items :: "addr option"

text \<open>
  What an address can hold: an integer, the array behind a slice of conditions or of control planes,
  or something of another package. A slice is the address of the array it covers.
\<close>

datatype cell =
    Int32 int32
  | Condition_array "foreign list"
  | Item_array "mcp_struct list"
  | Foreign_cell foreign

record store =
  cells :: "addr \<Rightarrow> cell option"
  next_free :: addr

definition alloc :: "cell \<Rightarrow> (store, addr) state" where
  "alloc c = State (\<lambda>h. (next_free h,
     h\<lparr>cells := (cells h)(next_free h := Some c), next_free := Suc (next_free h)\<rparr>))"

definition store_at :: "addr \<Rightarrow> cell \<Rightarrow> store \<Rightarrow> store" where
  "store_at a c h = h\<lparr>cells := (cells h)(a := Some c)\<rparr>"

text \<open>Everything allocated so far is as it was.\<close>

definition extends :: "store \<Rightarrow> store \<Rightarrow> bool" where
  "extends h h' \<longleftrightarrow> next_free h \<le> next_free h' \<and> (\<forall>a < next_free h. cells h' a = cells h a)"

definition allocated :: "store \<Rightarrow> addr set" where
  "allocated h = {..< next_free h}"

lemma extends_refl [simp]: "extends h h"
  by (simp add: extends_def)

lemma extends_trans: "extends h h' \<Longrightarrow> extends h' h'' \<Longrightarrow> extends h h''"
  by (simp add: extends_def)

lemma extends_allocated: "extends h h' \<Longrightarrow> allocated h \<subseteq> allocated h'"
  by (auto simp: extends_def allocated_def)

lemma extends_same: "extends h h' \<Longrightarrow> A \<subseteq> allocated h \<Longrightarrow> a \<in> A \<Longrightarrow> cells h' a = cells h a"
  by (auto simp: extends_def allocated_def)

lemma run_alloc [simp]:
  "run_state (alloc c) h = (next_free h,
     h\<lparr>cells := (cells h)(next_free h := Some c), next_free := Suc (next_free h)\<rparr>)"
  by (simp add: alloc_def)

lemma store_at_sel [simp]:
  "cells (store_at a c h) = (cells h)(a := Some c)" "next_free (store_at a c h) = next_free h"
  by (simp_all add: store_at_def)

subsection \<open>What a deep copy promises\<close>

text \<open>
  \<open>view\<close> reads the value an \<open>'a\<close> stands for out of the store, and \<open>foot\<close> is the set of
  addresses that value depends on. A copy has the same value, depends on new addresses only, and
  leaves everything else alone.
\<close>

locale copier =
  fixes copy :: "'a \<Rightarrow> (store, 'a) state"
    and view :: "store \<Rightarrow> 'a \<Rightarrow> 'v"
    and foot :: "store \<Rightarrow> 'a \<Rightarrow> addr set"
  assumes depends: "(\<And>a. a \<in> foot h x \<Longrightarrow> cells h' a = cells h a) \<Longrightarrow>
      view h' x = view h x \<and> foot h' x = foot h x"
    and copied: "foot h x \<subseteq> allocated h \<Longrightarrow> run_state (copy x) h = (y, h') \<Longrightarrow>
      extends h h' \<and> view h' y = view h x \<and> foot h' y \<subseteq> allocated h' - allocated h"
begin

lemma stable:
  assumes "foot h x \<subseteq> allocated h" and "extends h h'"
  shows "view h' x = view h x" and "foot h' x = foot h x"
  using depends [of h x h'] extends_same [OF assms(2,1)] by blast+

text \<open>The copy and its original are separate: a write to one does not change the other.\<close>

lemma separate:
  assumes "foot h x \<subseteq> allocated h" and "run_state (copy x) h = (y, h')"
  shows "foot h' y \<inter> foot h' x = {}"
    and "a \<in> foot h' y \<Longrightarrow> view (store_at a c h') x = view h x"
    and "a \<in> foot h' x \<Longrightarrow> view (store_at a c h') y = view h x"
proof -
  note out = copied [OF assms]
  have x: "view h' x = view h x" "foot h' x = foot h x" using stable [OF assms(1)] out by blast+
  then show disj: "foot h' y \<inter> foot h' x = {}" using out assms(1) by auto
  have kept: "cells (store_at a c h') b = cells h' b" if "b \<noteq> a" for b using that by simp
  show "view (store_at a c h') x = view h x" if "a \<in> foot h' y"
    using depends [of h' x "store_at a c h'"] kept that disj x(1) by fastforce
  show "view (store_at a c h') y = view h x" if "a \<in> foot h' x"
    using depends [of h' y "store_at a c h'"] kept that disj out by fastforce
qed

end

subsection \<open>Pointers to integers\<close>

definition load_int32 :: "store \<Rightarrow> addr \<Rightarrow> int32" where
  "load_int32 h a = (case cells h a of Some (Int32 w) \<Rightarrow> w | _ \<Rightarrow> 0)"

text \<open>The block \<open>if in.Replicas != nil { *out = new(int32); **out = **in }\<close>.\<close>

definition copy_int32_pointer :: "addr option \<Rightarrow> (store, addr option) state" where
  "copy_int32_pointer p =
     (case p of
        None \<Rightarrow> return None
      | Some a \<Rightarrow> do {
          b \<leftarrow> alloc (Int32 0);
          w \<leftarrow> gets (\<lambda>h. load_int32 h a);
          modify (store_at b (Int32 w));
          return (Some b) })"

definition int32_pointer_view :: "store \<Rightarrow> addr option \<Rightarrow> int32 option" where
  "int32_pointer_view h p = map_option (load_int32 h) p"

interpretation int32_pointer: copier copy_int32_pointer int32_pointer_view "\<lambda>h. set_option"
proof (unfold_locales, goal_cases)
  case (1 h x h')
  then show ?case by (cases x) (simp_all add: int32_pointer_view_def load_int32_def)
next
  case (2 h x y h')
  then show ?case
    by (cases x)
       (auto simp: copy_int32_pointer_def int32_pointer_view_def load_int32_def allocated_def extends_def)
qed

subsection \<open>Slices\<close>

definition slice_elems :: "(cell \<Rightarrow> 'a list) \<Rightarrow> store \<Rightarrow> addr \<Rightarrow> 'a list" where
  "slice_elems unwrap h a = (case cells h a of None \<Rightarrow> [] | Some c \<Rightarrow> unwrap c)"

text \<open>The loop \<open>for i := range *in { (*in)[i].DeepCopyInto(&(*out)[i]) }\<close>, from index \<open>i\<close> on.\<close>

fun fill_slice ::
  "('a list \<Rightarrow> cell) \<Rightarrow> (cell \<Rightarrow> 'a list) \<Rightarrow> ('a \<Rightarrow> (store, 'a) state) \<Rightarrow> addr \<Rightarrow> nat \<Rightarrow> 'a list
   \<Rightarrow> (store, unit) state" where
  "fill_slice wrap unwrap copy b i [] = return ()"
| "fill_slice wrap unwrap copy b i (x # xs) = do {
     y \<leftarrow> copy x;
     modify (\<lambda>h. store_at b (wrap ((slice_elems unwrap h b)[i := y])) h);
     fill_slice wrap unwrap copy b (Suc i) xs }"

text \<open>A nil slice stays nil; otherwise \<open>make\<close> allocates zero values, which are then filled in.\<close>

definition copy_slice ::
  "('a list \<Rightarrow> cell) \<Rightarrow> (cell \<Rightarrow> 'a list) \<Rightarrow> 'a \<Rightarrow> ('a \<Rightarrow> (store, 'a) state) \<Rightarrow> addr option
   \<Rightarrow> (store, addr option) state" where
  "copy_slice wrap unwrap zero copy p =
     (case p of
        None \<Rightarrow> return None
      | Some a \<Rightarrow> do {
          xs \<leftarrow> gets (\<lambda>h. slice_elems unwrap h a);
          b \<leftarrow> alloc (wrap (replicate (length xs) zero));
          fill_slice wrap unwrap copy b 0 xs;
          return (Some b) })"

definition slice_view :: "(cell \<Rightarrow> 'a list) \<Rightarrow> (store \<Rightarrow> 'a \<Rightarrow> 'v) \<Rightarrow> store \<Rightarrow> addr option \<Rightarrow> 'v list option" where
  "slice_view unwrap view h p = map_option (\<lambda>a. map (view h) (slice_elems unwrap h a)) p"

definition slice_foot :: "(cell \<Rightarrow> 'a list) \<Rightarrow> (store \<Rightarrow> 'a \<Rightarrow> addr set) \<Rightarrow> store \<Rightarrow> addr option \<Rightarrow> addr set" where
  "slice_foot unwrap foot h p =
     (case p of None \<Rightarrow> {} | Some a \<Rightarrow> insert a (\<Union>x \<in> set (slice_elems unwrap h a). foot h x))"

text \<open>Everything allocated so far is as it was, but for the address \<open>b\<close>.\<close>

definition extends_but :: "addr \<Rightarrow> store \<Rightarrow> store \<Rightarrow> bool" where
  "extends_but b h h' \<longleftrightarrow> next_free h \<le> next_free h' \<and> (\<forall>a < next_free h. a \<noteq> b \<longrightarrow> cells h' a = cells h a)"

locale slices = copier copy view foot
  for copy :: "'a \<Rightarrow> (store, 'a) state" and view :: "store \<Rightarrow> 'a \<Rightarrow> 'v" and foot :: "store \<Rightarrow> 'a \<Rightarrow> addr set" +
  fixes wrap :: "'a list \<Rightarrow> cell" and unwrap :: "cell \<Rightarrow> 'a list" and zero :: 'a
  assumes unwrap: "unwrap (wrap xs) = xs"
begin

lemma elems_store_at [simp]:
  "slice_elems unwrap (store_at a (wrap xs) h) a = xs"
  by (simp add: slice_elems_def unwrap)

lemma fill:
  assumes "run_state (fill_slice wrap unwrap copy b i xs) h = ((), h')"
    and "slice_elems unwrap h b = ds @ zs" and "length ds = i" and "length zs = length xs"
    and "b \<in> allocated h" and "\<forall>x \<in> set xs. foot h x \<subseteq> allocated h - {b}"
  shows "\<exists>ys. slice_elems unwrap h' b = ds @ ys \<and> extends_but b h h' \<and> map (view h') ys = map (view h) xs \<and>
    (\<forall>y \<in> set ys. foot h' y \<subseteq> allocated h' - allocated h)"
  using assms
proof (induction xs arbitrary: i h ds zs)
  case Nil
  then show ?case by (auto simp: extends_but_def)
next
  case (Cons x xs)
  obtain y h1 where y: "run_state (copy x) h = (y, h1)" by fastforce
  from Cons.prems(6) have "foot h x \<subseteq> allocated h" by auto
  note out = copied [OF this y]
  obtain z zs' where zs: "zs = z # zs'" using Cons.prems(4) by (cases zs) auto
  let ?h2 = "store_at b (wrap (ds @ y # zs')) h1"
  have "cells h1 b = cells h b" using out Cons.prems(5) by (auto simp: extends_def allocated_def)
  then have "slice_elems unwrap h1 b = ds @ z # zs'" using Cons.prems(2) zs by (simp add: slice_elems_def)
  then have run: "run_state (fill_slice wrap unwrap copy b (Suc i) xs) ?h2 = ((), h')"
    using Cons.prems(1,3) y by (simp add: list_update_append)
  have foot2: "view ?h2 v = view h v \<and> foot ?h2 v = foot h v" if "v \<in> set xs" for v
    by (rule depends) (use that Cons.prems(6) out in \<open>auto simp: extends_def allocated_def\<close>)
  have "b \<in> allocated ?h2" and sub: "allocated h \<subseteq> allocated ?h2"
    using Cons.prems(5) out by (auto simp: allocated_def extends_def)
  moreover have "\<forall>v \<in> set xs. foot ?h2 v \<subseteq> allocated ?h2 - {b}"
    using Cons.prems(6) foot2 sub by fastforce
  ultimately obtain ys where ys: "slice_elems unwrap h' b = ds @ y # ys" "extends_but b ?h2 h'"
      "map (view h') ys = map (view ?h2) xs" "\<forall>v \<in> set ys. foot h' v \<subseteq> allocated h' - allocated ?h2"
    using Cons.IH [OF run, of "ds @ [y]" zs'] Cons.prems(3,4) zs by auto
  have ext: "extends_but b h h'"
    using ys(2) out by (auto simp: extends_but_def extends_def)
  have "b \<notin> foot h1 y" using out Cons.prems(5) by auto
  then have "view h' y = view h1 y \<and> foot h' y = foot h1 y"
    by (intro depends) (use ys(2) out in \<open>force simp: extends_but_def allocated_def\<close>)
  then have "view h' y = view h x" and "foot h' y \<subseteq> allocated h' - allocated h"
    using out ys(2) by (auto simp: extends_but_def allocated_def)
  moreover have "map (view h') ys = map (view h) xs" using ys(3) foot2 by simp
  ultimately show ?case
    using ys(1,4) ext sub by (intro exI [of _ "y # ys"]) auto
qed

text \<open>Hence a slice is copied deeply when its elements are.\<close>

lemma slice_copier: "copier (copy_slice wrap unwrap zero copy) (slice_view unwrap view) (slice_foot unwrap foot)"
proof (unfold_locales, goal_cases)
  case (1 h x h')
  show ?case
  proof (cases x)
    case (Some a)
    with 1 have "cells h' a = cells h a" by (simp add: slice_foot_def)
    then have elems: "slice_elems unwrap h' a = slice_elems unwrap h a" by (simp add: slice_elems_def)
    have "view h' v = view h v \<and> foot h' v = foot h v" if "v \<in> set (slice_elems unwrap h a)" for v
      by (rule depends) (use 1 Some that in \<open>auto simp: slice_foot_def\<close>)
    with Some elems show ?thesis by (simp add: slice_view_def slice_foot_def)
  qed (simp add: slice_view_def slice_foot_def)
next
  case (2 h x y h')
  show ?case
  proof (cases x)
    case None
    with 2 show ?thesis by (simp add: copy_slice_def slice_view_def slice_foot_def)
  next
    case (Some a)
    define xs where "xs = slice_elems unwrap h a"
    define b where "b = next_free h"
    define h1 where "h1 = h\<lparr>cells := (cells h)(b := Some (wrap (replicate (length xs) zero))), next_free := Suc b\<rparr>"
    from 2(2) Some have run: "run_state (fill_slice wrap unwrap copy b 0 xs) h1 = ((), h')" and y: "y = Some b"
      by (auto simp: copy_slice_def xs_def b_def h1_def split: prod.splits)
    have foot: "\<forall>v \<in> set xs. foot h v \<subseteq> allocated h" using 2(1) Some by (auto simp: slice_foot_def xs_def)
    have ext: "extends h h1" and b: "b \<in> allocated h1" "b \<notin> allocated h"
      by (auto simp: h1_def b_def extends_def allocated_def)
    have same: "view h1 v = view h v" "foot h1 v = foot h v" if "v \<in> set xs" for v
      using stable [OF _ ext] foot that by blast+
    have "\<forall>v \<in> set xs. foot h1 v \<subseteq> allocated h1 - {b}"
      using foot same b extends_allocated [OF ext] by fastforce
    moreover have "slice_elems unwrap h1 b = [] @ replicate (length xs) zero"
      by (simp add: slice_elems_def h1_def unwrap)
    ultimately obtain ys where ys: "slice_elems unwrap h' b = ys" "extends_but b h1 h'"
        "map (view h') ys = map (view h1) xs" "\<forall>v \<in> set ys. foot h' v \<subseteq> allocated h' - allocated h1"
      using fill [OF run _ _ _ b(1)] by auto
    have "extends h h'" and "b \<in> allocated h'"
      using ext ys(2) b by (auto simp: extends_def extends_but_def allocated_def)
    moreover have "map (view h') ys = map (view h) xs" using ys(3) same by simp
    ultimately show ?thesis
      using Some y ys(1,4) b extends_allocated [OF ext] xs_def
      by (auto simp: slice_view_def slice_foot_def)
  qed
qed

end

text \<open>Two copies in a row.\<close>

lemma copy_both:
  assumes "copier c1 v1 f1" and "copier c2 v2 f2"
    and "f1 h x \<union> f2 h y \<subseteq> allocated h"
    and "run_state (c1 x) h = (a, h1)" and "run_state (c2 y) h1 = (b, h2)"
  shows "extends h h2 \<and> v1 h2 a = v1 h x \<and> v2 h2 b = v2 h y \<and>
    f1 h2 a \<union> f2 h2 b \<subseteq> allocated h2 - allocated h"
proof -
  have fx: "f1 h x \<subseteq> allocated h" and fy: "f2 h y \<subseteq> allocated h" using assms(3) by blast+
  note one = copier.copied [OF assms(1) fx assms(4)]
  note ext = conjunct1 [OF one]
  note y = copier.stable [OF assms(2) fy ext]
  have "f2 h1 y \<subseteq> allocated h1" using y(2) fy extends_allocated [OF ext] by simp
  note two = copier.copied [OF assms(2) this assms(5)]
  have "f1 h1 a \<subseteq> allocated h1" using one by blast
  note a = copier.stable [OF assms(1) this conjunct1 [OF two]]
  have "f1 h2 a \<union> f2 h2 b \<subseteq> allocated h2 - allocated h"
    using one two a(2) extends_allocated [OF ext] extends_allocated [OF conjunct1 [OF two]] by blast
  moreover have "extends h h2" using extends_trans ext two by blast
  ultimately show ?thesis using one two a(1) y(1) by simp
qed

definition copy_pair :: "('a \<Rightarrow> (store, 'a) state) \<Rightarrow> ('b \<Rightarrow> (store, 'b) state) \<Rightarrow> 'a \<times> 'b \<Rightarrow> (store, 'a \<times> 'b) state" where
  "copy_pair c1 c2 p = do { a \<leftarrow> c1 (fst p); b \<leftarrow> c2 (snd p); return (a, b) }"

lemma pair_copier:
  assumes "copier c1 v1 f1" and "copier c2 v2 f2"
  shows "copier (copy_pair c1 c2) (\<lambda>h p. (v1 h (fst p), v2 h (snd p))) (\<lambda>h p. f1 h (fst p) \<union> f2 h (snd p))"
proof (unfold_locales, goal_cases)
  case (1 h x h')
  then show ?case
    using copier.depends [OF assms(1), of h "fst x" h'] copier.depends [OF assms(2), of h "snd x" h'] by simp
next
  case (2 h x y h')
  obtain a h1 where a: "run_state (c1 (fst x)) h = (a, h1)" by fastforce
  obtain b h2 where b: "run_state (c2 (snd x)) h1 = (b, h2)" by fastforce
  from 2(2) a b have "h' = h2" and "y = (a, b)" by (auto simp: copy_pair_def)
  with copy_both [OF assms 2(1) a b] show ?case by simp
qed

subsection \<open>The structs of the API\<close>

text \<open>The deep copies of other packages, with the values and addresses their structs stand for.\<close>

record foreign_ops =
  ObjectMeta_DeepCopyInto :: "foreign \<Rightarrow> (store, foreign) state"
  ObjectMeta_view :: "store \<Rightarrow> foreign \<Rightarrow> ObjectMeta"
  ObjectMeta_foot :: "store \<Rightarrow> foreign \<Rightarrow> addr set"
  ListMeta_DeepCopyInto :: "foreign \<Rightarrow> (store, foreign) state"
  ListMeta_view :: "store \<Rightarrow> foreign \<Rightarrow> string"
  ListMeta_foot :: "store \<Rightarrow> foreign \<Rightarrow> addr set"
  MicroK8sConfigSpec_DeepCopyInto :: "foreign \<Rightarrow> (store, foreign) state"
  MicroK8sConfigSpec_view :: "store \<Rightarrow> foreign \<Rightarrow> MicroK8sConfigSpec"
  MicroK8sConfigSpec_foot :: "store \<Rightarrow> foreign \<Rightarrow> addr set"
  Condition_DeepCopyInto :: "foreign \<Rightarrow> (store, foreign) state"
  Condition_view :: "store \<Rightarrow> foreign \<Rightarrow> Condition"
  Condition_foot :: "store \<Rightarrow> foreign \<Rightarrow> addr set"

definition no_foreign :: foreign where
  "no_foreign = \<lparr>f_words = [], f_refs = []\<rparr>"

fun conditions_of :: "cell \<Rightarrow> foreign list" where
  "conditions_of (Condition_array xs) = xs"
| "conditions_of c = []"

fun items_of :: "cell \<Rightarrow> mcp_struct list" where
  "items_of (Item_array xs) = xs"
| "items_of c = []"

definition MachineTemplate_DeepCopyInto :: "MachineTemplate \<Rightarrow> MachineTemplate" where
  "MachineTemplate_DeepCopyInto inp =
     (let out = inp in out\<lparr>mt_InfrastructureTemplate := mt_InfrastructureTemplate inp\<rparr>)"

definition MicroK8sControlPlaneSpec_DeepCopyInto :: "foreign_ops \<Rightarrow> spec_struct \<Rightarrow> (store, spec_struct) state" where
  "MicroK8sControlPlaneSpec_DeepCopyInto F inp = do {
     let out = inp;
     replicas \<leftarrow> copy_int32_pointer (ss_Replicas inp);
     let out = out\<lparr>ss_Replicas := replicas, ss_MachineTemplate := ss_MachineTemplate inp\<rparr>;
     config \<leftarrow> MicroK8sConfigSpec_DeepCopyInto F (ss_ControlPlaneConfig inp);
     return (out\<lparr>ss_ControlPlaneConfig := config\<rparr>) }"

definition MicroK8sControlPlaneStatus_DeepCopyInto :: "foreign_ops \<Rightarrow> status_struct \<Rightarrow> (store, status_struct) state" where
  "MicroK8sControlPlaneStatus_DeepCopyInto F inp = do {
     let out = inp;
     conditions \<leftarrow> copy_slice Condition_array conditions_of no_foreign (Condition_DeepCopyInto F) (sts_Conditions inp);
     return (out\<lparr>sts_Conditions := conditions\<rparr>) }"

definition MicroK8sControlPlane_DeepCopyInto :: "foreign_ops \<Rightarrow> mcp_struct \<Rightarrow> (store, mcp_struct) state" where
  "MicroK8sControlPlane_DeepCopyInto F inp = do {
     let out = inp\<lparr>ms_TypeMeta := ms_TypeMeta inp\<rparr>;
     meta \<leftarrow> ObjectMeta_DeepCopyInto F (ms_ObjectMeta inp);
     let out = out\<lparr>ms_ObjectMeta := meta\<rparr>;
     spec \<leftarrow> MicroK8sControlPlaneSpec_DeepCopyInto F (ms_Spec inp);
     let out = out\<lparr>ms_Spec := spec\<rparr>;
     status \<leftarrow> MicroK8sControlPlaneStatus_DeepCopyInto F (ms_Status inp);
     return (out\<lparr>ms_Status := status\<rparr>) }"

definition no_mcp_struct :: mcp_struct where
  "no_mcp_struct = \<lparr>ms_TypeMeta = ([], []), ms_ObjectMeta = no_foreign,
     ms_Spec = \<lparr>ss_Replicas = None, ss_Version = [],
       ss_MachineTemplate = \<lparr>mt_InfrastructureTemplate = \<lparr>ref_APIVersion = [], ref_Kind = [], ref_Name = [],
         ref_Namespace = [], ref_UID = []\<rparr>\<rparr>, ss_UpgradeStrategy = [], ss_ControlPlaneConfig = no_foreign\<rparr>,
     ms_Status = \<lparr>sts_Selector = [], sts_Replicas = 0, sts_ReadyReplicas = 0, sts_UnavailableReplicas = 0,
       sts_Initialized = False, sts_Ready = False, sts_Bootstrapped = False, sts_ObservedGeneration = 0,
       sts_Conditions = None\<rparr>\<rparr>"

definition MicroK8sControlPlaneList_DeepCopyInto :: "foreign_ops \<Rightarrow> list_struct \<Rightarrow> (store, list_struct) state" where
  "MicroK8sControlPlaneList_DeepCopyInto F inp = do {
     let out = inp\<lparr>ls_TypeMeta := ls_TypeMeta inp\<rparr>;
     meta \<leftarrow> ListMeta_DeepCopyInto F (ls_ListMeta inp);
     let out = out\<lparr>ls_ListMeta := meta\<rparr>;
     items \<leftarrow> copy_slice Item_array items_of no_mcp_struct (MicroK8sControlPlane_DeepCopyInto F) (ls_Items inp);
     return (out\<lparr>ls_Items := items\<rparr>) }"

text \<open>
  The \<open>DeepCopy\<close> methods: a nil pointer gives a nil pointer, any other one a pointer to a new variable
  that is filled in. A pointer that is only used through its target is an \<open>option\<close>.
\<close>

definition deep_copy :: "('a \<Rightarrow> (store, 'a) state) \<Rightarrow> 'a option \<Rightarrow> (store, 'a option) state" where
  "deep_copy into p = (case p of None \<Rightarrow> return None | Some x \<Rightarrow> do { out \<leftarrow> into x; return (Some out) })"

definition MachineTemplate_DeepCopy :: "MachineTemplate option \<Rightarrow> (store, MachineTemplate option) state" where
  "MachineTemplate_DeepCopy = deep_copy (\<lambda>x. return (MachineTemplate_DeepCopyInto x))"

definition MicroK8sControlPlane_DeepCopy :: "foreign_ops \<Rightarrow> mcp_struct option \<Rightarrow> (store, mcp_struct option) state" where
  "MicroK8sControlPlane_DeepCopy F = deep_copy (MicroK8sControlPlane_DeepCopyInto F)"

definition MicroK8sControlPlaneList_DeepCopy :: "foreign_ops \<Rightarrow> list_struct option \<Rightarrow> (store, list_struct option) state" where
  "MicroK8sControlPlaneList_DeepCopy F = deep_copy (MicroK8sControlPlaneList_DeepCopyInto F)"

definition MicroK8sControlPlaneSpec_DeepCopy :: "foreign_ops \<Rightarrow> spec_struct option \<Rightarrow> (store, spec_struct option) state" where
  "MicroK8sControlPlaneSpec_DeepCopy F = deep_copy (MicroK8sControlPlaneSpec_DeepCopyInto F)"

definition MicroK8sControlPlaneStatus_DeepCopy :: "foreign_ops \<Rightarrow> status_struct option \<Rightarrow> (store, status_struct option) state" where
  "MicroK8sControlPlaneStatus_DeepCopy F = deep_copy (MicroK8sControlPlaneStatus_DeepCopyInto F)"

text \<open>As a \<open>runtime.Object\<close>: a nil pointer becomes the nil interface.\<close>

datatype runtime_object = Control_plane_object mcp_struct | List_object list_struct

definition MicroK8sControlPlane_DeepCopyObject :: "foreign_ops \<Rightarrow> mcp_struct option \<Rightarrow> (store, runtime_object option) state" where
  "MicroK8sControlPlane_DeepCopyObject F inp = do {
     c \<leftarrow> MicroK8sControlPlane_DeepCopy F inp;
     case c of Some c \<Rightarrow> return (Some (Control_plane_object c)) | None \<Rightarrow> return None }"

definition MicroK8sControlPlaneList_DeepCopyObject :: "foreign_ops \<Rightarrow> list_struct option \<Rightarrow> (store, runtime_object option) state" where
  "MicroK8sControlPlaneList_DeepCopyObject F inp = do {
     c \<leftarrow> MicroK8sControlPlaneList_DeepCopy F inp;
     case c of Some c \<Rightarrow> return (Some (List_object c)) | None \<Rightarrow> return None }"

subsection \<open>The values the structs stand for\<close>

text \<open>These are the records the other theories work with.\<close>

definition spec_view :: "foreign_ops \<Rightarrow> store \<Rightarrow> spec_struct \<Rightarrow> MicroK8sControlPlaneSpec" where
  "spec_view F h x =
     \<lparr>sp_Replicas = int32_pointer_view h (ss_Replicas x),
      sp_Version = ss_Version x,
      sp_InfrastructureTemplate = mt_InfrastructureTemplate (ss_MachineTemplate x),
      sp_UpgradeStrategy = ss_UpgradeStrategy x,
      sp_ControlPlaneConfig = MicroK8sConfigSpec_view F h (ss_ControlPlaneConfig x)\<rparr>"

definition spec_foot :: "foreign_ops \<Rightarrow> store \<Rightarrow> spec_struct \<Rightarrow> addr set" where
  "spec_foot F h x = set_option (ss_Replicas x) \<union> MicroK8sConfigSpec_foot F h (ss_ControlPlaneConfig x)"

abbreviation conditions_view :: "foreign_ops \<Rightarrow> store \<Rightarrow> addr option \<Rightarrow> Condition list option" where
  "conditions_view F \<equiv> slice_view conditions_of (Condition_view F)"

abbreviation conditions_foot :: "foreign_ops \<Rightarrow> store \<Rightarrow> addr option \<Rightarrow> addr set" where
  "conditions_foot F \<equiv> slice_foot conditions_of (Condition_foot F)"

definition status_view :: "foreign_ops \<Rightarrow> store \<Rightarrow> status_struct \<Rightarrow> MicroK8sControlPlaneStatus" where
  "status_view F h x =
     \<lparr>st_Selector = sts_Selector x,
      st_Replicas = sts_Replicas x,
      st_ReadyReplicas = sts_ReadyReplicas x,
      st_UnavailableReplicas = sts_UnavailableReplicas x,
      st_Initialized = sts_Initialized x,
      st_Ready = sts_Ready x,
      st_Bootstrapped = sts_Bootstrapped x,
      st_ObservedGeneration = sts_ObservedGeneration x,
      st_Conditions = (case conditions_view F h (sts_Conditions x) of None \<Rightarrow> [] | Some cs \<Rightarrow> cs)\<rparr>"

definition status_foot :: "foreign_ops \<Rightarrow> store \<Rightarrow> status_struct \<Rightarrow> addr set" where
  "status_foot F h x = conditions_foot F h (sts_Conditions x)"

text \<open>The kind and the API version of an object come with its value; the other theories do not use them.\<close>

definition mcp_view :: "foreign_ops \<Rightarrow> store \<Rightarrow> mcp_struct \<Rightarrow> (string \<times> string) \<times> MicroK8sControlPlane" where
  "mcp_view F h x =
     (ms_TypeMeta x,
      \<lparr>mcp_Meta = ObjectMeta_view F h (ms_ObjectMeta x),
       mcp_Spec = spec_view F h (ms_Spec x),
       mcp_Status = status_view F h (ms_Status x)\<rparr>)"

definition mcp_foot :: "foreign_ops \<Rightarrow> store \<Rightarrow> mcp_struct \<Rightarrow> addr set" where
  "mcp_foot F h x =
     ObjectMeta_foot F h (ms_ObjectMeta x) \<union> (spec_foot F h (ms_Spec x) \<union> status_foot F h (ms_Status x))"

definition list_view :: "foreign_ops \<Rightarrow> store \<Rightarrow> list_struct \<Rightarrow>
  (string \<times> string) \<times> string \<times> ((string \<times> string) \<times> MicroK8sControlPlane) list option" where
  "list_view F h x =
     (ls_TypeMeta x, ListMeta_view F h (ls_ListMeta x), slice_view items_of (mcp_view F) h (ls_Items x))"

definition list_foot :: "foreign_ops \<Rightarrow> store \<Rightarrow> list_struct \<Rightarrow> addr set" where
  "list_foot F h x = ListMeta_foot F h (ls_ListMeta x) \<union> slice_foot items_of (mcp_foot F) h (ls_Items x)"

locale foreign_types =
  fixes F :: foreign_ops
  assumes ObjectMeta: "copier (ObjectMeta_DeepCopyInto F) (ObjectMeta_view F) (ObjectMeta_foot F)"
    and ListMeta: "copier (ListMeta_DeepCopyInto F) (ListMeta_view F) (ListMeta_foot F)"
    and MicroK8sConfigSpec: "copier (MicroK8sConfigSpec_DeepCopyInto F) (MicroK8sConfigSpec_view F) (MicroK8sConfigSpec_foot F)"
    and Condition: "copier (Condition_DeepCopyInto F) (Condition_view F) (Condition_foot F)"
begin

sublocale conditions: slices "Condition_DeepCopyInto F" "Condition_view F" "Condition_foot F"
    Condition_array conditions_of no_foreign
  by (rule slices.intro [OF Condition], unfold_locales) simp

lemma spec: "copier (MicroK8sControlPlaneSpec_DeepCopyInto F) (spec_view F) (spec_foot F)"
proof (unfold_locales, goal_cases)
  case (1 h x h')
  then show ?case
    using copier.depends [OF MicroK8sConfigSpec, of h "ss_ControlPlaneConfig x" h']
      int32_pointer.depends [of "ss_Replicas x" h' h]
    by (simp add: spec_view_def spec_foot_def)
next
  case (2 h x y h')
  obtain a h1 where a: "run_state (copy_int32_pointer (ss_Replicas x)) h = (a, h1)" by fastforce
  obtain b h2 where b: "run_state (MicroK8sConfigSpec_DeepCopyInto F (ss_ControlPlaneConfig x)) h1 = (b, h2)"
    by fastforce
  from 2(2) a b have "h' = h2" and "y = x\<lparr>ss_Replicas := a, ss_ControlPlaneConfig := b\<rparr>"
    by (auto simp: MicroK8sControlPlaneSpec_DeepCopyInto_def)
  with copy_both [OF int32_pointer.copier_axioms MicroK8sConfigSpec 2(1) [unfolded spec_foot_def] a b] show ?case
    by (simp add: spec_view_def spec_foot_def)
qed

lemma status: "copier (MicroK8sControlPlaneStatus_DeepCopyInto F) (status_view F) (status_foot F)"
proof (unfold_locales, goal_cases)
  case (1 h x h')
  then show ?case
    using copier.depends [OF conditions.slice_copier, of h "sts_Conditions x" h']
    by (simp add: status_view_def status_foot_def)
next
  case (2 h x y h')
  then obtain c where "run_state (copy_slice Condition_array conditions_of no_foreign
      (Condition_DeepCopyInto F) (sts_Conditions x)) h = (c, h')" and "y = x\<lparr>sts_Conditions := c\<rparr>"
    by (auto simp: MicroK8sControlPlaneStatus_DeepCopyInto_def split: prod.splits)
  with copier.copied [OF conditions.slice_copier 2(1) [unfolded status_foot_def]] show ?case
    by (simp add: status_view_def status_foot_def)
qed

lemma mcp: "copier (MicroK8sControlPlane_DeepCopyInto F) (mcp_view F) (mcp_foot F)"
proof (unfold_locales, goal_cases)
  case (1 h x h')
  then show ?case
    using copier.depends [OF ObjectMeta, of h "ms_ObjectMeta x" h'] copier.depends [OF spec, of h "ms_Spec x" h']
      copier.depends [OF status, of h "ms_Status x" h']
    by (simp add: mcp_view_def mcp_foot_def)
next
  case (2 h x y h')
  obtain a h1 where a: "run_state (ObjectMeta_DeepCopyInto F (ms_ObjectMeta x)) h = (a, h1)" by fastforce
  obtain b h2 where b: "run_state (copy_pair (MicroK8sControlPlaneSpec_DeepCopyInto F)
      (MicroK8sControlPlaneStatus_DeepCopyInto F) (ms_Spec x, ms_Status x)) h1 = (b, h2)" by fastforce
  from 2(2) a b have "h' = h2" and "y = x\<lparr>ms_ObjectMeta := a, ms_Spec := fst b, ms_Status := snd b\<rparr>"
    by (auto simp: MicroK8sControlPlane_DeepCopyInto_def copy_pair_def split: prod.splits)
  moreover have "ObjectMeta_foot F h (ms_ObjectMeta x) \<union>
      (spec_foot F h (fst (ms_Spec x, ms_Status x)) \<union> status_foot F h (snd (ms_Spec x, ms_Status x))) \<subseteq> allocated h"
    using 2(1) by (simp add: mcp_foot_def)
  ultimately show ?case
    using copy_both [OF ObjectMeta pair_copier [OF spec status] _ a b] by (simp add: mcp_view_def mcp_foot_def)
qed

sublocale items: slices "MicroK8sControlPlane_DeepCopyInto F" "mcp_view F" "mcp_foot F"
    Item_array items_of no_mcp_struct
  by (rule slices.intro [OF mcp], unfold_locales) simp

lemma list: "copier (MicroK8sControlPlaneList_DeepCopyInto F) (list_view F) (list_foot F)"
proof (unfold_locales, goal_cases)
  case (1 h x h')
  then show ?case
    using copier.depends [OF ListMeta, of h "ls_ListMeta x" h'] copier.depends [OF items.slice_copier, of h "ls_Items x" h']
    by (simp add: list_view_def list_foot_def)
next
  case (2 h x y h')
  obtain a h1 where a: "run_state (ListMeta_DeepCopyInto F (ls_ListMeta x)) h = (a, h1)" by fastforce
  obtain b h2 where b: "run_state (copy_slice Item_array items_of no_mcp_struct
      (MicroK8sControlPlane_DeepCopyInto F) (ls_Items x)) h1 = (b, h2)" by fastforce
  from 2(2) a b have "h' = h2" and "y = x\<lparr>ls_ListMeta := a, ls_Items := b\<rparr>"
    by (auto simp: MicroK8sControlPlaneList_DeepCopyInto_def)
  with copy_both [OF ListMeta items.slice_copier 2(1) [unfolded list_foot_def] a b] show ?case
    by (simp add: list_view_def list_foot_def)
qed

end

subsection \<open>Structs of other packages in memory\<close>

text \<open>
  A foreign struct whose references are to cells without references of their own, and the deep copy
  such a struct has; it shows that the contract of these packages can be met.
\<close>

fun copy_refs :: "addr list \<Rightarrow> (store, addr list) state" where
  "copy_refs [] = return []"
| "copy_refs (a # as) = do {
     c \<leftarrow> gets (\<lambda>h. case cells h a of None \<Rightarrow> Foreign_cell no_foreign | Some c \<Rightarrow> c);
     b \<leftarrow> alloc c;
     bs \<leftarrow> copy_refs as;
     return (b # bs) }"

definition copy_flat :: "foreign \<Rightarrow> (store, foreign) state" where
  "copy_flat x = do { bs \<leftarrow> copy_refs (f_refs x); return (x\<lparr>f_refs := bs\<rparr>) }"

definition flat_cell :: "cell option \<Rightarrow> string" where
  "flat_cell c = (case c of Some (Foreign_cell x) \<Rightarrow> f_words x | _ \<Rightarrow> [])"

definition flat_view :: "(string \<Rightarrow> string list \<Rightarrow> 'v) \<Rightarrow> store \<Rightarrow> foreign \<Rightarrow> 'v" where
  "flat_view mk h x = mk (f_words x) (map (\<lambda>a. flat_cell (cells h a)) (f_refs x))"

lemma copy_refs_run:
  "run_state (copy_refs as) h = (bs, h') \<Longrightarrow> set as \<subseteq> allocated h \<Longrightarrow>
   extends h h' \<and> map (\<lambda>b. flat_cell (cells h' b)) bs = map (\<lambda>a. flat_cell (cells h a)) as \<and>
   set bs \<subseteq> allocated h' - allocated h"
proof (induction as arbitrary: h bs)
  case Nil
  then show ?case by simp
next
  case (Cons a as)
  define c where "c = (case cells h a of None \<Rightarrow> Foreign_cell no_foreign | Some c \<Rightarrow> c)"
  define h1 where "h1 = h\<lparr>cells := (cells h)(next_free h := Some c), next_free := Suc (next_free h)\<rparr>"
  obtain bs' where bs: "bs = next_free h # bs'" and run: "run_state (copy_refs as) h1 = (bs', h')"
    using Cons.prems(1) by (auto simp: c_def h1_def split: prod.splits)
  have ext: "extends h h1" and sub: "allocated h \<subseteq> allocated h1" and new: "next_free h \<in> allocated h1 - allocated h"
    by (auto simp: h1_def extends_def allocated_def)
  have rest: "map (\<lambda>a. flat_cell (cells h1 a)) as = map (\<lambda>a. flat_cell (cells h a)) as"
    using extends_same [OF ext] Cons.prems(2) by auto
  have "flat_cell (Some c) = flat_cell (cells h a)"
    by (auto simp: c_def flat_cell_def no_foreign_def split: option.splits)
  then have first: "flat_cell (cells h1 (next_free h)) = flat_cell (cells h a)" by (simp add: h1_def)
  have IH: "extends h1 h'" "map (\<lambda>b. flat_cell (cells h' b)) bs' = map (\<lambda>a. flat_cell (cells h1 a)) as"
    "set bs' \<subseteq> allocated h' - allocated h1"
    using Cons.IH [OF run] Cons.prems(2) sub by auto
  then have "cells h' (next_free h) = cells h1 (next_free h)" using extends_same [OF IH(1)] new by blast
  then have "map (\<lambda>b. flat_cell (cells h' b)) bs = map (\<lambda>a. flat_cell (cells h a)) (a # as)"
    using IH(2) first rest unfolding bs by simp
  moreover have "set bs \<subseteq> allocated h' - allocated h"
    using IH(3) new sub extends_allocated [OF IH(1)] unfolding bs by auto
  ultimately show ?case using extends_trans [OF ext IH(1)] by blast
qed

definition flat_ops :: foreign_ops where
  "flat_ops = \<lparr>
     ObjectMeta_DeepCopyInto = copy_flat,
     ObjectMeta_view = flat_view (\<lambda>n fs. empty_meta\<lparr>om_Name := n, om_Finalizers := fs\<rparr>),
     ObjectMeta_foot = (\<lambda>h x. set (f_refs x)),
     ListMeta_DeepCopyInto = copy_flat,
     ListMeta_view = flat_view (\<lambda>n fs. n @ concat fs),
     ListMeta_foot = (\<lambda>h x. set (f_refs x)),
     MicroK8sConfigSpec_DeepCopyInto = copy_flat,
     MicroK8sConfigSpec_view = flat_view (\<lambda>n fs. MicroK8sConfigSpec (n @ concat fs)),
     MicroK8sConfigSpec_foot = (\<lambda>h x. set (f_refs x)),
     Condition_DeepCopyInto = copy_flat,
     Condition_view = flat_view (\<lambda>n fs. \<lparr>c_Type = n, c_Status = ConditionTrue, c_Severity = SeverityNone,
       c_Reason = [], c_Message = concat fs\<rparr>),
     Condition_foot = (\<lambda>h x. set (f_refs x))\<rparr>"

lemma flat_copier: "copier copy_flat (flat_view mk) (\<lambda>h x. set (f_refs x))"
proof (unfold_locales, goal_cases)
  case (1 h x h')
  then show ?case by (simp add: flat_view_def cong: map_cong)
next
  case (2 h x y h')
  then show ?case
    using copy_refs_run [of "f_refs x" h] by (auto simp: copy_flat_def flat_view_def split: prod.splits)
qed

interpretation flat: foreign_types flat_ops
  by (rule foreign_types.intro) (simp_all add: flat_ops_def flat_copier)

subsection \<open>Copies are separate\<close>

text \<open>
  The copy \<open>y\<close> in the store \<open>h'\<close> has the value \<open>x\<close> had, \<open>x\<close> has kept it, and from here on
  writing to anything the one depends on does not change the other.
\<close>

definition is_deep_copy ::
  "(store \<Rightarrow> 'a \<Rightarrow> 'v) \<Rightarrow> (store \<Rightarrow> 'a \<Rightarrow> addr set) \<Rightarrow> store \<Rightarrow> 'a \<Rightarrow> store \<Rightarrow> 'a \<Rightarrow> bool" where
  "is_deep_copy view foot h x h' y \<longleftrightarrow>
     view h' y = view h x \<and> view h' x = view h x \<and> foot h' y \<inter> foot h' x = {} \<and>
     (\<forall>a c. a \<in> foot h' y \<longrightarrow> view (store_at a c h') x = view h x) \<and>
     (\<forall>a c. a \<in> foot h' x \<longrightarrow> view (store_at a c h') y = view h x)"

lemma deep_copy_separate:
  assumes "copier into view foot" and "foot h x \<subseteq> allocated h"
  shows "\<exists>y. result (deep_copy into (Some x)) h = Some y \<and>
    is_deep_copy view foot h x (final (deep_copy into (Some x)) h) y"
proof -
  obtain y h' where y: "run_state (into x) h = (y, h')" by fastforce
  then have "result (deep_copy into (Some x)) h = Some y" and "final (deep_copy into (Some x)) h = h'"
    by (simp_all add: deep_copy_def result_def final_def)
  moreover have "is_deep_copy view foot h x h' y"
    unfolding is_deep_copy_def
    using copier.separate [OF assms y] copier.copied [OF assms y] copier.stable [OF assms] by blast
  ultimately show ?thesis by blast
qed

lemma list_deep_copies_separate:
  assumes "foreign_types F" and "list_foot F h x \<subseteq> allocated h"
  shows "\<exists>y. result (MicroK8sControlPlaneList_DeepCopy F (Some x)) h = Some y \<and>
    is_deep_copy (list_view F) (list_foot F) h x (final (MicroK8sControlPlaneList_DeepCopy F (Some x)) h) y"
  unfolding MicroK8sControlPlaneList_DeepCopy_def
  by (rule deep_copy_separate [OF foreign_types.list [OF assms(1)] assms(2)])

text \<open>
  C38: a deep copy of a control plane object has the value of the original, its type metadata
  included, and the two are separate: whatever is later written to the memory of the one, the other one keeps its value. So the
  models may pass these objects by value.
\<close>

theorem deep_copies_separate:
  assumes "foreign_types F" and "mcp_foot F h x \<subseteq> allocated h"
  shows "\<exists>y. result (MicroK8sControlPlane_DeepCopy F (Some x)) h = Some y \<and>
    is_deep_copy (mcp_view F) (mcp_foot F) h x (final (MicroK8sControlPlane_DeepCopy F (Some x)) h) y"
  unfolding MicroK8sControlPlane_DeepCopy_def
  by (rule deep_copy_separate [OF foreign_types.mcp [OF assms(1)] assms(2)])

text \<open>A control plane with three replicas and one condition that owns a cell of its own.\<close>

definition sample_mcp :: mcp_struct where
  "sample_mcp = no_mcp_struct\<lparr>
     ms_Spec := (ms_Spec no_mcp_struct)\<lparr>ss_Replicas := Some 0\<rparr>,
     ms_Status := (ms_Status no_mcp_struct)\<lparr>sts_Conditions := Some 1\<rparr>\<rparr>"

definition sample_store :: store where
  "sample_store = \<lparr>cells = [0 \<mapsto> Int32 3, 1 \<mapsto> Condition_array [\<lparr>f_words = ''Ready'', f_refs = [2]\<rparr>],
     2 \<mapsto> Foreign_cell \<lparr>f_words = ''fine'', f_refs = []\<rparr>], next_free = 3\<rparr>"

theorem deep_copies_separate_witness:
  "\<exists>y. result (MicroK8sControlPlane_DeepCopy flat_ops (Some sample_mcp)) sample_store = Some y \<and>
    is_deep_copy (mcp_view flat_ops) (mcp_foot flat_ops) sample_store sample_mcp
      (final (MicroK8sControlPlane_DeepCopy flat_ops (Some sample_mcp)) sample_store) y"
proof (rule deep_copies_separate [OF flat.foreign_types_axioms])
  show "mcp_foot flat_ops sample_store sample_mcp \<subseteq> allocated sample_store"
    by (simp add: mcp_foot_def spec_foot_def status_foot_def slice_foot_def slice_elems_def flat_ops_def
        sample_mcp_def no_mcp_struct_def no_foreign_def sample_store_def allocated_def)
qed

end
