(* ===== verification/Startup.thy ===== *)
theory Startup
  imports Reconciler
begin

text \<open>
  \<open>main.go\<close>, with \<open>SetupWithManager\<close> of the controller and of the webhook: how the process is
  put together. The scheme builders, the flag package and the controller manager are the parameters
  of \<open>startup_env\<close>; an exit inside one of them ends the process with its status.
\<close>

subsection \<open>The parts of the manager\<close>

record flags =
  metricsAddr :: string
  probeAddr :: string
  enableLeaderElection :: bool

record manager_options =
  mo_Scheme :: "string list"
  mo_MetricsBindAddress :: string
  mo_Port :: int
  mo_HealthProbeBindAddress :: string
  mo_LeaderElection :: bool
  mo_LeaderElectionID :: string

text \<open>The reconciler works with the clients and the scheme of the manager; a client is a handle here.\<close>

type_synonym client_handle = nat

record reconciler_struct =
  rs_Client :: client_handle
  rs_APIReader :: client_handle
  rs_Scheme :: "string list"

text \<open>
  What \<open>SetupWithManager\<close> hands to the controller builder: the reconciler, the kind it reconciles, the kinds it
  owns, the kinds it watches with the function that maps their objects to requests, and the options.
\<close>

record registration =
  reg_Reconciler :: reconciler_struct
  reg_For :: string
  reg_Owns :: "string list"
  reg_Watches :: "(string \<times> (object \<Rightarrow> ObjectKey list)) list"
  reg_MaxConcurrentReconciles :: int

datatype startup_event =
    Scheme_added string "error option"
  | Logger_set
  | Manager_created manager_options "error option"
  | Controller_completed registration "error option"
  | Webhook_completed string "error option"
  | Healthz_added string "error option"
  | Readyz_added string "error option"
  | Manager_started "error option"
  | Logged string "(string \<times> string) list"

record 'w startup_env =
  su_AddToScheme :: "string \<Rightarrow> 'w \<Rightarrow> error option \<times> 'w"
  su_Parse :: "flags \<Rightarrow> 'w \<Rightarrow> (int + flags) \<times> 'w"
  su_GetConfigOrDie :: "'w \<Rightarrow> int option \<times> 'w"
  su_NewManager :: "manager_options \<Rightarrow> 'w \<Rightarrow> error option \<times> 'w"
  su_GetClient :: client_handle
  su_GetAPIReader :: client_handle
  su_GetScheme :: "string list"
  su_Complete_controller :: "registration \<Rightarrow> 'w \<Rightarrow> error option \<times> 'w"
  su_Complete_webhook :: "string \<Rightarrow> 'w \<Rightarrow> error option \<times> 'w"
  su_AddHealthzCheck :: "string \<Rightarrow> 'w \<Rightarrow> error option \<times> 'w"
  su_AddReadyzCheck :: "string \<Rightarrow> 'w \<Rightarrow> error option \<times> 'w"
  su_Start :: "'w \<Rightarrow> error option \<times> 'w"

record 'w startup_state = "startup_event traced" +
  su_world :: 'w

definition step_call ::
  "('w \<Rightarrow> 'r \<times> 'w) \<Rightarrow> ('r \<Rightarrow> startup_event list) \<Rightarrow> ('w startup_state, 'r) state" where
  "step_call f ev =
     State (\<lambda>s. case f (su_world s) of (r, w) \<Rightarrow> (r, s\<lparr>trace := trace s @ ev r, su_world := w\<rparr>))"

definition log_line :: "string \<Rightarrow> (string \<times> string) list \<Rightarrow> ('w startup_state, unit) state" where
  "log_line msg kvs = State (\<lambda>s. ((), s\<lparr>trace := trace s @ [Logged msg kvs]\<rparr>))"

subsection \<open>The process\<close>

text \<open>How the process ends: \<open>main\<close> returns, \<open>os.Exit\<close> is called, or \<open>utilruntime.Must\<close> panics.\<close>

datatype exit = Main_returned | Exited int | Init_panicked error

definition SetupWithManager ::
  "'w startup_env \<Rightarrow> reconciler_struct \<Rightarrow> int \<Rightarrow> ('w startup_state, error option) state" where
  "SetupWithManager U r options =
     (let reg = \<lparr>reg_Reconciler = r, reg_For = ''MicroK8sControlPlane'', reg_Owns = [''Machine''],
        reg_Watches = [(''Cluster'', ClusterToMicroK8sControlPlane)],
        reg_MaxConcurrentReconciles = options\<rparr>
      in step_call (su_Complete_controller U reg) (\<lambda>r. [Controller_completed reg r]))"

definition SetupWebhookWithManager :: "'w startup_env \<Rightarrow> ('w startup_state, error option) state" where
  "SetupWebhookWithManager U =
     step_call (su_Complete_webhook U ''MicroK8sControlPlane'') (\<lambda>r. [Webhook_completed ''MicroK8sControlPlane'' r])"

text \<open>\<open>utilruntime.Must(X.AddToScheme(scheme))\<close>, one after the other.\<close>

fun must_add :: "'w startup_env \<Rightarrow> string list \<Rightarrow> ('w startup_state, error option) state" where
  "must_add U [] = return None"
| "must_add U (x # xs) = do {
     r \<leftarrow> step_call (su_AddToScheme U x) (\<lambda>r. [Scheme_added x r]);
     case r of Some err \<Rightarrow> return (Some err) | None \<Rightarrow> must_add U xs }"

definition schemes :: "string list" where
  "schemes = [''clientgoscheme'', ''clusterv1'', ''v1beta1'', ''bootstrapv1beta1'']"

definition main_init :: "'w startup_env \<Rightarrow> ('w startup_state, error option) state" where
  "main_init U = must_add U schemes"

text \<open>\<open>if err != nil { setupLog.Error(err, msg, kvs...); os.Exit(1) }\<close>\<close>

definition or_exit ::
  "error option \<Rightarrow> string \<Rightarrow> (string \<times> string) list \<Rightarrow> ('w startup_state, exit) state \<Rightarrow> ('w startup_state, exit) state" where
  "or_exit r msg kvs rest =
     (case r of Some err \<Rightarrow> do { log_line msg kvs; return (Exited 1) } | None \<Rightarrow> rest)"

definition default_flags :: flags where
  "default_flags = \<lparr>metricsAddr = '':8082'', probeAddr = '':8083'', enableLeaderElection = False\<rparr>"

text \<open>The scheme of the manager is the one \<open>init\<close> has filled by the time \<open>main\<close> runs.\<close>

definition main_options :: "flags \<Rightarrow> manager_options" where
  "main_options fl =
     \<lparr>mo_Scheme = schemes,
      mo_MetricsBindAddress = metricsAddr fl,
      mo_Port = 9443,
      mo_HealthProbeBindAddress = probeAddr fl,
      mo_LeaderElection = enableLeaderElection fl,
      mo_LeaderElectionID = ''microk8s-control-plane-manager-leader-election-capi''\<rparr>"

definition main_reconciler :: "'w startup_env \<Rightarrow> reconciler_struct" where
  "main_reconciler U = \<lparr>rs_Client = su_GetClient U, rs_APIReader = su_GetAPIReader U, rs_Scheme = su_GetScheme U\<rparr>"

definition main :: "'w startup_env \<Rightarrow> ('w startup_state, exit) state" where
  "main U = do {
     parsed \<leftarrow> step_call (su_Parse U default_flags) (\<lambda>_. []);
     case parsed of Inl status \<Rightarrow> return (Exited status) | Inr fl \<Rightarrow> do {
     _ \<leftarrow> step_call (\<lambda>w. ((), w)) (\<lambda>_. [Logger_set]);
     died \<leftarrow> step_call (su_GetConfigOrDie U) (\<lambda>_. []);
     case died of Some status \<Rightarrow> return (Exited status) | None \<Rightarrow> do {
     r \<leftarrow> step_call (su_NewManager U (main_options fl)) (\<lambda>r. [Manager_created (main_options fl) r]);
     or_exit r ''unable to start manager'' [] (do {
     r \<leftarrow> SetupWithManager U (main_reconciler U) 10;
     or_exit r ''unable to create controller'' [(''controller'', ''MicroK8sControlPlane'')] (do {
     r \<leftarrow> SetupWebhookWithManager U;
     or_exit r ''unable to create webhook'' [(''webhook'', ''MicroK8sConfigTemplate'')] (do {
     r \<leftarrow> step_call (su_AddHealthzCheck U ''healthz'') (\<lambda>r. [Healthz_added ''healthz'' r]);
     or_exit r ''unable to set up health check'' [] (do {
     r \<leftarrow> step_call (su_AddReadyzCheck U ''readyz'') (\<lambda>r. [Readyz_added ''readyz'' r]);
     or_exit r ''unable to set up ready check'' [] (do {
     log_line ''starting manager'' [];
     r \<leftarrow> step_call (su_Start U) (\<lambda>r. [Manager_started r]);
     or_exit r ''problem running manager'' [] (return Main_returned) }) }) }) }) }) } } }"

definition process :: "'w startup_env \<Rightarrow> ('w startup_state, exit) state" where
  "process U = do {
     r \<leftarrow> main_init U;
     case r of Some err \<Rightarrow> return (Init_panicked err) | None \<Rightarrow> main U }"

subsection \<open>Fail fast\<close>

text \<open>
  The steps of the start-up in their order, each with the answer it got, and what it means to stop
  at the first one that fails.
\<close>

fun logs :: "startup_event \<Rightarrow> bool" where
  "logs (Logged msg kvs) = True"
| "logs Logger_set = True"
| "logs e = False"

definition scheme_steps :: "(error option \<Rightarrow> startup_event) list" where
  "scheme_steps = map Scheme_added schemes"

definition manager_steps :: "'w startup_env \<Rightarrow> flags \<Rightarrow> (error option \<Rightarrow> startup_event) list" where
  "manager_steps U fl =
     [Manager_created (main_options fl),
      Controller_completed \<lparr>reg_Reconciler = main_reconciler U, reg_For = ''MicroK8sControlPlane'', reg_Owns = [''Machine''],
        reg_Watches = [(''Cluster'', ClusterToMicroK8sControlPlane)], reg_MaxConcurrentReconciles = 10\<rparr>,
      Webhook_completed ''MicroK8sControlPlane'',
      Healthz_added ''healthz'',
      Readyz_added ''readyz'',
      Manager_started]"

fun fail_fast :: "(error option \<Rightarrow> startup_event) list \<Rightarrow> startup_event list \<Rightarrow> error option \<Rightarrow> bool" where
  "fail_fast [] es r \<longleftrightarrow> es = [] \<and> r = None"
| "fail_fast (step # steps) [] r \<longleftrightarrow> False"
| "fail_fast (step # steps) (e # es) r \<longleftrightarrow>
     (e = step None \<and> fail_fast steps es r) \<or> (\<exists>err. e = step (Some err) \<and> es = [] \<and> r = Some err)"

definition steps_of :: "startup_event list \<Rightarrow> startup_event list" where
  "steps_of es = filter (\<lambda>e. \<not> logs e) es"

lemma steps_of_simps [simp]:
  "steps_of [] = []" "steps_of (e # es) = (if logs e then steps_of es else e # steps_of es)"
  "steps_of (es @ es') = steps_of es @ steps_of es'"
  by (simp_all add: steps_of_def)

lemma wp_step_call [wp]:
  assumes "\<And>r w. f (su_world s) = (r, w) \<Longrightarrow> Q r (ev r) (s\<lparr>trace := trace s @ ev r, su_world := w\<rparr>)"
  shows "wp (step_call f ev) Q s"
  using assms by (auto simp: wp_def result_def final_def step_call_def split: prod.splits)

lemma wp_log_line [wp]:
  "Q () [Logged msg kvs] (s\<lparr>trace := trace s @ [Logged msg kvs]\<rparr>) \<Longrightarrow> wp (log_line msg kvs) Q s"
  by (simp add: wp_def result_def final_def log_line_def)

lemma must_add_wp: "wp (must_add U xs) (\<lambda>r es s'. fail_fast (map Scheme_added xs) (steps_of es) r) s"
proof (induction xs arbitrary: s)
  case Nil
  show ?case by (simp, rule wp_return) simp
next
  case (Cons x xs)
  show ?case unfolding must_add.simps by (intro wp wp_conseq [OF Cons.IH]) auto
qed

lemma main_wp:
  "wp (main U)
     (\<lambda>x es s'. (\<exists>status. x = Exited status \<and> steps_of es = []) \<or>
        (\<exists>fl r. fail_fast (manager_steps U fl) (steps_of es) r \<and>
           x = (case r of None \<Rightarrow> Main_returned | Some err \<Rightarrow> Exited 1))) s"
  unfolding main_def or_exit_def SetupWithManager_def SetupWebhookWithManager_def Let_def
  by (intro wp) (auto simp: manager_steps_def)

text \<open>
  The ways a start can go: a scheme is refused, a library ends the process, or the manager steps are
  taken up to the first that fails.
\<close>

inductive startup_run :: "'w startup_env \<Rightarrow> exit \<Rightarrow> startup_event list \<Rightarrow> bool" for U :: "'w startup_env" where
  scheme_refused: "fail_fast scheme_steps es (Some err) \<Longrightarrow> startup_run U (Init_panicked err) es"
| library_exit: "fail_fast scheme_steps es None \<Longrightarrow> startup_run U (Exited status) es"
| set_up: "fail_fast scheme_steps es None \<Longrightarrow> fail_fast (manager_steps U fl) es' r \<Longrightarrow>
    startup_run U (case r of None \<Rightarrow> Main_returned | Some err \<Rightarrow> Exited 1) (es @ es')"

lemma process_wp: "wp (process U) (\<lambda>x es s'. startup_run U x (steps_of es)) s"
  unfolding process_def main_init_def
  by (intro wp wp_conseq [OF must_add_wp] wp_conseq [OF main_wp])
     (auto simp flip: scheme_steps_def intro: startup_run.intros)

lemma fail_fast_appended:
  "fail_fast (steps @ [step]) es r \<Longrightarrow> (\<forall>f \<in> set steps. \<forall>q. step None \<noteq> f q) \<Longrightarrow> (\<forall>q. step (Some q) \<noteq> step None) \<Longrightarrow>
     r = None \<longleftrightarrow> step None \<in> set es"
proof (induction steps arbitrary: es)
  case Nil
  then show ?case by (cases es) auto
next
  case (Cons f steps)
  then show ?case by (cases es) fastforce+
qed

lemma startup_run_returns: "startup_run U x es \<Longrightarrow> x = Main_returned \<longleftrightarrow> Manager_started None \<in> set es"
proof (induction rule: startup_run.induct)
  have scheme: "Manager_started q \<notin> set es" if "fail_fast (map Scheme_added xs) es r" for q xs es r
    using that
  proof (induction xs arbitrary: es)
    case (Cons x xs)
    then show ?case by (cases es) auto
  qed simp
  { case (scheme_refused es err)
    then show ?case using scheme by (simp add: scheme_steps_def) }
  { case (library_exit es status)
    then show ?case using scheme by (simp add: scheme_steps_def) }
  { case (set_up es fl es' r)
    have "manager_steps U fl = butlast (manager_steps U fl) @ [Manager_started]" by (simp add: manager_steps_def)
    with set_up have "r = None \<longleftrightarrow> Manager_started None \<in> set es'"
      by (intro fail_fast_appended [of "butlast (manager_steps U fl)"]) (auto simp: manager_steps_def)
    with set_up scheme show ?case by (auto simp: scheme_steps_def split: option.splits) }
qed

text \<open>
  C39: the process starts up in one order and fails fast: the four schemes, then the manager over
  them, the controller with the clients of the manager and its watch on clusters, the webhook and the
  two checks, then the manager runs; the first refusal ends the process with a panic or status 1, and
  it ends normally only if the manager was started and stopped without an error.
\<close>

theorem startup_fails_fast:
  "startup_run U (result (process U) s) (steps_of (events (process U) s)) \<and>
   (result (process U) s = Main_returned \<longleftrightarrow> Manager_started None \<in> set (steps_of (events (process U) s)))"
  using wpD [OF process_wp [of U s]] startup_run_returns by blast

end
