(* ===== verification/Spec2Isabelle.thy ===== *)
theory Spec2Isabelle
  imports Scaling_Properties Convergence_Properties Upgrade_Properties Object_Properties Deep_Copy Startup
begin

text \<open>
  A model of the MicroK8s control plane provider for Cluster API, and the theorems that make it
  correct. The program is a Kubernetes controller: for every \<open>MicroK8sControlPlane\<close> object it keeps
  as many control plane machines of the asked version as the object wants, creates the kubeconfig
  secret of the cluster, keeps the status of the object, and cleans up after it.

  \<^bold>\<open>The parts and how they interact.\<close> \<open>Reconcile\<close> (\<open>controllers/microk8scontrolplane_controller.go\<close>)
  reads the object and its cluster, holds the pass back at its gates, adds the finalizer on the first
  pass, and otherwise runs \<open>reconcile\<close> or \<open>reconcileDelete\<close> (\<open>controllers/reconcile.go\<close>), with a
  deferred function that updates the status (\<open>controllers/status.go\<close>), patches the object and
  overwrites the result. \<open>reconcile\<close> lists the machines, aggregates their conditions and runs three
  phases in order: initial conditions, node health, and \<open>reconcileMachines\<close>, which boots, removes
  or upgrades machines. The phases that need the workload cluster obtain a client from the kubeconfig
  secret, which \<open>controllers/configs.go\<close> generates when it is missing.

  \<^bold>\<open>State.\<close> All functions of the source share one object and one cluster by pointer; the models
  thread a state \<open>'w st\<close> with these two, the world \<open>'w\<close> behind the clients, and the trace of the
  external calls issued so far. A Go panic is a value (\<open>Panic\<close>), because deferred calls still run; a
  returned error is a value of a sum or an option. Machine integers of 32 and 64 bits are words; the
  other integers are lengths of lists and are \<open>int\<close>. What the program calls but does not contain (the
  API servers, cluster-api, client-go, x509, semver, the clock and random numbers) is the record
  \<open>'w env\<close>, an argument of every definition. Contracts on it state documented behaviour where a
  theorem needs it: \<open>conditions_contract\<close> (marking a condition sets that condition and no other),
  \<open>sort_contract\<close> (the sort permutes and sorts), \<open>semver_contract\<close> (a version compares equal to
  itself) and, for the finalizer, that removing one leaves an object without it. The environment
  \<open>ref_env\<close> meets all of them.

  \<^bold>\<open>Theories, in the order they build on each other.\<close>
    \<^item> \<open>Prelude\<close>: panics, deferred calls, traces, and \<open>wp\<close>, total-correctness predicates over a
      run's result, the calls it adds and its final state, with one rule per construct.
    \<^item> \<open>API_Types\<close>: the records and constants of \<open>api/v1beta1\<close>, and what the controllers use of the
      Kubernetes and Cluster API types. \<open>Environment\<close>: the parameters. \<open>Calls\<close>: the events, the
      state, one abbreviation per external call, and the accessors of the two shared objects.
    \<^item> \<open>Creation_Order\<close>: \<open>utils.go\<close> and the insertion sort of \<open>sort.Sort\<close>, behind the locale
      \<open>sort_interface\<close>. Up to twelve machines the sort is the model's; above, it is a parameter.
    \<^item> \<open>Machine_Boot\<close>: \<open>getControlPlaneMachinesForCluster\<close>, \<open>getFailureDomain\<close>,
      \<open>generateMicroK8sConfig\<close>, \<open>bootControlPlane\<close>; the relation \<open>boot_run\<close> lists the ways a boot can end.
    \<^item> \<open>Go_Strings\<close>: the functions of \<open>strings\<close> and \<open>encoding/base64\<close> the source uses, defined.
      \<open>Kubeconfig\<close>: \<open>configs.go\<close>, with the locale \<open>client_provider\<close> for whoever needs a client.
    \<^item> \<open>Upgrade\<close>: the upgrade pod, the two waits (60 attempts of ten seconds; a recursion on the
      attempts that are left, so it is total) and the in-place upgrade loop, with \<open>upgrade_run\<close>, the
      rounds such a loop goes through node by node and how a round can end.
    \<^item> \<open>Scale_Down\<close>: \<open>scaleDownControlPlane\<close>, its decision as a function, and \<open>scale_down_run\<close>, the
      ways it can end, with \<open>cleanup_run\<close> for the node of a machine that is already being deleted.
      \<open>Health\<close>: \<open>healthchecks.go\<close> and the two phases that only touch conditions.
    \<^item> \<open>Replicas\<close>: \<open>reconcileMachines\<close> and \<open>bootstrapCluster\<close>; its plan \<open>plan_of\<close>, the decision
      \<open>replica_action\<close> of the switch, what carrying it out means (\<open>carries_out\<close>) and the effects a
      run of the phase can have (\<open>machine_effects\<close>).
    \<^item> \<open>Machine_Phase\<close>: the contract of the phase as a whole, written without the code's tests:
      \<open>expected_plan\<close>, a table over the version of the oldest machine, the strategy and the number of
      machines, and \<open>phase_run\<close>, the calls and the reply of each entry.
    \<^item> \<open>Roll_Step\<close> and \<open>Convergence\<close>: the phase over many passes. The locale \<open>converging\<close> is the
      liveness argument; it is interpreted, for rolling upgrades and for scaling, on \<open>roll_step\<close>, an
      abstract step over the versions of the machines in order of age, and every pass of the code is
      shown to take that step or to change nothing. A machine whose deletion was accepted counts as
      gone from the next machines a history considers (\<open>next_machines\<close>); the passes in which it
      lingers with a deletion timestamp are left out.
    \<^item> \<open>Deletion\<close>: \<open>reconcileDelete\<close> and its specification \<open>delete_pass\<close>. \<open>Status\<close>: \<open>updateStatus\<close>
      and \<open>updateProviderID\<close>; \<open>computed_status\<close> is the status as a function of what was read, and
      \<open>status_run\<close> says which calls a status update issues, in which order, and how it can end.
    \<^item> \<open>Reconciler\<close>: \<open>reconcile\<close>, \<open>Reconcile\<close>, the patch and the mapping of clusters to requests;
      the locale \<open>quiet_phase\<close> for the phases that issue no call. The slice of condition getters is
      filled over a small store of variables, because its slots hold the address of a loop variable.
    \<^item> \<open>Pass_Spec\<close>: what a reconciliation past its gates has to do, independent of the code:
      \<open>pass_run\<close> for the pass, \<open>deferred_run\<close> for the status update and the patch after it.
    \<^item> \<open>Reference\<close>: \<open>ref_env\<close>, an in-memory management and workload cluster on which the witnesses run.
    \<^item> \<open>Deep_Copy\<close>: \<open>zz_generated.deepcopy.go\<close> over an explicit store; the locale \<open>copier\<close> states
      what a deep copy promises, \<open>slices\<close> and \<open>foreign_types\<close> lift it to slices and structs.
    \<^item> \<open>Startup\<close>: \<open>main.go\<close>, \<open>SetupWithManager\<close> and \<open>SetupWebhookWithManager\<close>.
    \<^item> \<open>Scaling_Properties\<close>, \<open>Convergence_Properties\<close>, \<open>Upgrade_Properties\<close>, \<open>Object_Properties\<close>
      and this theory hold the properties, with witnesses on \<open>ref_env\<close> where they have hypotheses.

  \<^bold>\<open>What the lemmas show.\<close> A run of the machine phase creates or deletes at most one machine, under
  which guards, and with which identity; it refines its plan, and the plan a decision on two numbers.
  Over many passes the number of machines reaches the desired one, and a rolling upgrade of at least
  three replicas comes to its end; with fewer it provably does not, and an interrupted in-place upgrade is not resumed. The waits are bounded, and
  report success when they give up. The finalizer goes only when no machine is left. The status is a
  function of what was read and its counters agree below the 32 bit range. The generated kubeconfig
  holds what went in, each value in its place. A reconciliation past its gates, with the finalizer in
  place, does its pass, the status update and one patch; if it does not panic it returns the error of
  the pass and asks for a requeue after 30 seconds, which counts when there is no error. A
  reconciliation closes every client it opens, on every path. A deep copy shares no memory with its original. The process starts up in one order and
  fails fast.

  \<^bold>\<open>Not modelled.\<close> Logging, contexts and their cancellation, the log lines (but for the
  start-up), struct tags and code generation markers, the registration of the two API types with the
  scheme builder (one call into controller-runtime), \<open>newControlPlane\<close>, whose record only repeats its
  arguments, the network timeouts in \<open>newDialer\<close>, and the test set-up \<open>suite_test.go\<close>.
  Concurrency between reconciliations is left to controller-runtime, which never runs two of one
  object at once; what other clients do meanwhile is part of the world behind the environment.
  Iteration over Go maps takes its order from the environment. A slice in \<open>Deep_Copy\<close> covers its
  whole array. Manifests, shell scripts and templates contain no program.
\<close>

subsection \<open>Properties of a whole reconciliation\<close>

lemma ref_gates_open: "gates_open ref_env key (world (state_of r v st ms)) (ref_control_plane r v st) ref_cluster"
  by (simp add: gates_open_def ref_env_def state_of_def ref_state_def ref_cluster_def)

lemma ref_finalizer:
  "controllerutil_ContainsFinalizer ref_env (mcp_Meta (ref_control_plane r v st)) MicroK8sControlPlaneFinalizer"
  by (simp add: ref_env_def ref_control_plane_def)



text \<open>
  C4: a whole reconciliation of an object that is not being deleted creates and deletes at most one
  machine together, whatever the clients answer. A machine is created only when some listing shows
  machines missing or due for a rolling upgrade, and it carries the identity of the object; one is
  deleted only when a listing shows more machines than desired, at least four, all of them with their
  nodes and none being deleted, and it is one of the oldest. So the controller takes no
  control plane below three machines.
\<close>

theorem reconciliation_guards_machines:
  assumes "conditions_contract E" and "sort_contract E" and "gates_open E key (world s) m c"
    and "controllerutil_ContainsFinalizer E (mcp_Meta m) MicroK8sControlPlaneFinalizer"
    and "IsZero (om_DeletionTimestamp (mcp_Meta m))"
  shows "count_of creates_machine (events (Reconcile E key) s) +
      count_of deletes_machine (events (Reconcile E key) s) \<le> 1 \<and>
    (\<forall>x q. Created (OMachine x) q \<in> set (events (Reconcile E key) s) \<longrightarrow>
       (\<exists>ms. listed E (focus s m c) ms \<and> may_create E (focus s m c) ms \<and> owned_machine E (focus s m c) x)) \<and>
    (\<forall>x q. Deleted (OMachine x) q \<in> set (events (Reconcile E key) s) \<longrightarrow>
       (\<exists>ms. listed E (focus s m c) ms \<and> may_delete (focus s m c) ms \<and> settled ms \<and> oldest_of x ms))"
  by (rule wpD [OF Reconcile_living_wp [OF assms]])

theorem reconciliation_guards_machines_witness:
  "count_of creates_machine (events (Reconcile ref_env \<lparr>key_Namespace = ''default'', key_Name = ''cp''\<rparr>)
      (state_of 3 ''v1.27.1'' [] four_machines)) +
   count_of deletes_machine (events (Reconcile ref_env \<lparr>key_Namespace = ''default'', key_Name = ''cp''\<rparr>)
      (state_of 3 ''v1.27.1'' [] four_machines)) \<le> 1"
proof -
  have "IsZero (om_DeletionTimestamp (mcp_Meta (ref_control_plane 3 ''v1.27.1'' [])))"
    by (simp add: IsZero_def ref_control_plane_def empty_meta_def)
  from reconciliation_guards_machines [OF ref_conditions_contract ref_sort_contract ref_gates_open ref_finalizer this]
  show ?thesis by blast
qed

text \<open>
  C32: a reconciliation closes every client it opened, on every path, panics included.
\<close>

theorem clients_released:
  assumes "conditions_contract E" and "sort_contract E"
  shows "mset (opened (events (Reconcile E key) s)) = mset (closed (events (Reconcile E key) s))"
  using wpD [OF Reconcile_balanced [OF assms]] by (simp add: balanced_def)

theorem clients_released_witness:
  "mset (opened (events (Reconcile ref_env \<lparr>key_Namespace = ''default'', key_Name = ''cp''\<rparr>)
     (state_of 3 ''v1.27.1'' [] four_machines))) =
   mset (closed (events (Reconcile ref_env \<lparr>key_Namespace = ''default'', key_Name = ''cp''\<rparr>)
     (state_of 3 ''v1.27.1'' [] four_machines)))"
  by (rule clients_released [OF ref_conditions_contract ref_sort_contract])

text \<open>
  C33: while the object is being deleted a reconciliation creates no machine, and deletes only machines
  the management cluster listed and that are not being deleted yet.
\<close>

theorem deletion_creates_nothing:
  assumes "conditions_contract E" and "sort_contract E" and "gates_open E key (world s) m c"
    and "controllerutil_ContainsFinalizer E (mcp_Meta m) MicroK8sControlPlaneFinalizer"
    and "\<not> IsZero (om_DeletionTimestamp (mcp_Meta m))"
  shows "count_of creates_machine (events (Reconcile E key) s) = 0 \<and>
    (\<forall>x q. Deleted (OMachine x) q \<in> set (events (Reconcile E key) s) \<longrightarrow>
       (\<exists>ms. listed E (focus s m c) ms \<and> x \<in> set (live ms)))"
  using wpD [OF Reconcile_deleting_wp [OF assms]] by (simp add: filter_empty_conv)

definition deleted_control_plane :: MicroK8sControlPlane where
  "deleted_control_plane =
     mcp_Meta_update (\<lambda>m. m\<lparr>om_DeletionTimestamp := Some 50\<rparr>) (ref_control_plane 3 ''v1.27.1'' [])"

theorem deletion_creates_nothing_witness:
  "count_of creates_machine (events (Reconcile ref_env \<lparr>key_Namespace = ''default'', key_Name = ''cp''\<rparr>)
     (ref_state deleted_control_plane four_machines [])) = 0"
proof -
  have "gates_open ref_env \<lparr>key_Namespace = ''default'', key_Name = ''cp''\<rparr>
      (world (ref_state deleted_control_plane four_machines [])) deleted_control_plane ref_cluster"
    by (simp add: gates_open_def ref_env_def ref_state_def ref_cluster_def)
  moreover have "controllerutil_ContainsFinalizer ref_env (mcp_Meta deleted_control_plane)
      MicroK8sControlPlaneFinalizer"
    by (simp add: deleted_control_plane_def ref_env_def ref_control_plane_def)
  moreover have "\<not> IsZero (om_DeletionTimestamp (mcp_Meta deleted_control_plane))"
    by (simp add: deleted_control_plane_def IsZero_def)
  ultimately show ?thesis
    using deletion_creates_nothing [OF ref_conditions_contract ref_sort_contract] by blast
qed

text \<open>
  C34: the first reconciliation of an object only adds the finalizer: after the two reads there is one
  patch of the object that was read, and its error is the error returned.
\<close>

theorem first_pass_adds_finalizer:
  assumes "gates_open E key (world s) m c"
    and "\<not> controllerutil_ContainsFinalizer E (mcp_Meta m) MicroK8sControlPlaneFinalizer"
  shows "\<exists>q. events (Reconcile E key) s = gate_reads @ [Patched (OMCP m) (OMCP (with_finalizer E m)) q] \<and>
    result (Reconcile E key) s = Ret (no_requeue, q)"
  using wpD [OF Reconcile_first_wp [OF assms]] by blast

definition bare_control_plane :: MicroK8sControlPlane where
  "bare_control_plane = mcp_Meta_update (\<lambda>m. m\<lparr>om_Finalizers := []\<rparr>) (ref_control_plane 3 ''v1.27.1'' [])"

theorem first_pass_adds_finalizer_witness:
  "\<exists>q. events (Reconcile ref_env \<lparr>key_Namespace = ''default'', key_Name = ''cp''\<rparr>) (ref_state bare_control_plane [] []) =
      gate_reads @ [Patched (OMCP bare_control_plane) (OMCP (with_finalizer ref_env bare_control_plane)) q] \<and>
    result (Reconcile ref_env \<lparr>key_Namespace = ''default'', key_Name = ''cp''\<rparr>) (ref_state bare_control_plane [] []) =
      Ret (no_requeue, q)"
proof (rule first_pass_adds_finalizer [where c = ref_cluster])
  show "gates_open ref_env \<lparr>key_Namespace = ''default'', key_Name = ''cp''\<rparr>
      (world (ref_state bare_control_plane [] [])) bare_control_plane ref_cluster"
    by (simp add: gates_open_def ref_env_def ref_state_def ref_cluster_def)
  show "\<not> controllerutil_ContainsFinalizer ref_env (mcp_Meta bare_control_plane) MicroK8sControlPlaneFinalizer"
    by (simp add: bare_control_plane_def ref_env_def)
qed

text \<open>
  C35: a reconciliation that does not find its gates open (the object gone, no cluster, paused,
  infrastructure not ready, no patch helper) only reads, at most two objects.
\<close>

theorem closed_gates_only_read:
  assumes "\<And>m c. \<not> gates_open E key (world s) m c"
  shows "events (Reconcile E key) s \<in> {[Read ''Get MicroK8sControlPlane''], gate_reads} \<and>
    (\<exists>res err. result (Reconcile E key) s = Ret (res, err) \<and>
       res \<in> {no_requeue, requeue_now, requeue_after (20 * Second)})"
  using wpD [OF Reconcile_closed_wp [of E key s]] assms by blast

definition paused_env :: "ref_world env" where
  "paused_env = ref_env\<lparr>annotations_IsPaused := (\<lambda>c m. True)\<rparr>"

theorem closed_gates_only_read_witness:
  "events (Reconcile paused_env \<lparr>key_Namespace = ''default'', key_Name = ''cp''\<rparr>)
     (state_of 3 ''v1.27.1'' [] four_machines) \<in> {[Read ''Get MicroK8sControlPlane''], gate_reads}"
  using closed_gates_only_read [of paused_env] by (simp add: gates_open_def paused_env_def)

text \<open>
  C36: a reconciliation that gets past its gates, finds the finalizer in place and does not panic returns
  the result of a requeue after 30 seconds together with the error of its pass, whatever requeue the
  pass itself asked for. Without an error the object is therefore looked at again after 30 seconds;
  with one controller-runtime ignores the result and retries with its own back-off. (The first
  pass, which adds the finalizer, asks for no requeue.)
\<close>

theorem always_requeued:
  assumes "conditions_contract E" and "sort_contract E"
    and "gates_open E key (world s) m c"
    and "controllerutil_ContainsFinalizer E (mcp_Meta m) MicroK8sControlPlaneFinalizer"
    and "result (Reconcile E key) s = Ret rep"
  shows "fst rep = requeue_after (30 * Second) \<and>
    (\<exists>t t' res body. mcp t = m \<and> cluster t = c \<and> pass_run E t (Ret (res, snd rep)) body t')"
proof -
  from wpD [OF Reconcile_run [OF assms(1-4)]] assms(5) obtain t t' body d r0
    where "mcp t = m" and "cluster t = c" and "pass_run E t r0 body t'" and "after_deferred d r0 = Ret rep"
    by metis
  then show ?thesis using after_deferred_Ret [of d r0 rep] by blast
qed

text \<open>A reconciliation without an error: a control plane with one machine that is being deleted.\<close>

theorem always_requeued_witness:
  "result (Reconcile ref_env \<lparr>key_Namespace = ''default'', key_Name = ''cp''\<rparr>)
     (ref_state deleted_control_plane one_machine []) = Ret (requeue_after (30 * Second), None)"
proof -
  have g: "gates_open ref_env \<lparr>key_Namespace = ''default'', key_Name = ''cp''\<rparr>
      (world (ref_state deleted_control_plane one_machine [])) deleted_control_plane ref_cluster"
    by (simp add: gates_open_def ref_env_def ref_state_def ref_cluster_def)
  have f: "controllerutil_ContainsFinalizer ref_env (mcp_Meta deleted_control_plane) MicroK8sControlPlaneFinalizer"
    by (simp add: deleted_control_plane_def ref_env_def ref_control_plane_def)
  have "case result (Reconcile ref_env \<lparr>key_Namespace = ''default'', key_Name = ''cp''\<rparr>)
      (ref_state deleted_control_plane one_machine []) of Ret rep \<Rightarrow> snd rep = None | Panic p \<Rightarrow> False"
    by code_simp
  then obtain res where "result (Reconcile ref_env \<lparr>key_Namespace = ''default'', key_Name = ''cp''\<rparr>)
      (ref_state deleted_control_plane one_machine []) = Ret (res, None)"
    by (auto split: outcome.splits)
  with always_requeued [OF ref_conditions_contract ref_sort_contract g f this] show ?thesis by simp
qed

text \<open>
  C37: the condition getters handed to the aggregation all hold the one address of the loop variable, and
  behind it is the last machine when the aggregation follows them. So the aggregated condition is that
  of the last machine, and whatever the other machines are makes no difference to it.
\<close>

theorem aggregate_sees_last_machine:
  "fst (getter_slots (ms @ [m]) st) = replicate (Suc (length ms)) (Some (var_next st)) \<and>
   var_value (snd (getter_slots (ms @ [m]) st)) (var_next st) = Some m \<and>
   set (condition_getters (ms @ [m])) = {m} \<and>
   conditions_SetAggregate E t (condition_getters (map f ms @ [m])) cs =
     conditions_SetAggregate E t (condition_getters (ms @ [m])) cs"
  by (simp add: getter_slots_shared condition_getters_last set_replicate_conv_if)

text \<open>
  A watched object maps to a request exactly when it is a cluster whose control plane
  reference is a MicroK8sControlPlane, and then to the one the reference names.
\<close>

lemma cluster_maps_to_its_control_plane:
  "key \<in> set (ClusterToMicroK8sControlPlane obj) \<longleftrightarrow>
     (\<exists>c ref. obj = OCluster c \<and> cl_ControlPlaneRef c = Some ref \<and> ref_Kind ref = ''MicroK8sControlPlane'' \<and>
        key = \<lparr>key_Namespace = ref_Namespace ref, key_Name = ref_Name ref\<rparr>)"
  unfolding ClusterToMicroK8sControlPlane_def
  by (cases obj; simp split: option.split) (metis option.inject)

end
